(* ===== verification/TVM_Prelude.thy ===== *)
theory TVM_Prelude
  imports Main "HOL-Library.Word" "HOL-Library.Signed_Division"
begin

text \<open>
  Shared vocabulary: the machine types of tvm_types.h at the 32-bit word length, the
  collections of simplification rules that the components contribute to, and the generic
  facts about words, alignment and bits that more than one component uses.
\<close>

unbundle bit_operations_syntax

section \<open>Machine types (tvm_types.h, TVM_WORD_LENGTH = 4)\<close>

text \<open>
  WORD and UWORD are the same 32 bits; the C casts between them are identities here, and
  the signed or unsigned reading is chosen by the operation (\<open>sint\<close>, \<open>\<le>s\<close>, \<open>scast\<close>
  against \<open>unat\<close>, \<open>\<le>\<close>, \<open>ucast\<close>). Pointers of the emulated machine are such words.
\<close>

type_synonym BYTE = "8 word"
type_synonym INT16 = "16 word"
type_synonym WORD = "32 word"
type_synonym UWORD = "32 word"
type_synonym UTWOWORD = "64 word"
type_synonym WORDPTR = "32 word"
type_synonym BYTEPTR = "32 word"
type_synonym INT16PTR = "32 word"

section \<open>Collections of rules\<close>

named_theorems tvm_consts "the numeric values of the machine's constants"
named_theorems tvm_mem "reads over writes"
named_theorems tvm_defs "the macros and helpers that instructions are built from"
named_theorems align_simps "alignment of computed addresses"

section \<open>Alignment\<close>

definition aligned :: "WORDPTR \<Rightarrow> bool" where
  "aligned p \<longleftrightarrow> p AND 3 = 0"

lemma and_3_mod: "(p :: WORD) AND 3 = p mod 4"
  using take_bit_eq_mask[of 2 p] by (simp add: take_bit_eq_mod mask_eq_exp_minus_1)

lemma aligned_mod: "aligned p \<longleftrightarrow> p mod 4 = 0"
  by (simp add: aligned_def and_3_mod)

lemma aligned_unat: "aligned p \<longleftrightarrow> 4 dvd unat p"
proof -
  have "unat (p mod 4) = unat p mod 4" by (simp add: unat_mod_distrib)
  then show ?thesis by (metis aligned_mod dvd_eq_mod_eq_0 unat_eq_zero)
qed

lemma aligned_uint: "aligned p \<longleftrightarrow> 4 dvd uint p"
proof -
  have "uint p = int (unat p)" by simp
  then show ?thesis using int_dvd_int_iff[of 4 "unat p"] by (simp add: aligned_unat)
qed

lemma aligned_add [align_simps]: "aligned p \<Longrightarrow> aligned q \<Longrightarrow> aligned (p + q)"
  unfolding aligned_uint uint_word_ariths by (simp add: dvd_mod_iff)

lemma aligned_sub [align_simps]: "aligned p \<Longrightarrow> aligned q \<Longrightarrow> aligned (p - q)"
  unfolding aligned_uint uint_word_ariths by (simp add: dvd_mod_iff)

lemma aligned_mult4 [align_simps]: "aligned (4 * n)"  "aligned (n * 4)"
  unfolding aligned_uint uint_word_ariths by (simp_all add: dvd_mod_iff)

lemma aligned_numeral [align_simps]: "aligned 0" "aligned 4" "aligned 8" "aligned 12"
    "aligned 16" "aligned 20" "aligned 24" "aligned 28"
  by (simp_all add: aligned_def)

lemma aligned_take_bit: "aligned p \<longleftrightarrow> take_bit 2 p = 0"
  by (simp add: aligned_mod take_bit_eq_mod)

lemma aligned_bits: "aligned p \<Longrightarrow> \<not> bit p 0 \<and> \<not> bit p 1"
  unfolding aligned_take_bit bit_eq_iff by (auto simp: bit_simps dest: spec[of _ 0] spec[of _ 1])

lemma aligned_offset_mod:
  assumes "aligned p" "i < 4"
  shows "(p + i) mod 4 = i"
proof -
  have i: "uint i < 4" using assms(2) by (simp add: word_less_alt)
  have "uint ((p + i) mod 4) = uint i"
    using assms(1) i unfolding aligned_uint uint_mod_distrib uint_word_ariths
    by (auto simp add: mod_mod_cancel elim!: dvdE)
  then show ?thesis by (simp add: word_uint_eq_iff)
qed

lemma aligned_eqI:
  assumes "aligned p" "aligned q" "p + i = q + j" "i < 4" "j < 4"
  shows "p = q \<and> i = j"
proof -
  have "i = j"
    using aligned_offset_mod[OF assms(1,4)] aligned_offset_mod[OF assms(2,5)] assms(3) by simp
  with assms(3) show ?thesis by simp
qed

lemma aligned_off_neq:
  assumes "aligned p" "aligned q" "p \<noteq> q" "i < 4" "j < 4"
  shows "p + i \<noteq> q + j"
  using aligned_eqI[of p q i j] assms by blast

text \<open>The low bit of an aligned pointer carries a flag (a channel word that holds an ALTing process).\<close>

lemma bit_1_word: "bit (1 :: WORD) n \<longleftrightarrow> n = 0"
  by (simp add: bit_1_iff)

lemma not_1_word: "(0xFFFFFFFE :: WORD) = NOT 1"
  by simp

lemma aligned_or_1 [align_simps]:
  assumes "aligned p"
  shows "(p OR 1) AND 0xFFFFFFFE = p" "(p OR 1) AND 1 = 1" "p AND 1 = 0" "p AND 0xFFFFFFFE = p"
  unfolding not_1_word using aligned_bits[OF assms]
  by (auto intro!: bit_word_eqI gr0I simp: bit_simps bit_1_word)

lemma aligned_or_1_neq:
  assumes "aligned p" "aligned q"
  shows "p OR 1 \<noteq> q"
  using aligned_or_1(2)[OF assms(1)] aligned_or_1(3)[OF assms(2)] by auto

text \<open>The sign bit and the wrap-around of one signed addition or subtraction.\<close>

lemma bit_31_sint: "bit (x :: WORD) 31 \<longleftrightarrow> sint x < 0"
  using bit_last_iff[of x] by simp

lemma drop_bit_31: "drop_bit 31 (x :: WORD) = 0 \<longleftrightarrow> \<not> bit x 31"
  using drop_bit_eq_zero_iff_not_bit_last[of x] by simp

lemma sint_range: "- 2147483648 \<le> sint (x :: WORD)" "sint x < 2147483648"
  using sint_ge[of x] sint_lt[of x] by simp_all

lemma signed_wrap:
  assumes "- 4294967296 \<le> k" "k < 4294967296"
  shows "signed_take_bit 31 (k :: int) =
    (if k < - 2147483648 then k + 4294967296 else if k < 2147483648 then k else k - 4294967296)"
proof -
  have "signed_take_bit 31 k = (k + 2147483648) mod 4294967296 - 2147483648"
    by (simp add: signed_take_bit_eq_take_bit_shift take_bit_eq_mod)
  then show ?thesis using assms
    by (auto simp: mod_pos_pos_trivial) (smt (verit, best) mod_add_self1 mod_pos_pos_trivial mod_diff_right_eq minus_mod_self2)+
qed

lemma sint_add: "sint (x + y :: WORD) =
   (if sint x + sint y < - 2147483648 then sint x + sint y + 4294967296
    else if sint x + sint y < 2147483648 then sint x + sint y else sint x + sint y - 4294967296)"
  using signed_wrap[of "sint x + sint y"] sint_range[of x] sint_range[of y]
  by (simp add: sint_word_ariths)

lemma sint_sub: "sint (x - y :: WORD) =
   (if sint x - sint y < - 2147483648 then sint x - sint y + 4294967296
    else if sint x - sint y < 2147483648 then sint x - sint y else sint x - sint y - 4294967296)"
  using signed_wrap[of "sint x - sint y"] sint_range[of x] sint_range[of y]
  by (simp add: sint_word_ariths)

lemma uint_add_32: "uint (x + y :: WORD) =
   (if uint x + uint y < 4294967296 then uint x + uint y else uint x + uint y - 4294967296)"
  using uint_add_lem[of x y] uint_bounded[of x] uint_bounded[of y]
  by (auto simp: uint_word_ariths) (smt (verit, best) mod_add_self2 mod_pos_pos_trivial uint_ge_0 minus_mod_self2)

lemma unat_bound: "unat (x :: WORD) < 4294967296"
  using unsigned_less[of x] by simp

end
