(* ===== verification/TVM_MobileTypes.thy ===== *)
theory TVM_MobileTypes
  imports TVM_Prelude
begin

text \<open>
  The type words of mobile types (mobile_types.h): bit 0 marks a simple type, bits 1 to 4 its
  number, the rest are flags of the type, which for arrays hold the element type.
\<close>

definition MT_FALSE :: UWORD where [tvm_consts]: "MT_FALSE = 0"
definition MT_TRUE :: UWORD where [tvm_consts]: "MT_TRUE = 1"

definition MT_SIMPLE :: UWORD where [tvm_consts]: "MT_SIMPLE = 0x1"
definition MT_TYPE_SHIFT :: nat where [tvm_consts]: "MT_TYPE_SHIFT = 1"
definition MT_FLAGS_SHIFT :: nat where [tvm_consts]: "MT_FLAGS_SHIFT = 5"

definition MT_TYPE :: "UWORD \<Rightarrow> UWORD" where "MT_TYPE x = drop_bit MT_TYPE_SHIFT x AND 0xf"
definition MT_MAKE_TYPE :: "UWORD \<Rightarrow> UWORD" where "MT_MAKE_TYPE x = push_bit MT_TYPE_SHIFT x"
definition MT_FLAGS :: "UWORD \<Rightarrow> UWORD" where "MT_FLAGS x = drop_bit MT_FLAGS_SHIFT x"

text \<open>Type numbers.\<close>

definition MT_NUM :: UWORD where [tvm_consts]: "MT_NUM = 0"
definition MT_ARRAY :: UWORD where [tvm_consts]: "MT_ARRAY = 1"
definition MT_CB :: UWORD where [tvm_consts]: "MT_CB = 2"
definition MT_BARRIER :: UWORD where [tvm_consts]: "MT_BARRIER = 3"
definition MT_MT :: UWORD where [tvm_consts]: "MT_MT = 5"
definition MT_DATA :: UWORD where [tvm_consts]: "MT_DATA = 7"
definition MT_ARRAY_OPTS :: UWORD where [tvm_consts]: "MT_ARRAY_OPTS = 9"

text \<open>Numeric types.\<close>

definition MT_NUM_BYTE :: UWORD where [tvm_consts]: "MT_NUM_BYTE = 0"
definition MT_NUM_INT16 :: UWORD where [tvm_consts]: "MT_NUM_INT16 = 1"
definition MT_NUM_INT32 :: UWORD where [tvm_consts]: "MT_NUM_INT32 = 2"
definition MT_NUM_INT64 :: UWORD where [tvm_consts]: "MT_NUM_INT64 = 3"
definition MT_NUM_REAL32 :: UWORD where [tvm_consts]: "MT_NUM_REAL32 = 5"
definition MT_NUM_REAL64 :: UWORD where [tvm_consts]: "MT_NUM_REAL64 = 6"

definition mt_num_type :: "UWORD \<Rightarrow> UWORD" where
  "mt_num_type flags =
     (if flags AND 0x7 < 0x7 then flags AND 0x7 else drop_bit 3 flags AND 0xff)"

definition mt_num_size_shift :: "UWORD \<Rightarrow> UWORD" where
  "mt_num_size_shift type = drop_bit 2 type + (type AND 0x3)"

definition MT_NUM_TYPE :: "UWORD \<Rightarrow> UWORD" where "MT_NUM_TYPE x = mt_num_type (MT_FLAGS x)"

definition MT_MAKE_NUM :: "UWORD \<Rightarrow> UWORD" where
  "MT_MAKE_NUM i = MT_SIMPLE OR MT_MAKE_TYPE MT_NUM OR push_bit MT_FLAGS_SHIFT i"

text \<open>Arrays.\<close>

definition MT_ARRAY_DIM :: "UWORD \<Rightarrow> UWORD" where "MT_ARRAY_DIM x = 1 + (MT_FLAGS x AND 0x7)"
definition MT_ARRAY_INNER_TYPE :: "UWORD \<Rightarrow> UWORD" where
  "MT_ARRAY_INNER_TYPE x = drop_bit (MT_FLAGS_SHIFT + 3) x"
definition MT_MAKE_ARRAY_TYPE :: "UWORD \<Rightarrow> UWORD \<Rightarrow> UWORD" where
  "MT_MAKE_ARRAY_TYPE d i =
     MT_SIMPLE OR MT_MAKE_TYPE MT_ARRAY OR push_bit MT_FLAGS_SHIFT (d - 1) OR push_bit (MT_FLAGS_SHIFT + 3) i"
definition MT_ARRAY_PTR_OFFSET :: UWORD where [tvm_consts]: "MT_ARRAY_PTR_OFFSET = 2"

definition MT_ARRAY_OPTS_DMA :: UWORD where [tvm_consts]: "MT_ARRAY_OPTS_DMA = 0x1"
definition MT_ARRAY_OPTS_SEPARATED :: UWORD where [tvm_consts]: "MT_ARRAY_OPTS_SEPARATED = 0x2"
definition MT_ARRAY_OPTS_ALIGN :: "UWORD \<Rightarrow> UWORD" where
  "MT_ARRAY_OPTS_ALIGN x = drop_bit (MT_FLAGS_SHIFT + 3) x AND 0xf"
definition MT_ARRAY_OPTS_INNER :: "UWORD \<Rightarrow> UWORD" where
  "MT_ARRAY_OPTS_INNER x = drop_bit (MT_FLAGS_SHIFT + 7) x"
definition MT_MAKE_ARRAY_OPTS :: "UWORD \<Rightarrow> UWORD \<Rightarrow> UWORD \<Rightarrow> UWORD" where
  "MT_MAKE_ARRAY_OPTS f a i =
     MT_SIMPLE OR MT_MAKE_TYPE MT_ARRAY_OPTS OR push_bit MT_FLAGS_SHIFT f OR
     push_bit (MT_FLAGS_SHIFT + 3) (a AND 0xf) OR push_bit (MT_FLAGS_SHIFT + 7) i"

text \<open>Channel bundles.\<close>

definition MT_CB_SHARED_BIT :: nat where [tvm_consts]: "MT_CB_SHARED_BIT = 0"
definition MT_CB_SHARED :: UWORD where [tvm_consts]: "MT_CB_SHARED = push_bit 5 (push_bit 0 1)"
definition MT_CB_EXTERNAL_BIT :: nat where [tvm_consts]: "MT_CB_EXTERNAL_BIT = 2"
definition MT_CB_EXTERNAL :: UWORD where [tvm_consts]: "MT_CB_EXTERNAL = push_bit 5 (push_bit 2 1)"
definition MT_CB_CHANNELS_SHIFT :: nat where [tvm_consts]: "MT_CB_CHANNELS_SHIFT = 8"
definition MT_CB_CHANNELS :: "UWORD \<Rightarrow> UWORD" where
  "MT_CB_CHANNELS x = drop_bit MT_CB_CHANNELS_SHIFT x AND 0xFF"
definition MT_CB_PTR_OFFSET :: UWORD where [tvm_consts]: "MT_CB_PTR_OFFSET = 2"
definition MT_CB_CLIENT :: UWORD where [tvm_consts]: "MT_CB_CLIENT = 0x0"
definition MT_CB_SERVER :: UWORD where [tvm_consts]: "MT_CB_SERVER = 0x1"

text \<open>Barriers and untyped data.\<close>

definition MT_BARRIER_TYPE :: "UWORD \<Rightarrow> UWORD" where "MT_BARRIER_TYPE x = MT_FLAGS x"
definition MT_MAKE_BARRIER :: "UWORD \<Rightarrow> UWORD" where
  "MT_MAKE_BARRIER t = MT_SIMPLE OR MT_MAKE_TYPE MT_BARRIER OR push_bit MT_FLAGS_SHIFT t"
definition MT_BARRIER_FULL :: UWORD where [tvm_consts]: "MT_BARRIER_FULL = 0"
definition MT_BARRIER_FORKING :: UWORD where [tvm_consts]: "MT_BARRIER_FORKING = 1"
definition MT_BARRIER_PTR_OFFSET :: UWORD where [tvm_consts]: "MT_BARRIER_PTR_OFFSET = 2"
definition MT_DATA_PTR_OFFSET :: UWORD where [tvm_consts]: "MT_DATA_PTR_OFFSET = 2"

definition MT_BIND_VIRTUAL :: UWORD where [tvm_consts]: "MT_BIND_VIRTUAL = 1"
definition MT_BIND_PHYSICAL :: UWORD where [tvm_consts]: "MT_BIND_PHYSICAL = 2"
definition MT_BIND_DMA :: UWORD where [tvm_consts]: "MT_BIND_DMA = 3"
definition MT_RESIZE_DATA :: UWORD where [tvm_consts]: "MT_RESIZE_DATA = 1"

text \<open>The element type of an array behind an optional \<open>MT_ARRAY_OPTS\<close> word.\<close>

definition strip_opts :: "UWORD \<Rightarrow> UWORD" where
  "strip_opts t = (if MT_TYPE t = MT_ARRAY_OPTS then MT_ARRAY_OPTS_INNER t else t)"

end
