(* ===== verification/TVM_Memory.thy ===== *)
theory TVM_Memory
  imports TVM_Prelude
begin

text \<open>
  The memory interface (tvm_mem_intf.h, tvm_mem.h, mem.c, mem_bigendian.c).
  Memory is a total map from 32-bit addresses to bytes: the native interface of the C code
  dereferences host pointers of a 32-bit little-endian host without any check. The word
  operations of the native and the big-endian interface are two providers of one locale,
  \<open>word_store\<close>, in which the facts the clients need are proved once.
\<close>

type_synonym memory = "WORD \<Rightarrow> BYTE"

section \<open>Native memory interface (tvm_mem_intf.h)\<close>

definition read_byte :: "memory \<Rightarrow> BYTEPTR \<Rightarrow> BYTE" where
  "read_byte m p = m p"

definition write_byte :: "memory \<Rightarrow> BYTEPTR \<Rightarrow> BYTE \<Rightarrow> memory" where
  "write_byte m p v = m(p := v)"

definition read_word :: "memory \<Rightarrow> WORDPTR \<Rightarrow> WORD" where
  "read_word m p =
     ucast (m p) OR push_bit 8 (ucast (m (p + 1))) OR
     push_bit 16 (ucast (m (p + 2))) OR push_bit 24 (ucast (m (p + 3)))"

definition write_word :: "memory \<Rightarrow> WORDPTR \<Rightarrow> WORD \<Rightarrow> memory" where
  "write_word m p v =
     m(p := ucast v, p + 1 := ucast (drop_bit 8 v),
       p + 2 := ucast (drop_bit 16 v), p + 3 := ucast (drop_bit 24 v))"

definition read_int16 :: "memory \<Rightarrow> INT16PTR \<Rightarrow> INT16" where
  "read_int16 m p = ucast (m p) OR push_bit 8 (ucast (m (p + 1)))"

definition write_int16 :: "memory \<Rightarrow> INT16PTR \<Rightarrow> INT16 \<Rightarrow> memory" where
  "write_int16 m p v = m(p := ucast v, p + 1 := ucast (drop_bit 8 v))"

text \<open>Pointer arithmetic is scaled by the size of the pointed-to type, and wraps.\<close>

definition wordptr_plus :: "WORDPTR \<Rightarrow> WORD \<Rightarrow> WORDPTR" where
  [tvm_defs]: "wordptr_plus p n = p + n * 4"

definition wordptr_minus :: "WORDPTR \<Rightarrow> WORD \<Rightarrow> WORDPTR" where
  [tvm_defs]: "wordptr_minus p n = p - n * 4"

definition int16ptr_plus :: "INT16PTR \<Rightarrow> WORD \<Rightarrow> INT16PTR" where
  [tvm_defs]: "int16ptr_plus p n = p + n * 2"

definition byteptr_plus :: "BYTEPTR \<Rightarrow> WORD \<Rightarrow> BYTEPTR" where
  [tvm_defs]: "byteptr_plus p n = p + n"

definition byteptr_minus :: "BYTEPTR \<Rightarrow> WORD \<Rightarrow> BYTEPTR" where
  [tvm_defs]: "byteptr_minus p n = p - n"

section \<open>Byte swapping (tvm_mem.h) and the big-endian interface (mem_bigendian.c)\<close>

definition SwapTwoBytes :: "WORD \<Rightarrow> WORD" where
  "SwapTwoBytes d = (drop_bit 8 d AND 0x00FF) OR (push_bit 8 d AND 0xFF00)"

definition SwapFourBytes :: "WORD \<Rightarrow> WORD" where
  "SwapFourBytes d =
     (drop_bit 24 d AND 0x000000FF) OR (drop_bit 8 d AND 0x0000FF00) OR
     (push_bit 8 d AND 0x00FF0000) OR (push_bit 24 d AND 0xFF000000)"

definition be_write_word :: "memory \<Rightarrow> WORDPTR \<Rightarrow> WORD \<Rightarrow> memory" where
  "be_write_word m p v = write_word m p (SwapFourBytes v)"

definition be_read_word :: "memory \<Rightarrow> WORDPTR \<Rightarrow> WORD" where
  "be_read_word m p = SwapFourBytes (read_word m p)"

section \<open>The contract of a word memory\<close>

text \<open>
  What every client of tvm_mem_intf.h relies on: a word read back from where it was written
  is the word written, and a write to another (aligned) word does not show.
\<close>

locale word_store =
  fixes rd :: "memory \<Rightarrow> WORDPTR \<Rightarrow> WORD"
    and wr :: "memory \<Rightarrow> WORDPTR \<Rightarrow> WORD \<Rightarrow> memory"
  assumes rd_wr_same: "rd (wr m p v) p = v"
    and rd_wr_other: "aligned p \<Longrightarrow> aligned q \<Longrightarrow> p \<noteq> q \<Longrightarrow> rd (wr m p v) q = rd m q"
begin

lemma rd_wr: "aligned p \<Longrightarrow> aligned q \<Longrightarrow> rd (wr m p v) q = (if q = p then v else rd m q)"
  using rd_wr_same rd_wr_other by auto

lemma slots_apart:
  assumes "j < 0x40000000" "k < 0x40000000"
  shows "(w - j * 4 = w - k * 4) \<longleftrightarrow> j = (k :: WORD)"
proof
  assume "w - j * 4 = w - k * 4"
  then have "j * 4 = k * 4" by simp
  then have eq: "uint (j * 4) = uint (k * 4)" by simp
  have bound: "uint (i * 4) = uint i * 4" if "i < 0x40000000" for i :: WORD
    using that by (simp add: word_less_alt uint_word_ariths)
  show "j = k" using eq bound[OF assms(1)] bound[OF assms(2)] by (simp add: word_uint_eq_iff)
qed simp

text \<open>Two slots below one workspace pointer.\<close>

lemma rd_wr_slots:
  assumes "aligned w" "j < 0x40000000" "k < 0x40000000"
  shows "rd (wr m (w - k * 4) v) (w - j * 4) = (if j = k then v else rd m (w - j * 4))"
  using assms by (simp add: rd_wr slots_apart align_simps)

lemma swap_words:
  assumes "aligned a" "aligned b"
  shows "rd (wr (wr m b (rd m a)) a (rd m b)) a = rd m b"
    and "rd (wr (wr m b (rd m a)) a (rd m b)) b = rd m a"
    and "aligned q \<Longrightarrow> q \<noteq> a \<Longrightarrow> q \<noteq> b \<Longrightarrow> rd (wr (wr m b (rd m a)) a (rd m b)) q = rd m q"
  using assms by (auto simp: rd_wr)

end

lemma read_word_write_word_same: "read_word (write_word m p v) p = v"
proof -
  have "read_word (write_word m p v) p =
     ucast (ucast v :: BYTE) OR push_bit 8 (ucast (ucast (drop_bit 8 v) :: BYTE)) OR
     push_bit 16 (ucast (ucast (drop_bit 16 v) :: BYTE)) OR
     push_bit 24 (ucast (ucast (drop_bit 24 v) :: BYTE))" (is "_ = ?cat")
    by (simp add: read_word_def write_word_def)
  also have "?cat = v"
  proof (rule bit_word_eqI)
    fix n assume "n < LENGTH(32)"
    then consider "n < 8" | "8 \<le> n" "n < 16" | "16 \<le> n" "n < 24" | "24 \<le> n" "n < 32"
      by fastforce
    then show "bit ?cat n = bit v n" by cases (auto simp: bit_simps)
  qed
  finally show ?thesis .
qed

lemma read_word_write_word_other:
  assumes "aligned p" "aligned q" "p \<noteq> q"
  shows "read_word (write_word m p v) q = read_word m q"
proof -
  note n = aligned_off_neq[OF assms(2,1) assms(3)[symmetric]]
  have "q \<noteq> p" "q \<noteq> p + 1" "q \<noteq> p + 2" "q \<noteq> p + 3"
       "q + 1 \<noteq> p" "q + 1 \<noteq> p + 1" "q + 1 \<noteq> p + 2" "q + 1 \<noteq> p + 3"
       "q + 2 \<noteq> p" "q + 2 \<noteq> p + 1" "q + 2 \<noteq> p + 2" "q + 2 \<noteq> p + 3"
       "q + 3 \<noteq> p" "q + 3 \<noteq> p + 1" "q + 3 \<noteq> p + 2" "q + 3 \<noteq> p + 3"
    using n[of 0 0] n[of 0 1] n[of 0 2] n[of 0 3] n[of 1 0] n[of 1 1] n[of 1 2] n[of 1 3]
      n[of 2 0] n[of 2 1] n[of 2 2] n[of 2 3] n[of 3 0] n[of 3 1] n[of 3 2] n[of 3 3]
    by simp_all
  then show ?thesis unfolding read_word_def write_word_def fun_upd_apply by presburger
qed

interpretation native: word_store read_word write_word
  by unfold_locales (simp_all add: read_word_write_word_same read_word_write_word_other)

lemma SwapFourBytes_bit:
  assumes "n < 32"
  shows "bit (SwapFourBytes d) n \<longleftrightarrow>
     (if n < 8 then bit d (n + 24) else if n < 16 then bit d (n + 8)
      else if n < 24 then bit d (n - 8) else bit d (n - 24))"
proof -
  have masks: "(0x000000FF :: WORD) = mask 8" "(0x0000FF00 :: WORD) = push_bit 8 (mask 8)"
     "(0x00FF0000 :: WORD) = push_bit 16 (mask 8)" "(0xFF000000 :: WORD) = push_bit 24 (mask 8)"
    by (simp_all add: mask_eq_exp_minus_1)
  consider "n < 8" | "8 \<le> n" "n < 16" | "16 \<le> n" "n < 24" | "24 \<le> n" "n < 32"
    using assms by fastforce
  then show ?thesis
    unfolding SwapFourBytes_def masks by cases (auto simp: bit_simps add.commute)
qed

lemma SwapFourBytes_involutive: "SwapFourBytes (SwapFourBytes d) = d"
proof (rule bit_word_eqI)
  fix n assume "n < LENGTH(32)"
  then consider "n < 8" | "8 \<le> n" "n < 16" | "16 \<le> n" "n < 24" | "24 \<le> n" "n < 32"
    by fastforce
  then show "bit (SwapFourBytes (SwapFourBytes d)) n = bit d n"
    by cases (auto simp: SwapFourBytes_bit)
qed

interpretation bigendian: word_store be_read_word be_write_word
  by unfold_locales
    (simp_all add: be_read_word_def be_write_word_def SwapFourBytes_involutive
      read_word_write_word_same read_word_write_word_other)

text \<open>The first byte in memory is the most significant one under the big-endian interface.\<close>

lemma be_write_word_first_byte: "be_write_word m p v p = ucast (drop_bit 24 v)"
proof -
  have "be_write_word m p v p = ucast (SwapFourBytes v)"
    by (simp add: be_write_word_def write_word_def)
  also have "(ucast (SwapFourBytes v) :: BYTE) = ucast (drop_bit 24 v)"
    by (rule bit_word_eqI) (simp add: bit_ucast_iff bit_drop_bit_eq SwapFourBytes_bit add.commute)
  finally show ?thesis .
qed

section \<open>Block copy and fill (mem.c)\<close>

text \<open>
  The loops \<open>while (n--)\<close> run \<open>n\<close> times; the word loop leaves the pointer it returns
  untouched, the byte loop advances it, as the C does.
\<close>

fun copy_words :: "nat \<Rightarrow> WORDPTR \<Rightarrow> WORDPTR \<Rightarrow> memory \<Rightarrow> memory" where
  "copy_words 0 dst_w src_w m = m"
| "copy_words (Suc n) dst_w src_w m =
     copy_words n (wordptr_plus dst_w 1) (wordptr_plus src_w 1)
       (write_word m dst_w (read_word m src_w))"

fun copy_bytes :: "nat \<Rightarrow> BYTEPTR \<Rightarrow> BYTEPTR \<Rightarrow> memory \<Rightarrow> BYTEPTR \<times> memory" where
  "copy_bytes 0 dst src m = (dst, m)"
| "copy_bytes (Suc n) dst src m =
     copy_bytes n (byteptr_plus dst 1) (byteptr_plus src 1) (write_byte m dst (read_byte m src))"

definition tvm_memcpy :: "BYTEPTR \<Rightarrow> BYTEPTR \<Rightarrow> UWORD \<Rightarrow> memory \<Rightarrow> BYTEPTR \<times> memory" where
  "tvm_memcpy dst src n m =
     (if (n OR dst OR src) AND 3 = 0
      then (dst, copy_words (unat (drop_bit 2 n)) dst src m)
      else copy_bytes (unat n) dst src m)"

fun set_words :: "nat \<Rightarrow> WORDPTR \<Rightarrow> WORD \<Rightarrow> memory \<Rightarrow> memory" where
  "set_words 0 s_w c m = m"
| "set_words (Suc n) s_w c m = set_words n (wordptr_plus s_w 1) c (write_word m s_w c)"

fun set_bytes :: "nat \<Rightarrow> BYTEPTR \<Rightarrow> BYTE \<Rightarrow> memory \<Rightarrow> BYTEPTR \<times> memory" where
  "set_bytes 0 s c m = (s, m)"
| "set_bytes (Suc n) s c m = set_bytes n (byteptr_plus s 1) c (write_byte m s c)"

definition tvm_memset :: "BYTEPTR \<Rightarrow> WORD \<Rightarrow> UWORD \<Rightarrow> memory \<Rightarrow> BYTEPTR \<times> memory" where
  "tvm_memset s c n m =
     (if (n OR s) AND 3 = 0 \<and> drop_bit 4 n \<noteq> 0
      then let c = c AND 0xFF;
               c = c OR (push_bit 8 c AND 0xFF00);
               c = c OR (push_bit 16 c AND 0xFFFF0000)
           in (s, set_words (unat (drop_bit 2 n)) s c m)
      else set_bytes (unat n) s (ucast c) m)"

definition swap_data_word :: "WORDPTR \<Rightarrow> WORDPTR \<Rightarrow> memory \<Rightarrow> memory" where
  "swap_data_word a_ptr b_ptr m =
     (let a_data = read_word m a_ptr; b_data = read_word m b_ptr
      in write_word (write_word m b_ptr a_data) a_ptr b_data)"

subsection \<open>The bytes of a word\<close>

lemma read_word_byte:
  "ucast (read_word m p) = m p" "ucast (drop_bit 8 (read_word m p)) = m (p + 1)"
  "ucast (drop_bit 16 (read_word m p)) = m (p + 2)" "ucast (drop_bit 24 (read_word m p)) = m (p + 3)"
proof -
  have high: "\<not> bit b (8 + n)" "\<not> bit b (16 + n)" "\<not> bit b (24 + n)" for b :: BYTE and n
    by (auto dest: bit_imp_le_length)
  show "ucast (read_word m p) = m p" "ucast (drop_bit 8 (read_word m p)) = m (p + 1)"
    "ucast (drop_bit 16 (read_word m p)) = m (p + 2)" "ucast (drop_bit 24 (read_word m p)) = m (p + 3)"
    by (auto intro!: bit_word_eqI simp: read_word_def bit_simps high)
qed

lemma write_word_read_word_same: "write_word m p (read_word m p) = m"
  by (simp add: write_word_def read_word_byte)

lemma copy_bytes_add:
  "copy_bytes (a + b) d s m =
     (let (d', m') = copy_bytes a d s m in copy_bytes b d' (s + of_nat a) m')"
  by (induction a arbitrary: d s m) (simp_all add: byteptr_plus_def add.assoc)

subsection \<open>What the byte loop does to memory\<close>

lemma of_nat_Suc_neq_0: "Suc k < 2 ^ 32 \<Longrightarrow> (1 :: WORD) + of_nat k \<noteq> 0"
  using word_of_nat_eq_0_iff[where 'a = 32, of "Suc k"] by (auto dest!: dvd_imp_le)

lemma copy_bytes_outside:
  "(\<And>i. i < n \<Longrightarrow> q \<noteq> d + of_nat i) \<Longrightarrow> snd (copy_bytes n d s m) q = m q"
proof (induction n arbitrary: d s m)
  case (Suc n)
  have "q \<noteq> d + 1 + of_nat i" if "i < n" for i
    using Suc.prems[of "Suc i"] that by (simp add: add.assoc)
  moreover have "q \<noteq> d" using Suc.prems[of 0] by simp
  ultimately show ?case using Suc.IH by (simp add: byteptr_plus_def write_byte_def)
qed simp

lemma copy_bytes_inside:
  assumes "n < 2 ^ 32" "\<And>i j. i < j \<Longrightarrow> j < n \<Longrightarrow> d + of_nat i \<noteq> s + of_nat j" "k < n"
  shows "snd (copy_bytes n d s m) (d + of_nat k) = m (s + of_nat k)"
  using assms
proof (induction n arbitrary: d s m k)
  case (Suc n)
  let ?m = "write_byte m d (read_byte m s)"
  have shift: "d + 1 + of_nat i \<noteq> s + 1 + of_nat j" if "i < j" "j < n" for i j
    using Suc.prems(2)[of "Suc i" "Suc j"] that by (simp add: add.assoc)
  show ?case
  proof (cases k)
    case 0
    have "d \<noteq> d + 1 + of_nat i" if "i < n" for i
      using of_nat_Suc_neq_0[of i] that Suc.prems(1) by (simp add: add.assoc)
    then have "snd (copy_bytes n (d + 1) (s + 1) ?m) d = ?m d"
      by (intro copy_bytes_outside) auto
    then show ?thesis using 0 by (simp add: byteptr_plus_def write_byte_def read_byte_def)
  next
    case (Suc j)
    then have j: "j < n" using Suc.prems(3) by simp
    have "snd (copy_bytes n (d + 1) (s + 1) ?m) (d + 1 + of_nat j) = ?m (s + 1 + of_nat j)"
      using Suc.IH[of "d + 1" "s + 1" j ?m] shift j Suc.prems(1) by simp
    moreover have "s + 1 + of_nat j \<noteq> d"
      using Suc.prems(2)[of 0 "Suc j"] j by (auto simp: add.assoc)
    ultimately show ?thesis using Suc by (simp add: byteptr_plus_def write_byte_def add.assoc)
  qed
qed simp

lemma copy_bytes_fst: "fst (copy_bytes n d s m) = d + of_nat n"
  by (induction n arbitrary: d s m) (simp_all add: byteptr_plus_def add.assoc)

subsection \<open>The word loop computes what the byte loop computes\<close>

lemma aligned_no_forward_overlap:
  assumes "aligned d" "aligned s" "i < j" "j < 4"
  shows "d + of_nat i \<noteq> s + (of_nat j :: WORD)"
proof -
  have u: "unat (of_nat k :: WORD) = k" if "k < 4" for k
    using that by (simp add: unat_of_nat)
  have "of_nat i \<noteq> (of_nat j :: WORD)" using u[of i] u[of j] assms(3,4) by auto
  moreover have "of_nat i < (4 :: WORD)" "of_nat j < (4 :: WORD)"
    using u[of i] u[of j] assms(3,4) by (simp_all add: word_less_nat_alt)
  ultimately show ?thesis using aligned_eqI[OF assms(1,2)] by metis
qed

lemma copy_bytes_4:
  assumes "aligned d" "aligned s"
  shows "copy_bytes 4 d s m = (d + 4, write_word m d (read_word m s))"
proof (rule prod_eqI)
  show "fst (copy_bytes 4 d s m) = fst (d + 4, write_word m d (read_word m s))"
    by (simp add: copy_bytes_fst)
  have at: "snd (copy_bytes 4 d s m) (d + of_nat k) = m (s + of_nat k)" if "k < 4" for k
    using aligned_no_forward_overlap[OF assms] that by (intro copy_bytes_inside) auto
  have at4: "snd (copy_bytes 4 d s m) d = m s" "snd (copy_bytes 4 d s m) (d + 1) = m (s + 1)"
    "snd (copy_bytes 4 d s m) (d + 2) = m (s + 2)" "snd (copy_bytes 4 d s m) (d + 3) = m (s + 3)"
    using at[of 0] at[of 1] at[of 2] at[of 3] by simp_all
  have off: "snd (copy_bytes 4 d s m) q = m q" if "q \<noteq> d" "q \<noteq> d + 1" "q \<noteq> d + 2" "q \<noteq> d + 3" for q
    using that by (intro copy_bytes_outside) (auto simp: numeral_eq_Suc less_Suc_eq)
  show "snd (copy_bytes 4 d s m) = snd (d + 4, write_word m d (read_word m s))"
    by (rule ext) (use at4 off in \<open>auto simp: write_word_def read_word_byte\<close>)
qed

lemma copy_words_bytes:
  "aligned d \<Longrightarrow> aligned s \<Longrightarrow> copy_words n d s m = snd (copy_bytes (4 * n) d s m)"
proof (induction n arbitrary: d s m)
  case (Suc n)
  have "copy_bytes (4 * Suc n) d s m =
      (let (d', m') = copy_bytes 4 d s m in copy_bytes (4 * n) d' (s + 4) m')"
    using copy_bytes_add[of 4 "4 * n" d s m] by simp
  then show ?case
    using Suc by (simp add: copy_bytes_4 wordptr_plus_def align_simps)
qed simp

section \<open>Properties\<close>

lemma or_and_3: "((n OR d OR s) AND 3 = (0 :: WORD)) \<longleftrightarrow> aligned n \<and> aligned d \<and> aligned s"
  by (simp add: aligned_def bit.conj_disj_distrib2 or_eq_0_iff)

lemma memcpy_is_byte_copy: "snd (tvm_memcpy d s n m) = snd (copy_bytes (unat n) d s m)"
proof (cases "(n OR d OR s) AND 3 = 0")
  case True
  then have "aligned n" "aligned d" "aligned s" by (simp_all add: or_and_3)
  moreover have "unat (drop_bit 2 n) = unat n div 4"
    by (subst unat_drop_bit_eq) (simp add: drop_bit_eq_div)
  then have "4 * unat (drop_bit 2 n) = unat n" using \<open>aligned n\<close> by (simp add: aligned_unat)
  ultimately show ?thesis using True copy_words_bytes[of d s "unat (drop_bit 2 n)" m]
    by (simp add: tvm_memcpy_def)
qed (simp add: tvm_memcpy_def)

text \<open>
  \<open>memcpy\<close> copies \<open>n\<close> bytes and changes no other byte, whether it runs its word loop or its byte
  loop, for regions that do not overlap forwards.
\<close>

theorem memcpy_copies:
  assumes "\<And>i j. i < j \<Longrightarrow> j < unat n \<Longrightarrow> d + of_nat i \<noteq> s + of_nat j"
  shows "(\<forall>k < unat n. snd (tvm_memcpy d s n m) (d + of_nat k) = m (s + of_nat k)) \<and>
     (\<forall>q. (\<forall>i < unat n. q \<noteq> d + of_nat i) \<longrightarrow> snd (tvm_memcpy d s n m) q = m q)"
proof -
  have "unat n < 2 ^ 32" using unat_bound[of n] by simp
  then show ?thesis
    unfolding memcpy_is_byte_copy using copy_bytes_inside[OF _ assms] copy_bytes_outside by blast
qed

theorem memcpy_copies_witness:
  "snd (tvm_memcpy 0x100 0x243 8 ucast) 0x105 = 0x48 \<and> snd (tvm_memcpy 0x100 0x243 8 ucast) 0x108 = 0x08"
proof -
  have "(\<forall>k < unat (8 :: WORD). snd (tvm_memcpy 0x100 0x243 8 ucast) (0x100 + of_nat k) = ucast (0x243 + of_nat k :: WORD)) \<and>
   (\<forall>q. (\<forall>i < unat (8 :: WORD). q \<noteq> 0x100 + of_nat i) \<longrightarrow> snd (tvm_memcpy 0x100 0x243 8 ucast) q = ucast q)"
  proof (rule memcpy_copies)
    fix i j :: nat assume "i < j" "j < unat (8 :: WORD)"
    then have "i \<in> {0, 1, 2, 3, 4, 5, 6}" "j \<in> {1, 2, 3, 4, 5, 6, 7}" by auto
    then show "(0x100 :: WORD) + of_nat i \<noteq> 0x243 + of_nat j" by auto
  qed
  note in_out = conjunct1[OF this, rule_format, of 5] conjunct2[OF this, rule_format, of "0x108"]
  have "(0x108 :: WORD) \<noteq> 0x100 + of_nat i" if "i < unat (8 :: WORD)" for i
  proof -
    have "i \<in> {0, 1, 2, 3, 4, 5, 6, 7}" using that by auto
    then show ?thesis by auto
  qed
  then show ?thesis using in_out by simp
qed

subsection \<open>Fill\<close>

definition splat :: "BYTE \<Rightarrow> WORD" where
  "splat b = ucast b OR push_bit 8 (ucast b) OR push_bit 16 (ucast b) OR push_bit 24 (ucast b)"

lemma splat_mask:
  "(let c = c AND 0xFF; c = c OR (push_bit 8 c AND 0xFF00); c = c OR (push_bit 16 c AND 0xFFFF0000) in c) =
   splat (ucast (c :: WORD))"
proof -
  have masks: "(0xFF :: WORD) = mask 8" "(0xFF00 :: WORD) = push_bit 8 (mask 8)"
     "(0xFFFF0000 :: WORD) = push_bit 16 (mask 16)"
    by (simp_all add: mask_eq_exp_minus_1)
  show ?thesis unfolding masks Let_def
  proof (rule bit_word_eqI)
    fix n assume "n < LENGTH(32)"
    then consider "n < 8" | "8 \<le> n" "n < 16" | "16 \<le> n" "n < 24" | "24 \<le> n" "n < 32" by fastforce
    then show "bit ((c AND mask 8 OR push_bit 8 (c AND mask 8) AND push_bit 8 (mask 8)) OR
        push_bit 16 (c AND mask 8 OR push_bit 8 (c AND mask 8) AND push_bit 8 (mask 8)) AND push_bit 16 (mask 16)) n =
        bit (splat (ucast c)) n"
      by cases (auto simp: splat_def bit_simps)
  qed
qed

lemma splat_bytes:
  "ucast (splat b) = b" "ucast (drop_bit 8 (splat b)) = b"
  "ucast (drop_bit 16 (splat b)) = b" "ucast (drop_bit 24 (splat b)) = b"
  using read_word_byte[of "\<lambda>a. b" 0] by (simp_all add: read_word_def splat_def)

lemma set_bytes_4: "set_bytes 4 s b m = (s + 4, write_word m s (splat b))"
proof -
  have "4 = Suc (Suc (Suc (Suc 0)))" by simp
  then have "set_bytes 4 s b m = set_bytes (Suc (Suc (Suc (Suc 0)))) s b m" by (rule arg_cong)
  also have "\<dots> = (s + 4, write_word m s (splat b))"
    by (simp add: byteptr_plus_def write_byte_def write_word_def splat_bytes add.assoc)
  finally show ?thesis .
qed

lemma set_bytes_add:
  "set_bytes (a + n) s b m = (let (s', m') = set_bytes a s b m in set_bytes n s' b m')"
  by (induction a arbitrary: s m) simp_all

lemma set_words_bytes: "set_words n s (splat b) m = snd (set_bytes (4 * n) s b m)"
proof (induction n arbitrary: s m)
  case (Suc n)
  have "set_bytes (4 * Suc n) s b m = (let (s', m') = set_bytes 4 s b m in set_bytes (4 * n) s' b m')"
    using set_bytes_add[of 4 "4 * n" s b m] by simp
  then show ?case using Suc by (simp add: set_bytes_4 wordptr_plus_def)
qed simp

lemma set_bytes_effect:
  "n < 2 ^ 32 \<Longrightarrow> snd (set_bytes n s b m) q = (if \<exists>k < n. q = s + of_nat k then b else m q)"
proof (induction n arbitrary: s m)
  case (Suc n)
  have "(\<exists>k < Suc n. q = s + of_nat k) \<longleftrightarrow> q = s \<or> (\<exists>k < n. q = s + 1 + of_nat k)"
    by (auto simp: less_Suc_eq_0_disj add.assoc)
  then show ?case using Suc by (auto simp: byteptr_plus_def write_byte_def)
qed simp

text \<open>
  \<open>memset\<close> sets \<open>n\<close> bytes to the low byte of its argument and changes no other byte, whether it
  runs its word loop or its byte loop.
\<close>

theorem memset_fills:
  "snd (tvm_memset s c n m) q = (if \<exists>k < unat n. q = s + of_nat k then ucast c else m q)"
proof (cases "(n OR s) AND 3 = 0 \<and> drop_bit 4 n \<noteq> 0")
  case True
  then have "aligned n" using or_and_3[of n s 0] by (simp add: aligned_def)
  moreover have "unat (drop_bit 2 n) = unat n div 4"
    by (subst unat_drop_bit_eq) (simp add: drop_bit_eq_div)
  ultimately have "4 * unat (drop_bit 2 n) = unat n" by (simp add: aligned_unat)
  moreover have "snd (tvm_memset s c n m) = set_words (unat (drop_bit 2 n)) s (splat (ucast c)) m"
    using True splat_mask[of c] by (simp add: tvm_memset_def Let_def)
  ultimately show ?thesis using set_bytes_effect[of "unat n" s "ucast c" m q] unat_bound[of n]
    by (simp add: set_words_bytes)
next
  case False
  then show ?thesis using set_bytes_effect[of "unat n" s "ucast c" m q] unat_bound[of n]
    by (auto simp: tvm_memset_def)
qed

end
