(* ===== verification/TVM_Machine.thy ===== *)
theory TVM_Machine
  imports TVM_Memory
begin

text \<open>
  The machine state (transputer.h, tvm.h) and the macros instructions are written with
  (instructions.h). An execution context is the record \<open>ectx\<close>; the record \<open>mach\<close> extends it
  with what all contexts share: memory, the other contexts by their address, the clock and
  the C heap. A function of the C code that takes \<open>ECTX ectx\<close> is a function of \<open>mach\<close>,
  whose own \<open>ectx\<close> fields are those of the context it runs for.
\<close>

section \<open>Constants (transputer.h)\<close>

definition MIN_INT :: WORD where [tvm_consts]: "MIN_INT = 0x80000000"
definition MAX_INT :: WORD where [tvm_consts]: "MAX_INT = MIN_INT - 1"
definition WORD_BITS :: nat where [tvm_consts]: "WORD_BITS = 32"
definition TWOWORD_BITS :: nat where [tvm_consts]: "TWOWORD_BITS = 64"
definition WSH :: nat where [tvm_consts]: "WSH = 2"
definition LONG_LO_MASK :: UTWOWORD where [tvm_consts]: "LONG_LO_MASK = 0x00000000FFFFFFFF"

definition WS_TEMP :: WORD where [tvm_consts]: "WS_TEMP = 0"
definition WS_IPTR :: WORD where [tvm_consts]: "WS_IPTR = 1"
definition WS_LINK :: WORD where [tvm_consts]: "WS_LINK = 2"
definition WS_PENDING :: WORD where [tvm_consts]: "WS_PENDING = 2"
definition WS_ECTX :: WORD where [tvm_consts]: "WS_ECTX = 3"
definition WS_POINTER :: WORD where [tvm_consts]: "WS_POINTER = 4"
definition WS_STATE :: WORD where [tvm_consts]: "WS_STATE = 4"
definition WS_TLINK :: WORD where [tvm_consts]: "WS_TLINK = 5"
definition WS_TIME :: WORD where [tvm_consts]: "WS_TIME = 6"

definition NOT_PROCESS_P :: WORD where [tvm_consts]: "NOT_PROCESS_P = 0"
definition NULL_P :: WORD where [tvm_consts]: "NULL_P = NOT_PROCESS_P"
definition ENABLING_P :: WORD where [tvm_consts]: "ENABLING_P = MIN_INT + 1"
definition WAITING_P :: WORD where [tvm_consts]: "WAITING_P = MIN_INT + 2"
definition DISABLING_P :: WORD where [tvm_consts]: "DISABLING_P = MIN_INT + 3"
definition READY_P :: WORD where [tvm_consts]: "READY_P = MIN_INT + 3"
definition TIME_SET_P :: WORD where [tvm_consts]: "TIME_SET_P = MIN_INT + 1"
definition TIME_NOT_SET_P :: WORD where [tvm_consts]: "TIME_NOT_SET_P = MIN_INT + 2"
definition NONE_SELECTED_O :: WORD where [tvm_consts]: "NONE_SELECTED_O = -1"

definition EFLAG_SETERR :: WORD where [tvm_consts]: "EFLAG_SETERR = push_bit 0 1"
definition EFLAG_INTERR :: WORD where [tvm_consts]: "EFLAG_INTERR = push_bit 1 1"
definition EFLAG_INTOV :: WORD where [tvm_consts]: "EFLAG_INTOV = push_bit 2 1"
definition EFLAG_FP :: WORD where [tvm_consts]: "EFLAG_FP = push_bit 3 1"
definition EFLAG_ALT :: WORD where [tvm_consts]: "EFLAG_ALT = push_bit 4 1"
definition EFLAG_FFI :: WORD where [tvm_consts]: "EFLAG_FFI = push_bit 5 1"
definition EFLAG_CHAN :: WORD where [tvm_consts]: "EFLAG_CHAN = push_bit 6 1"
definition EFLAG_EXTCHAN :: WORD where [tvm_consts]: "EFLAG_EXTCHAN = push_bit 7 1"
definition EFLAG_BAR :: WORD where [tvm_consts]: "EFLAG_BAR = push_bit 8 1"
definition EFLAG_DMEM :: WORD where [tvm_consts]: "EFLAG_DMEM = push_bit 9 1"
definition EFLAG_MT :: WORD where [tvm_consts]: "EFLAG_MT = push_bit 10 1"
definition EFLAG_PROC :: WORD where [tvm_consts]: "EFLAG_PROC = push_bit 11 1"

definition SFLAG_TQ :: WORD where [tvm_consts]: "SFLAG_TQ = push_bit 0 1"
definition SFLAG_INTR :: WORD where [tvm_consts]: "SFLAG_INTR = push_bit 1 1"

text \<open>
  Return codes are C ints: zero means carry on, positive codes leave the interpreter (and are
  character constants), negative ones are internal to the channel code.
\<close>

definition ECTX_CONTINUE :: int where [tvm_consts]: "ECTX_CONTINUE = 0"
definition ECTX_INIT :: int where [tvm_consts]: "ECTX_INIT = 105"
definition ECTX_INS_INVALID :: int where [tvm_consts]: "ECTX_INS_INVALID = 73"
definition ECTX_INS_UNSUPPORTED :: int where [tvm_consts]: "ECTX_INS_UNSUPPORTED = 85"
definition ECTX_INTERRUPT :: int where [tvm_consts]: "ECTX_INTERRUPT = 120"
definition ECTX_EMPTY :: int where [tvm_consts]: "ECTX_EMPTY = 101"
definition ECTX_ERROR :: int where [tvm_consts]: "ECTX_ERROR = 69"
definition ECTX_PREEMPT :: int where [tvm_consts]: "ECTX_PREEMPT = 112"
definition ECTX_RUNNING :: int where [tvm_consts]: "ECTX_RUNNING = 114"
definition ECTX_SHUTDOWN :: int where [tvm_consts]: "ECTX_SHUTDOWN = 83"
definition ECTX_SLEEP :: int where [tvm_consts]: "ECTX_SLEEP = 115"
definition ECTX_TIME_SLICE :: int where [tvm_consts]: "ECTX_TIME_SLICE = 116"
definition ECTX_DESCHEDULE' :: int where [tvm_consts]: "ECTX_DESCHEDULE' = -1"
definition ECTX_BYPASS' :: int where [tvm_consts]: "ECTX_BYPASS' = -2"
definition SFFI_BYPASS :: int where [tvm_consts]: "SFFI_BYPASS = 98"
definition SFFI_RESCHEDULE :: int where [tvm_consts]: "SFFI_RESCHEDULE = 114"

section \<open>Execution contexts and the machine (transputer.h, tvm.h)\<close>

record ectx =
  iptr :: BYTEPTR
  oreg :: WORD
  areg :: WORD
  breg :: WORD
  creg :: WORD
  creg_saved :: WORD  \<comment> \<open>the field \<open>_creg\<close>\<close>
  pri :: WORD
  wptr :: WORDPTR
  fptr :: WORDPTR
  bptr :: WORDPTR
  tptr :: WORDPTR
  tnext :: WORD
  eflags :: WORD
  state :: int
  sflags :: WORD
  tlp_fmt :: "char list"
  tlp_argc :: int
  tlp_argv :: "WORD list"

text \<open>
  \<open>self\<close> is the address of the running context (the value of the C variable \<open>ectx\<close>), \<open>peers\<close>
  the other contexts by address. \<open>clock n\<close> is the value of the \<open>n\<close>-th call of the wrapper's
  \<open>get_time\<close>, \<open>ticks\<close> the number of calls made. \<open>blocks\<close> lists the live blocks of the C heap
  with their sizes and \<open>place\<close> is the choice \<open>malloc\<close> makes from them and the requested size.
\<close>

record mach = ectx +
  mem :: memory
  self :: WORD
  peers :: "WORD \<Rightarrow> ectx option"
  clock :: "nat \<Rightarrow> WORD"
  ticks :: nat
  blocks :: "(WORDPTR \<times> UWORD) list"
  place :: "(WORDPTR \<times> UWORD) list \<Rightarrow> UWORD \<Rightarrow> WORDPTR"

text \<open>
  Outcome of a C function: its return value and the new machine, or \<open>None\<close> where C leaves
  the behaviour undefined (a dangling pointer, a division by zero) or a loop does not end.
\<close>

type_synonym 'a result = "('a \<times> mach) option"
type_synonym instruction = "mach \<Rightarrow> int result"

definition get_word :: "mach \<Rightarrow> WORDPTR \<Rightarrow> WORD" where
  [tvm_defs]: "get_word s p = read_word (mem s) p"

definition put_word :: "WORDPTR \<Rightarrow> WORD \<Rightarrow> mach \<Rightarrow> mach" where
  [tvm_defs]: "put_word p v s = s\<lparr>mem := write_word (mem s) p v\<rparr>"

definition get_byte :: "mach \<Rightarrow> BYTEPTR \<Rightarrow> BYTE" where
  [tvm_defs]: "get_byte s p = read_byte (mem s) p"

definition put_byte :: "BYTEPTR \<Rightarrow> BYTE \<Rightarrow> mach \<Rightarrow> mach" where
  [tvm_defs]: "put_byte p v s = s\<lparr>mem := write_byte (mem s) p v\<rparr>"

definition WORKSPACE_GET :: "mach \<Rightarrow> WORDPTR \<Rightarrow> WORD \<Rightarrow> WORD" where
  [tvm_defs]: "WORKSPACE_GET s w loc = get_word s (wordptr_minus w loc)"

definition WORKSPACE_SET :: "WORDPTR \<Rightarrow> WORD \<Rightarrow> WORD \<Rightarrow> mach \<Rightarrow> mach" where
  [tvm_defs]: "WORKSPACE_SET w loc v s = put_word (wordptr_minus w loc) v s"

definition memcpy :: "BYTEPTR \<Rightarrow> BYTEPTR \<Rightarrow> UWORD \<Rightarrow> mach \<Rightarrow> mach" where
  "memcpy dst src n s = s\<lparr>mem := snd (tvm_memcpy dst src n (mem s))\<rparr>"

definition get_time :: "mach \<Rightarrow> WORD \<times> mach" where
  "get_time s = (clock s (ticks s), s\<lparr>ticks := Suc (ticks s)\<rparr>)"

text \<open>Running a function with \<open>ectx\<close> set to another context, as a call \<open>dst->f (dst, ...)\<close> does.\<close>

definition as_ectx :: "WORD \<Rightarrow> ectx \<Rightarrow> mach \<Rightarrow> mach" where
  "as_ectx a e s = ectx.extend e (ectx.more (s\<lparr>self := a\<rparr>))"

definition on_ectx :: "WORD \<Rightarrow> (mach \<Rightarrow> 'a \<times> mach) \<Rightarrow> mach \<Rightarrow> 'a result" where
  "on_ectx dst f s =
     (case peers s dst of
        None \<Rightarrow> None
      | Some e \<Rightarrow>
          (let (r, t) = f (as_ectx dst e s)
           in Some (r, as_ectx (self s) (ectx.truncate s)
                (t\<lparr>peers := (peers t)(dst \<mapsto> ectx.truncate t)\<rparr>))))"

section \<open>Stack and error macros (instructions.h)\<close>

text \<open>
  The stack macros evaluate all their arguments before they assign; STACK2 and STACK1 leave
  the lower registers as they are. Without TVM_TYPE_SHADOW, UNDEFINE_STACK does nothing.
\<close>

definition STACK :: "WORD \<Rightarrow> WORD \<Rightarrow> WORD \<Rightarrow> mach \<Rightarrow> mach" where
  [tvm_defs]: "STACK a b c s = s\<lparr>areg := a, breg := b, creg := c\<rparr>"

definition STACK2 :: "WORD \<Rightarrow> WORD \<Rightarrow> mach \<Rightarrow> mach" where
  [tvm_defs]: "STACK2 a b s = s\<lparr>areg := a, breg := b\<rparr>"

definition STACK1 :: "WORD \<Rightarrow> mach \<Rightarrow> mach" where
  [tvm_defs]: "STACK1 a s = s\<lparr>areg := a\<rparr>"

definition STACK_RET :: "WORD \<Rightarrow> WORD \<Rightarrow> WORD \<Rightarrow> instruction" where
  [tvm_defs]: "STACK_RET a b c s = Some (ECTX_CONTINUE, STACK a b c s)"

definition STACK2_RET :: "WORD \<Rightarrow> WORD \<Rightarrow> instruction" where
  [tvm_defs]: "STACK2_RET a b s = Some (ECTX_CONTINUE, STACK2 a b s)"

definition STACK1_RET :: "WORD \<Rightarrow> instruction" where
  [tvm_defs]: "STACK1_RET a s = Some (ECTX_CONTINUE, STACK1 a s)"

definition UNDEFINE_STACK_RET :: instruction where
  [tvm_defs]: "UNDEFINE_STACK_RET s = Some (ECTX_CONTINUE, s)"

definition CLEAR_OREG :: "mach \<Rightarrow> mach" where
  [tvm_defs]: "CLEAR_OREG s = s\<lparr>oreg := 0\<rparr>"

text \<open>\<open>set_error_flag\<close> is the scheduler's (scheduler.c); the macros return when it says so.\<close>

definition set_error_flag :: "WORD \<Rightarrow> mach \<Rightarrow> int \<times> mach" where
  [tvm_defs]: "set_error_flag flag s = (ECTX_ERROR, s\<lparr>eflags := eflags s OR flag\<rparr>)"

definition SET_ERROR_FLAG_RET :: "WORD \<Rightarrow> instruction" where
  [tvm_defs]: "SET_ERROR_FLAG_RET flag s = Some (set_error_flag flag s)"

definition SET_ERROR_FLAG_IF :: "bool \<Rightarrow> WORD \<Rightarrow> instruction \<Rightarrow> instruction" where
  [tvm_defs]: "SET_ERROR_FLAG_IF c flag rest s =
     (if c then (let (ret, s) = set_error_flag flag s in if ret \<noteq> 0 then Some (ret, s) else rest s)
      else rest s)"

section \<open>Reading through updates\<close>

text \<open>Memory writes leave every register alone, and register updates leave memory alone.\<close>

lemma put_word_sel [simp]:
  "iptr (put_word p v s) = iptr s" "oreg (put_word p v s) = oreg s"
  "areg (put_word p v s) = areg s" "breg (put_word p v s) = breg s"
  "creg (put_word p v s) = creg s" "creg_saved (put_word p v s) = creg_saved s"
  "pri (put_word p v s) = pri s" "wptr (put_word p v s) = wptr s"
  "fptr (put_word p v s) = fptr s" "bptr (put_word p v s) = bptr s"
  "tptr (put_word p v s) = tptr s" "tnext (put_word p v s) = tnext s"
  "eflags (put_word p v s) = eflags s" "state (put_word p v s) = state s"
  "sflags (put_word p v s) = sflags s" "self (put_word p v s) = self s"
  "peers (put_word p v s) = peers s" "clock (put_word p v s) = clock s"
  "ticks (put_word p v s) = ticks s" "blocks (put_word p v s) = blocks s"
  "place (put_word p v s) = place s" "tlp_fmt (put_word p v s) = tlp_fmt s"
  "tlp_argc (put_word p v s) = tlp_argc s" "tlp_argv (put_word p v s) = tlp_argv s"
  by (simp_all add: put_word_def)

lemma WORKSPACE_SET_sel [simp]:
  "iptr (WORKSPACE_SET w k v s) = iptr s" "oreg (WORKSPACE_SET w k v s) = oreg s"
  "areg (WORKSPACE_SET w k v s) = areg s" "breg (WORKSPACE_SET w k v s) = breg s"
  "creg (WORKSPACE_SET w k v s) = creg s" "creg_saved (WORKSPACE_SET w k v s) = creg_saved s"
  "pri (WORKSPACE_SET w k v s) = pri s" "wptr (WORKSPACE_SET w k v s) = wptr s"
  "fptr (WORKSPACE_SET w k v s) = fptr s" "bptr (WORKSPACE_SET w k v s) = bptr s"
  "tptr (WORKSPACE_SET w k v s) = tptr s" "tnext (WORKSPACE_SET w k v s) = tnext s"
  "eflags (WORKSPACE_SET w k v s) = eflags s" "state (WORKSPACE_SET w k v s) = state s"
  "sflags (WORKSPACE_SET w k v s) = sflags s" "self (WORKSPACE_SET w k v s) = self s"
  "peers (WORKSPACE_SET w k v s) = peers s" "clock (WORKSPACE_SET w k v s) = clock s"
  "ticks (WORKSPACE_SET w k v s) = ticks s" "blocks (WORKSPACE_SET w k v s) = blocks s"
  "place (WORKSPACE_SET w k v s) = place s"
  by (simp_all add: WORKSPACE_SET_def)

lemma get_word_upd [simp]:
  "get_word (s\<lparr>iptr := x\<rparr>) p = get_word s p" "get_word (s\<lparr>oreg := x\<rparr>) p = get_word s p"
  "get_word (s\<lparr>areg := x\<rparr>) p = get_word s p" "get_word (s\<lparr>breg := x\<rparr>) p = get_word s p"
  "get_word (s\<lparr>creg := x\<rparr>) p = get_word s p" "get_word (s\<lparr>wptr := x\<rparr>) p = get_word s p"
  "get_word (s\<lparr>fptr := x\<rparr>) p = get_word s p" "get_word (s\<lparr>bptr := x\<rparr>) p = get_word s p"
  "get_word (s\<lparr>tptr := x\<rparr>) p = get_word s p" "get_word (s\<lparr>tnext := x\<rparr>) p = get_word s p"
  "get_word (s\<lparr>eflags := x\<rparr>) p = get_word s p" "get_word (s\<lparr>state := y\<rparr>) p = get_word s p"
  "get_word (s\<lparr>sflags := x\<rparr>) p = get_word s p" "get_word (s\<lparr>ticks := n\<rparr>) p = get_word s p"
  by (simp_all add: get_word_def)

lemma WORKSPACE_GET_upd [simp]:
  "WORKSPACE_GET (s\<lparr>iptr := x\<rparr>) w k = WORKSPACE_GET s w k"
  "WORKSPACE_GET (s\<lparr>oreg := x\<rparr>) w k = WORKSPACE_GET s w k"
  "WORKSPACE_GET (s\<lparr>areg := x\<rparr>) w k = WORKSPACE_GET s w k"
  "WORKSPACE_GET (s\<lparr>breg := x\<rparr>) w k = WORKSPACE_GET s w k"
  "WORKSPACE_GET (s\<lparr>creg := x\<rparr>) w k = WORKSPACE_GET s w k"
  "WORKSPACE_GET (s\<lparr>wptr := x\<rparr>) w k = WORKSPACE_GET s w k"
  "WORKSPACE_GET (s\<lparr>fptr := x\<rparr>) w k = WORKSPACE_GET s w k"
  "WORKSPACE_GET (s\<lparr>bptr := x\<rparr>) w k = WORKSPACE_GET s w k"
  "WORKSPACE_GET (s\<lparr>tptr := x\<rparr>) w k = WORKSPACE_GET s w k"
  "WORKSPACE_GET (s\<lparr>tnext := x\<rparr>) w k = WORKSPACE_GET s w k"
  "WORKSPACE_GET (s\<lparr>eflags := x\<rparr>) w k = WORKSPACE_GET s w k"
  "WORKSPACE_GET (s\<lparr>sflags := x\<rparr>) w k = WORKSPACE_GET s w k"
  "WORKSPACE_GET (s\<lparr>ticks := n\<rparr>) w k = WORKSPACE_GET s w k"
  by (simp_all add: WORKSPACE_GET_def)

lemma aligned_slot [align_simps]: "aligned w \<Longrightarrow> aligned (wordptr_minus w k)"
  "aligned w \<Longrightarrow> aligned (wordptr_plus w k)"
  by (simp_all add: wordptr_minus_def wordptr_plus_def align_simps)

lemma get_put_word:
  "aligned p \<Longrightarrow> aligned q \<Longrightarrow> get_word (put_word p v s) q = (if q = p then v else get_word s q)"
  by (simp add: get_word_def put_word_def native.rd_wr)

lemma get_put_word_same [simp]: "get_word (put_word p v s) p = v"
  by (simp add: get_word_def put_word_def native.rd_wr_same)

text \<open>The same slot of two workspaces, and two slots of the same workspace.\<close>

lemma WS_get_set_slot:
  "aligned w \<Longrightarrow> aligned w' \<Longrightarrow>
   WORKSPACE_GET (WORKSPACE_SET w' k v s) w k = (if w = w' then v else WORKSPACE_GET s w k)"
  by (simp add: WORKSPACE_GET_def WORKSPACE_SET_def get_put_word align_simps)
     (simp add: wordptr_minus_def)

lemma WS_get_set_same:
  "aligned w \<Longrightarrow> j < 7 \<Longrightarrow> k < 7 \<Longrightarrow>
   WORKSPACE_GET (WORKSPACE_SET w k v s) w j = (if j = k then v else WORKSPACE_GET s w j)"
  using native.rd_wr_slots[of w j k]
  by (simp add: WORKSPACE_GET_def WORKSPACE_SET_def get_word_def put_word_def wordptr_minus_def
      word_less_nat_alt)

text \<open>
  A set of process workspaces whose seven words below the workspace pointer do not overlap:
  what the compiler's workspace allocation guarantees for processes that exist together.
\<close>

definition ws_disjoint :: "WORDPTR set \<Rightarrow> bool" where
  "ws_disjoint W \<longleftrightarrow>
     (\<forall>w \<in> W. aligned w \<and> w \<noteq> NOT_PROCESS_P \<and>
        (\<forall>w' \<in> W. w \<noteq> w' \<longrightarrow>
           (\<forall>j \<in> {0, 1, 2, 3, 4, 5, 6}. \<forall>k \<in> {0, 1, 2, 3, 4, 5, 6}. wordptr_minus w j \<noteq> wordptr_minus w' k)))"

lemma ws_disjoint_subset: "ws_disjoint W \<Longrightarrow> V \<subseteq> W \<Longrightarrow> ws_disjoint V"
  unfolding ws_disjoint_def by blast

lemma ws_disjoint_aligned: "ws_disjoint W \<Longrightarrow> w \<in> W \<Longrightarrow> aligned w"
  by (simp add: ws_disjoint_def)

lemma ws_disjoint_not_null: "ws_disjoint W \<Longrightarrow> w \<in> W \<Longrightarrow> w \<noteq> NOT_PROCESS_P"
  by (simp add: ws_disjoint_def)

lemma less_7_word: "(k :: WORD) < 7 \<Longrightarrow> k \<in> {0, 1, 2, 3, 4, 5, 6}"
proof -
  assume "k < 7"
  then have "unat k < 7" by (simp add: word_less_nat_alt)
  then have "unat k \<in> {0, 1, 2, 3, 4, 5, 6}" by auto
  then show ?thesis by (auto simp: word_unat_eq_iff)
qed

lemma WS_get_set:
  assumes "ws_disjoint W" "w \<in> W" "w' \<in> W" "j < 7" "k < 7"
  shows "WORKSPACE_GET (WORKSPACE_SET w' k v s) w j =
    (if w = w' \<and> j = k then v else WORKSPACE_GET s w j)"
proof (cases "w = w'")
  case True
  then show ?thesis using WS_get_set_same assms(4,5) ws_disjoint_aligned[OF assms(1,2)] by auto
next
  case False
  have "wordptr_minus w j \<noteq> wordptr_minus w' k"
    using assms(1-3) False less_7_word[OF assms(4)] less_7_word[OF assms(5)]
    unfolding ws_disjoint_def by blast
  then show ?thesis using False ws_disjoint_aligned[OF assms(1)] assms(2,3)
    by (simp add: WORKSPACE_GET_def WORKSPACE_SET_def get_put_word align_simps)
qed

section \<open>A machine to compute on\<close>

text \<open>
  All memory zero, all registers zero, no other context, and a heap that hands out addresses
  from a fixed region: the starting point of the concrete instances of the theorems.
\<close>

definition blank :: mach where
  "blank =
     \<lparr>iptr = 0, oreg = 0, areg = 0, breg = 0, creg = 0, creg_saved = 0, pri = 0, wptr = 0,
      fptr = 0, bptr = 0, tptr = 0, tnext = 0, eflags = 0, state = 0, sflags = 0,
      tlp_fmt = [], tlp_argc = 0, tlp_argv = [],
      mem = (\<lambda>a. 0), self = 0, peers = Map.empty, clock = (\<lambda>n. 100), ticks = 0,
      blocks = [], place = (\<lambda>bs n. 0x10000 + 0x1000 * of_nat (length bs))\<rparr>"

lemma blank_sel [simp]:
  "iptr blank = 0" "oreg blank = 0" "areg blank = 0" "breg blank = 0" "creg blank = 0"
  "creg_saved blank = 0" "pri blank = 0" "wptr blank = 0" "fptr blank = 0" "bptr blank = 0"
  "tptr blank = 0" "tnext blank = 0" "eflags blank = 0" "state blank = 0" "sflags blank = 0"
  "tlp_fmt blank = []" "tlp_argc blank = 0" "tlp_argv blank = []" "mem blank = (\<lambda>a. 0)"
  "self blank = 0" "peers blank = Map.empty" "clock blank = (\<lambda>n. 100)" "ticks blank = 0"
  "blocks blank = []" "place blank = (\<lambda>bs n. 0x10000 + 0x1000 * of_nat (length bs))"
  by (simp_all add: blank_def)

lemma get_word_blank [simp]: "get_word blank p = 0" "WORKSPACE_GET blank w k = 0"
  by (simp_all add: get_word_def read_word_def WORKSPACE_GET_def)

end
