(* ===== verification/TVM_Scheduler.thy ===== *)
theory TVM_Scheduler
  imports TVM_Machine
begin

text \<open>
  The process scheduler (scheduler.c, scheduler.h): the run queue linked through the
  workspaces, the timer queue ordered by wake-up time, synchronisation with the environment.
  The function pointers of a context are resolved to those \<open>_tvm_install_scheduler\<close> installs.
  The queue discipline is stated as the locale \<open>fifo_queue\<close>, which the run queue provides here
  and the semaphore queue elsewhere.
\<close>

section \<open>Run queue\<close>

definition add_to_queue :: "WORDPTR \<Rightarrow> mach \<Rightarrow> mach" where
  "add_to_queue ws s =
     (let s = WORKSPACE_SET ws WS_LINK NOT_PROCESS_P s
      in if fptr s = NOT_PROCESS_P then s\<lparr>fptr := ws, bptr := ws\<rparr>
         else (let s = WORKSPACE_SET (bptr s) WS_LINK ws s in s\<lparr>bptr := ws\<rparr>))"

text \<open>
  Runs for the destination context; \<open>src_pri\<close> is the priority of the source context, \<open>None\<close>
  when the caller passes a null source.
\<close>

definition add_to_queue_external :: "WORD option \<Rightarrow> WORDPTR \<Rightarrow> mach \<Rightarrow> int \<times> mach" where
  "add_to_queue_external src_pri ws s =
     (let s = add_to_queue ws s
      in case src_pri of
           Some p \<Rightarrow> if pri s <s p then (ECTX_PREEMPT, s) else (ECTX_CONTINUE, s)
         | None \<Rightarrow> (ECTX_CONTINUE, s))"

definition add_queue_to_queue :: "WORDPTR \<Rightarrow> WORDPTR \<Rightarrow> mach \<Rightarrow> mach" where
  "add_queue_to_queue front back s =
     (let s = WORKSPACE_SET back WS_LINK NOT_PROCESS_P s
      in if fptr s = NOT_PROCESS_P then s\<lparr>fptr := front, bptr := back\<rparr>
         else (let s = WORKSPACE_SET (bptr s) WS_LINK front s in s\<lparr>bptr := back\<rparr>))"

section \<open>Synchronisation flags and alarms\<close>

definition modify_sync_flags :: "WORD \<Rightarrow> WORD \<Rightarrow> mach \<Rightarrow> mach" where
  "modify_sync_flags set_bits clear_bits s =
     s\<lparr>sflags := (sflags s AND NOT clear_bits) OR set_bits\<rparr>"

definition busy_wait_set_alarm :: "mach \<Rightarrow> mach" where
  "busy_wait_set_alarm s = modify_sync_flags SFLAG_TQ 0 s"

text \<open>tvm_time.h: \<open>t1\<close> is later than \<open>t2\<close> when their wrapped difference is positive.\<close>

definition TIME_AFTER :: "WORD \<Rightarrow> WORD \<Rightarrow> bool" where
  "TIME_AFTER t1 t2 \<longleftrightarrow> 0 <s t1 - t2"

section \<open>Timer queue\<close>

partial_function (option) timer_insert_loop ::
    "WORDPTR \<Rightarrow> WORD \<Rightarrow> WORDPTR \<Rightarrow> WORDPTR \<Rightarrow> mach \<Rightarrow> mach option" where
  "timer_insert_loop ws reschedule_time this_ws next_ws s =
     (if next_ws = NOT_PROCESS_P
      then Some (WORKSPACE_SET ws WS_TLINK NOT_PROCESS_P (WORKSPACE_SET this_ws WS_TLINK ws s))
      else if TIME_AFTER (WORKSPACE_GET s next_ws WS_TIME) reschedule_time
      then Some (WORKSPACE_SET this_ws WS_TLINK ws (WORKSPACE_SET ws WS_TLINK next_ws s))
      else timer_insert_loop ws reschedule_time next_ws (WORKSPACE_GET s next_ws WS_TLINK) s)"

definition timer_queue_insert :: "WORDPTR \<Rightarrow> WORD \<Rightarrow> WORD \<Rightarrow> mach \<Rightarrow> mach option" where
  "timer_queue_insert ws current_time reschedule_time s =
     (if tptr s = NOT_PROCESS_P
      then (let s = s\<lparr>tptr := ws, tnext := reschedule_time\<rparr>;
                s = WORKSPACE_SET ws WS_IPTR (iptr s) s;
                s = WORKSPACE_SET ws WS_TLINK NOT_PROCESS_P s
            in Some (busy_wait_set_alarm s))
      else if TIME_AFTER (tnext s) reschedule_time
      then (let s = WORKSPACE_SET ws WS_TLINK (tptr s) s
            in Some (busy_wait_set_alarm (s\<lparr>tptr := ws, tnext := reschedule_time\<rparr>)))
      else timer_insert_loop ws reschedule_time (tptr s) (WORKSPACE_GET s (tptr s) WS_TLINK) s)"

partial_function (option) timer_remove_loop ::
    "WORDPTR \<Rightarrow> WORDPTR \<Rightarrow> WORDPTR \<Rightarrow> mach \<Rightarrow> mach option" where
  "timer_remove_loop ws previous current s =
     (if current = NOT_PROCESS_P then Some s
      else if current = ws
      then Some (WORKSPACE_SET previous WS_TLINK (WORKSPACE_GET s ws WS_TLINK) s)
      else timer_remove_loop ws current (WORKSPACE_GET s current WS_TLINK) s)"

definition timer_queue_remove :: "WORDPTR \<Rightarrow> mach \<Rightarrow> mach option" where
  "timer_queue_remove ws s =
     map_option (WORKSPACE_SET ws WS_TLINK TIME_NOT_SET_P)
       (if tptr s = ws
        then (let s = s\<lparr>tptr := WORKSPACE_GET s (tptr s) WS_TLINK\<rparr>
              in if tptr s \<noteq> NOT_PROCESS_P
                 then Some (busy_wait_set_alarm (s\<lparr>tnext := WORKSPACE_GET s (tptr s) WS_TIME\<rparr>))
                 else Some s)
        else if tptr s \<noteq> NOT_PROCESS_P
        then timer_remove_loop ws (tptr s) (WORKSPACE_GET s (tptr s) WS_TLINK) s
        else Some s)"

text \<open>One turn of the \<open>do ... while\<close> of \<open>walk_timer_queue\<close>, up to the test for the end.\<close>

definition expire :: "WORDPTR \<Rightarrow> WORD \<Rightarrow> mach \<Rightarrow> mach" where
  "expire p now s =
     (let s = WORKSPACE_SET p WS_TLINK TIME_SET_P s;
          s = WORKSPACE_SET p WS_TIME now s
      in if WORKSPACE_GET s p WS_STATE \<noteq> READY_P
         then add_to_queue p (WORKSPACE_SET p WS_STATE READY_P s)
         else s)"

partial_function (option) walk_loop :: "WORDPTR \<Rightarrow> WORD \<Rightarrow> mach \<Rightarrow> mach option" where
  "walk_loop p now s =
     (let next = WORKSPACE_GET s p WS_TLINK;
          s = expire p now s
      in if next = NOT_PROCESS_P then Some (s\<lparr>tptr := NOT_PROCESS_P\<rparr>)
         else if \<not> TIME_AFTER (WORKSPACE_GET s next WS_TIME) now then walk_loop next now s
         else Some (busy_wait_set_alarm (s\<lparr>tptr := next, tnext := WORKSPACE_GET s next WS_TIME\<rparr>)))"

definition walk_timer_queue :: "WORD \<Rightarrow> mach \<Rightarrow> mach option" where
  "walk_timer_queue now s =
     (if tptr s = NOT_PROCESS_P \<or> TIME_AFTER (tnext s) now then Some s
      else walk_loop (tptr s) now s)"

section \<open>Synchronising and dispatching\<close>

definition busy_wait_synchronise :: instruction where
  "busy_wait_synchronise s =
     (if sflags s AND SFLAG_INTR \<noteq> 0 then Some (ECTX_INTERRUPT, s)
      else if sflags s AND SFLAG_TQ \<noteq> 0
      then (let (now, s) = get_time s
            in case walk_timer_queue now s of
                 None \<Rightarrow> None
               | Some s \<Rightarrow>
                   (let s = (if tptr s = NOT_PROCESS_P then modify_sync_flags 0 SFLAG_TQ s else s)
                    in Some (ECTX_CONTINUE, s)))
      else Some (ECTX_ERROR, s))"

text \<open>The part of \<open>run_next_on_queue\<close> after the synchronisation.\<close>

definition dispatch_front :: instruction where
  "dispatch_front s =
     (if fptr s \<noteq> NOT_PROCESS_P
      then (let s = s\<lparr>wptr := fptr s\<rparr>;
                s = (if fptr s = bptr s then s\<lparr>fptr := NOT_PROCESS_P, bptr := NOT_PROCESS_P\<rparr>
                     else s\<lparr>fptr := WORKSPACE_GET s (fptr s) WS_LINK\<rparr>)
            in Some (ECTX_CONTINUE, s\<lparr>iptr := WORKSPACE_GET s (wptr s) WS_IPTR\<rparr>))
      else (let s = s\<lparr>wptr := NOT_PROCESS_P\<rparr>
            in if tptr s \<noteq> NOT_PROCESS_P then Some (ECTX_SLEEP, s) else Some (ECTX_EMPTY, s)))"

definition run_next_on_queue :: instruction where
  "run_next_on_queue s =
     (if sflags s \<noteq> 0
      then (case busy_wait_synchronise s of
              None \<Rightarrow> None
            | Some (ret, s) \<Rightarrow>
                if ret \<noteq> 0 then Some (ret, s\<lparr>wptr := NOT_PROCESS_P\<rparr>) else dispatch_front s)
      else dispatch_front s)"

section \<open>Scheduling macros (scheduler.h)\<close>

definition ADD_TO_QUEUE_IPTR :: "WORDPTR \<Rightarrow> BYTEPTR \<Rightarrow> mach \<Rightarrow> mach" where
  "ADD_TO_QUEUE_IPTR ws ip s = add_to_queue ws (WORKSPACE_SET ws WS_IPTR ip s)"

definition ADD_TO_QUEUE_ECTX :: "WORDPTR \<Rightarrow> instruction" where
  "ADD_TO_QUEUE_ECTX ws s =
     (let dst = WORKSPACE_GET s ws WS_ECTX
      in if dst \<noteq> self s then on_ectx dst (add_to_queue_external (Some (pri s)) ws) s
         else Some (ECTX_CONTINUE, add_to_queue ws s))"

definition DESCHEDULE_CURRENT :: "mach \<Rightarrow> mach" where
  "DESCHEDULE_CURRENT s = (ADD_TO_QUEUE_IPTR (wptr s) (iptr s) s)\<lparr>wptr := NOT_PROCESS_P\<rparr>"

definition LOAD_PROCESS_RET :: "WORDPTR \<Rightarrow> instruction" where
  "LOAD_PROCESS_RET ws s =
     (let dst = WORKSPACE_GET s ws WS_ECTX
      in if dst \<noteq> self s
         then (case on_ectx dst (add_to_queue_external (Some (pri s)) ws) s of
                 None \<Rightarrow> None
               | Some (ret, s) \<Rightarrow> if ret \<noteq> 0 then Some (ret, s) else run_next_on_queue s)
         else (let s = s\<lparr>wptr := ws\<rparr>
               in Some (ECTX_CONTINUE, s\<lparr>iptr := WORKSPACE_GET s (wptr s) WS_IPTR\<rparr>)))"

section \<open>The FIFO contract\<close>

text \<open>Taking \<open>n\<close> elements off a queue.\<close>

fun drain :: "('s \<Rightarrow> ('x \<times> 's) option) \<Rightarrow> nat \<Rightarrow> 's \<Rightarrow> ('x list \<times> 's) option" where
  "drain deq 0 s = Some ([], s)"
| "drain deq (Suc n) s =
     (case deq s of None \<Rightarrow> None
      | Some (x, t) \<Rightarrow> (case drain deq n t of None \<Rightarrow> None | Some (xs, u) \<Rightarrow> Some (x # xs, u)))"

locale fifo_queue =
  fixes rep :: "'s \<Rightarrow> 'x list \<Rightarrow> bool"
    and ok :: "'x \<Rightarrow> bool"
    and enq :: "'x \<Rightarrow> 's \<Rightarrow> 's"
    and deq :: "'s \<Rightarrow> ('x \<times> 's) option"
  assumes rep_enq: "rep s xs \<Longrightarrow> ok x \<Longrightarrow> x \<notin> set xs \<Longrightarrow> rep (enq x s) (xs @ [x])"
    and rep_deq: "rep s (x # xs) \<Longrightarrow> \<exists>t. deq s = Some (x, t) \<and> rep t xs"
begin

lemma rep_enq_all:
  "rep s xs \<Longrightarrow> \<forall>y \<in> set ys. ok y \<Longrightarrow> distinct ys \<Longrightarrow> set xs \<inter> set ys = {} \<Longrightarrow>
   rep (fold enq ys s) (xs @ ys)"
proof (induction ys arbitrary: s xs)
  case (Cons y ys)
  then have "rep (enq y s) (xs @ [y])" by (intro rep_enq) auto
  then have "rep (fold enq ys (enq y s)) ((xs @ [y]) @ ys)" using Cons.prems by (intro Cons.IH) auto
  then show ?case by simp
qed simp

lemma drain_rep: "rep s (xs @ ys) \<Longrightarrow> \<exists>t. drain deq (length xs) s = Some (xs, t) \<and> rep t ys"
proof (induction xs arbitrary: s)
  case (Cons x xs)
  then obtain t where t: "deq s = Some (x, t)" "rep t (xs @ ys)" using rep_deq[of s x "xs @ ys"] by auto
  from Cons.IH[OF t(2)] t(1) show ?case by auto
qed simp

lemma first_in_first_out:
  assumes "rep s []" "\<forall>y \<in> set ys. ok y" "distinct ys"
  shows "\<exists>t. drain deq (length ys) (fold enq ys s) = Some (ys, t) \<and> rep t []"
  using rep_enq_all[OF assms(1-3)] drain_rep[of "fold enq ys s" ys "[]"] by simp

end

section \<open>Linked workspaces\<close>

lemma distinct_last: "distinct xs \<Longrightarrow> xs \<noteq> [] \<Longrightarrow> last xs \<in> set xs \<and> last xs \<notin> set (butlast xs)"
  by (cases xs rule: rev_cases) auto

fun linked :: "mach \<Rightarrow> WORD \<Rightarrow> WORDPTR list \<Rightarrow> bool" where
  "linked s k [] \<longleftrightarrow> True"
| "linked s k [x] \<longleftrightarrow> True"
| "linked s k (x # y # zs) \<longleftrightarrow> WORKSPACE_GET s x k = y \<and> linked s k (y # zs)"

lemma linked_cong:
  "(\<And>x. x \<in> set (butlast xs) \<Longrightarrow> WORKSPACE_GET s x k = WORKSPACE_GET t x k) \<Longrightarrow>
   linked s k xs = linked t k xs"
  by (induction s k xs rule: linked.induct) auto

lemma linked_snoc:
  "xs \<noteq> [] \<Longrightarrow> linked s k (xs @ [y]) \<longleftrightarrow> linked s k xs \<and> WORKSPACE_GET s (last xs) k = y"
  by (induction s k xs rule: linked.induct) auto

lemma linked_append:
  "xs \<noteq> [] \<Longrightarrow> ys \<noteq> [] \<Longrightarrow>
   linked s k (xs @ ys) \<longleftrightarrow> linked s k xs \<and> WORKSPACE_GET s (last xs) k = hd ys \<and> linked s k ys"
  by (induction s k xs rule: linked.induct; cases ys) auto

lemma linked_tl: "linked s k (x # xs) \<Longrightarrow> linked s k xs"
  by (cases xs) auto

definition process :: "WORDPTR \<Rightarrow> bool" where
  "process w \<longleftrightarrow> aligned w \<and> w \<noteq> NOT_PROCESS_P"

definition run_queue :: "mach \<Rightarrow> WORDPTR list \<Rightarrow> bool" where
  "run_queue s xs \<longleftrightarrow>
     distinct xs \<and> (\<forall>x \<in> set xs. process x) \<and>
     (if xs = [] then fptr s = NOT_PROCESS_P
      else fptr s = hd xs \<and> bptr s = last xs \<and> linked s WS_LINK xs)"

lemma linked_set_outside:
  "aligned w \<Longrightarrow> \<forall>x \<in> set xs. aligned x \<Longrightarrow> w \<notin> set (butlast xs) \<Longrightarrow> 
   linked (WORKSPACE_SET w k v s) k xs = linked s k xs"
  by (rule linked_cong) (metis WS_get_set_slot in_set_butlastD)

lemma add_to_queue_run_queue:
  assumes "run_queue s xs" "process x" "x \<notin> set xs"
  shows "run_queue (add_to_queue x s) (xs @ [x])"
proof (cases "xs = []")
  case True
  then show ?thesis using assms by (simp add: run_queue_def add_to_queue_def Let_def)
next
  case False
  let ?s1 = "WORKSPACE_SET x WS_LINK NOT_PROCESS_P s"
  let ?s2 = "WORKSPACE_SET (last xs) WS_LINK x ?s1"
  have al: "\<forall>y \<in> set xs. aligned y" "aligned x" and last: "last xs \<in> set xs"
    using assms(1,2) False by (auto simp: run_queue_def process_def)
  have nn: "fptr s \<noteq> NOT_PROCESS_P" using assms(1) False by (auto simp: run_queue_def process_def)
  have "last xs \<notin> set (butlast xs)"
    using assms(1) False distinct_last[of xs] by (auto simp: run_queue_def)
  then have "linked ?s2 WS_LINK xs" 
    using assms(1,3) False al last
    by (simp add: linked_set_outside run_queue_def) (meson in_set_butlastD linked_set_outside)
  then have "linked (?s2\<lparr>bptr := x\<rparr>) WS_LINK (xs @ [x])"
    using False al last by (simp add: linked_snoc WS_get_set_slot) (subst linked_cong[where t = ?s2], auto)
  then show ?thesis
    using assms False nn by (simp add: run_queue_def add_to_queue_def Let_def)
qed

lemma linked_upd [simp]:
  "linked (s\<lparr>fptr := v\<rparr>) k xs = linked s k xs" "linked (s\<lparr>bptr := v\<rparr>) k xs = linked s k xs"
  "linked (s\<lparr>wptr := v\<rparr>) k xs = linked s k xs" "linked (s\<lparr>iptr := v\<rparr>) k xs = linked s k xs"
  "linked (s\<lparr>tptr := v\<rparr>) k xs = linked s k xs" "linked (s\<lparr>tnext := v\<rparr>) k xs = linked s k xs"
  "linked (s\<lparr>sflags := v\<rparr>) k xs = linked s k xs" "linked (s\<lparr>ticks := n\<rparr>) k xs = linked s k xs"
  "linked (s\<lparr>eflags := v\<rparr>) k xs = linked s k xs"
  by (rule linked_cong; simp)+

lemma add_queue_to_queue_run_queue:
  assumes "run_queue s xs" "ys \<noteq> []" "distinct ys" "\<forall>y \<in> set ys. process y"
    and "linked s WS_LINK ys" "set xs \<inter> set ys = {}"
  shows "run_queue (add_queue_to_queue (hd ys) (last ys) s) (xs @ ys)"
proof -
  let ?s1 = "WORKSPACE_SET (last ys) WS_LINK NOT_PROCESS_P s"
  have aly: "\<forall>y \<in> set ys. aligned y" and lasty: "last ys \<in> set ys" "last ys \<notin> set (butlast ys)"
    using distinct_last[OF assms(3,2)] assms(4) by (auto simp: process_def)
  have l1: "linked ?s1 WS_LINK ys" using assms(5) aly lasty by (simp add: linked_set_outside)
  show ?thesis
  proof (cases "xs = []")
    case True
    then show ?thesis using assms l1 by (simp add: run_queue_def add_queue_to_queue_def Let_def)
  next
    case False
    let ?s2 = "WORKSPACE_SET (last xs) WS_LINK (hd ys) ?s1"
    have alx: "\<forall>x \<in> set xs. aligned x" and lastx: "last xs \<in> set xs" "last xs \<notin> set (butlast xs)"
      and nn: "fptr s \<noteq> NOT_PROCESS_P" and lx: "linked s WS_LINK xs"
      using assms(1) False distinct_last[of xs] by (auto simp: process_def run_queue_def)
    have notin: "last ys \<notin> set (butlast xs)" "last xs \<notin> set (butlast ys)"
      using lasty lastx assms(6) by (auto dest: in_set_butlastD)
    have "linked ?s2 WS_LINK xs" "linked ?s2 WS_LINK ys"
      using lx l1 notin lastx alx aly lasty by (simp_all add: linked_set_outside)
    then have "linked ?s2 WS_LINK (xs @ ys)"
      using False assms(2) alx lastx by (simp add: linked_append WS_get_set_slot)
    then show ?thesis
      using assms False nn by (simp add: run_queue_def add_queue_to_queue_def Let_def ball_Un)
  qed
qed

lemma dispatch_front_run_queue:
  assumes "run_queue s (x # xs)"
  shows "\<exists>t. dispatch_front s = Some (ECTX_CONTINUE, t) \<and> run_queue t xs \<and> wptr t = x \<and>
     iptr t = WORKSPACE_GET s x WS_IPTR \<and> mem t = mem s \<and> tptr t = tptr s \<and> sflags t = sflags s"
proof (cases xs)
  case Nil
  then show ?thesis using assms by (simp add: run_queue_def dispatch_front_def Let_def process_def)
next
  case (Cons y ys)
  have "fptr s \<noteq> bptr s" using assms Cons by (auto simp: run_queue_def)
  then show ?thesis using assms Cons
    by (auto simp add: run_queue_def dispatch_front_def Let_def process_def)
qed

lemma dispatch_front_empty:
  assumes "run_queue s []"
  shows "dispatch_front s =
     Some (if tptr s = NOT_PROCESS_P then ECTX_EMPTY else ECTX_SLEEP, s\<lparr>wptr := NOT_PROCESS_P\<rparr>)"
  using assms by (simp add: run_queue_def dispatch_front_def Let_def)

definition next_process :: "mach \<Rightarrow> (WORDPTR \<times> mach) option" where
  "next_process s = (case run_next_on_queue s of
     Some (ret, t) \<Rightarrow> if ret = ECTX_CONTINUE then Some (wptr t, t) else None
   | None \<Rightarrow> None)"

definition quiet_queue :: "mach \<Rightarrow> WORDPTR list \<Rightarrow> bool" where
  "quiet_queue s xs \<longleftrightarrow> run_queue s xs \<and> sflags s = 0"

lemma add_to_queue_sel [simp]:
  "sflags (add_to_queue x s) = sflags s" "tptr (add_to_queue x s) = tptr s"
  "tnext (add_to_queue x s) = tnext s" "wptr (add_to_queue x s) = wptr s"
  "iptr (add_to_queue x s) = iptr s" "pri (add_to_queue x s) = pri s"
  "self (add_to_queue x s) = self s" "eflags (add_to_queue x s) = eflags s"
  "areg (add_to_queue x s) = areg s" "breg (add_to_queue x s) = breg s"
  "creg (add_to_queue x s) = creg s" "oreg (add_to_queue x s) = oreg s"
  by (simp_all add: add_to_queue_def Let_def)

interpretation runq: fifo_queue quiet_queue process add_to_queue next_process
proof unfold_locales
  fix s xs x
  show "quiet_queue s xs \<Longrightarrow> process x \<Longrightarrow> x \<notin> set xs \<Longrightarrow> quiet_queue (add_to_queue x s) (xs @ [x])"
    by (simp add: quiet_queue_def add_to_queue_run_queue)
  show "quiet_queue s (x # xs) \<Longrightarrow> \<exists>t. next_process s = Some (x, t) \<and> quiet_queue t xs"
    using dispatch_front_run_queue[of s x xs]
    by (auto simp: quiet_queue_def next_process_def run_next_on_queue_def)
qed

end
