(* ===== verification/TVM_TimerQueue.thy ===== *)
theory TVM_TimerQueue
  imports TVM_Scheduler
begin

text \<open>
  Correctness of the timer queue of scheduler.c: times are compared modulo the word size, so
  the order is meaningful inside a half-range window; the linked representation is related to
  a list by \<open>timer_queue\<close>, and insertion, removal and expiry are the list operations.
\<close>

section \<open>Modular time\<close>

definition in_window :: "WORD \<Rightarrow> WORD \<Rightarrow> bool" where
  "in_window b t \<longleftrightarrow> t - b < 0x80000000"

lemma sint_small: "x < 0x80000000 \<Longrightarrow> sint (x :: WORD) = uint x"
proof -
  assume "x < 0x80000000"
  then have u: "uint x < 2 ^ 31" by (simp add: word_less_alt)
  have "- (2 ^ 31) \<le> uint x" by (rule order_trans[OF _ uint_ge_0]) simp
  then show ?thesis using u by (simp add: sint_uint signed_take_bit_int_eq_self)
qed

lemma TIME_AFTER_window:
  assumes "in_window b t1" "in_window b t2"
  shows "TIME_AFTER t1 t2 \<longleftrightarrow> t2 - b < t1 - b"
proof -
  have s: "sint (t1 - b) = uint (t1 - b)" "sint (t2 - b) = uint (t2 - b)"
    using assms by (simp_all add: in_window_def sint_small)
  have u: "uint (t1 - b) < 2 ^ 31" "uint (t2 - b) < 2 ^ 31"
    using assms by (simp_all add: in_window_def word_less_alt)
  have "t1 - t2 = (t1 - b) - (t2 - b)" by simp
  then have "sint (t1 - t2) = signed_take_bit 31 (uint (t1 - b) - uint (t2 - b))"
    using sint_word_diff[of "t1 - b" "t2 - b"] s by simp
  also have "\<dots> = uint (t1 - b) - uint (t2 - b)"
  proof (rule signed_take_bit_int_eq_self)
    show "- (2 ^ 31) \<le> uint (t1 - b) - uint (t2 - b)" "uint (t1 - b) - uint (t2 - b) < 2 ^ 31"
      using u uint_ge_0[of "t1 - b"] uint_ge_0[of "t2 - b"] by linarith+
  qed
  finally show ?thesis by (simp add: TIME_AFTER_def word_sless_alt word_less_alt)
qed

section \<open>Timer queue as a list\<close>

abbreviation wake :: "mach \<Rightarrow> WORDPTR \<Rightarrow> WORD" where
  "wake s w \<equiv> WORKSPACE_GET s w WS_TIME"

definition timer_queue :: "mach \<Rightarrow> WORDPTR list \<Rightarrow> bool" where
  "timer_queue s xs \<longleftrightarrow>
     distinct xs \<and> (\<forall>x \<in> set xs. process x) \<and>
     (if xs = [] then tptr s = NOT_PROCESS_P
      else tptr s = hd xs \<and> tnext s = wake s (hd xs) \<and> linked s WS_TLINK xs \<and>
        WORKSPACE_GET s (last xs) WS_TLINK = NOT_PROCESS_P)"

lemma slot_bounds [simp]:
  "WS_TEMP < 7" "WS_IPTR < 7" "WS_LINK < 7" "WS_ECTX < 7" "WS_STATE < 7" "WS_TLINK < 7" "WS_TIME < 7"
  by (simp_all add: tvm_consts)

lemma slot_neq [simp]:
  "WS_LINK \<noteq> WS_TLINK" "WS_LINK \<noteq> WS_TIME" "WS_LINK \<noteq> WS_STATE" "WS_LINK \<noteq> WS_IPTR"
  "WS_TLINK \<noteq> WS_LINK" "WS_TIME \<noteq> WS_LINK" "WS_STATE \<noteq> WS_LINK" "WS_IPTR \<noteq> WS_LINK"
  "WS_TLINK \<noteq> WS_TIME" "WS_TLINK \<noteq> WS_STATE" "WS_TLINK \<noteq> WS_IPTR" "WS_TIME \<noteq> WS_STATE"
  "WS_TIME \<noteq> WS_TLINK" "WS_STATE \<noteq> WS_TLINK" "WS_IPTR \<noteq> WS_TLINK" "WS_STATE \<noteq> WS_TIME"
  "WS_TIME \<noteq> WS_IPTR" "WS_IPTR \<noteq> WS_TIME" "WS_STATE \<noteq> WS_IPTR" "WS_IPTR \<noteq> WS_STATE"
  by (simp_all add: tvm_consts)

text \<open>\<open>s'\<close> is \<open>s\<close> with \<open>ws\<close> spliced into the timer links between \<open>p\<close> and \<open>n\<close>.\<close>

definition spliced :: "WORDPTR set \<Rightarrow> WORDPTR \<Rightarrow> WORDPTR \<Rightarrow> WORDPTR \<Rightarrow> mach \<Rightarrow> mach \<Rightarrow> bool" where
  "spliced W p ws n s s' \<longleftrightarrow> s' = s\<lparr>mem := mem s'\<rparr> \<and>
     (\<forall>w \<in> W. \<forall>k < 7. WORKSPACE_GET s' w k =
        (if w = p \<and> k = WS_TLINK then ws else if w = ws \<and> k = WS_TLINK then n
         else WORKSPACE_GET s w k))"

lemma WORKSPACE_SET_eq_mem: "WORKSPACE_SET w k v s = s\<lparr>mem := mem (WORKSPACE_SET w k v s)\<rparr>"
  by (simp add: WORKSPACE_SET_def put_word_def)

lemma spliced_sets:
  assumes "ws_disjoint W" "p \<in> W" "ws \<in> W" "p \<noteq> ws"
  shows "spliced W p ws n s (WORKSPACE_SET ws WS_TLINK n (WORKSPACE_SET p WS_TLINK ws s))"
    and "spliced W p ws n s (WORKSPACE_SET p WS_TLINK ws (WORKSPACE_SET ws WS_TLINK n s))"
proof -
  have "WORKSPACE_SET a k v (WORKSPACE_SET b j u s) = s\<lparr>mem := mem (WORKSPACE_SET a k v (WORKSPACE_SET b j u s))\<rparr>"
    for a b k j v u by (simp add: WORKSPACE_SET_def put_word_def)
  then show "spliced W p ws n s (WORKSPACE_SET ws WS_TLINK n (WORKSPACE_SET p WS_TLINK ws s))"
    "spliced W p ws n s (WORKSPACE_SET p WS_TLINK ws (WORKSPACE_SET ws WS_TLINK n s))"
    using assms by (auto simp: spliced_def WS_get_set)
qed

lemma timer_insert_loop_spliced:
  assumes "ws_disjoint W" "set (this # rest) \<subseteq> W" "ws \<in> W" "ws \<notin> set (this # rest)"
    and "linked s WS_TLINK (this # rest)"
    and "WORKSPACE_GET s (last (this # rest)) WS_TLINK = NOT_PROCESS_P"
    and P: "P = (\<lambda>x. \<not> TIME_AFTER (wake s x) t)"
  shows "\<exists>s'. timer_insert_loop ws t this (if rest = [] then NOT_PROCESS_P else hd rest) s = Some s' \<and>
     spliced W (last (this # takeWhile P rest)) ws
       (if dropWhile P rest = [] then NOT_PROCESS_P else hd (dropWhile P rest)) s s'"
  using assms(2,4,5,6)
proof (induction rest arbitrary: this)
  case Nil
  then show ?case using assms(1,3)
    by (subst timer_insert_loop.simps) (auto intro: spliced_sets)
next
  case (Cons y ys)
  have y: "y \<noteq> NOT_PROCESS_P" using Cons.prems(1) ws_disjoint_not_null[OF assms(1)] by auto
  show ?case
  proof (cases "P y")
    case False
    then have "TIME_AFTER (wake s y) t" by (simp add: P)
    then show ?thesis using Cons.prems assms(1,3) y False
      by (subst timer_insert_loop.simps) (auto intro: spliced_sets)
  next
    case True
    then have na: "\<not> TIME_AFTER (wake s y) t" by (simp add: P)
    have nx: "WORKSPACE_GET s y WS_TLINK = (if ys = [] then NOT_PROCESS_P else hd ys)"
      using Cons.prems(3,4) by (cases ys) auto
    have "linked s WS_TLINK (y # ys)" using Cons.prems(3) by simp
    from Cons.IH[OF _ _ this] Cons.prems(1,2,4)
    obtain s' where s': "timer_insert_loop ws t y (if ys = [] then NOT_PROCESS_P else hd ys) s = Some s'"
      "spliced W (last (y # takeWhile P ys)) ws
        (if dropWhile P ys = [] then NOT_PROCESS_P else hd (dropWhile P ys)) s s'" by auto
    have "timer_insert_loop ws t this y s = Some s'"
      using s'(1) y na nx by (subst timer_insert_loop.simps) simp
    moreover have "last (this # takeWhile P (y # ys)) = last (y # takeWhile P ys)"
      "dropWhile P (y # ys) = dropWhile P ys" using True by simp_all
    ultimately show ?thesis using s'(2) by (intro exI[of _ s']) (simp only: list.sel list.distinct if_False simp_thms)
  qed
qed

lemma spliced_linked:
  assumes "spliced W (last as) ws (if bs = [] then NOT_PROCESS_P else hd bs) s s'"
    and "as \<noteq> []" "distinct (as @ bs)" "ws \<notin> set (as @ bs)" "set (as @ bs) \<subseteq> W" "ws \<in> W"
    and "linked s WS_TLINK (as @ bs)"
    and "bs \<noteq> [] \<Longrightarrow> WORKSPACE_GET s (last bs) WS_TLINK = NOT_PROCESS_P"
  shows "linked s' WS_TLINK (as @ ws # bs)"
    and "WORKSPACE_GET s' (last (as @ ws # bs)) WS_TLINK = NOT_PROCESS_P"
proof -
  have get: "WORKSPACE_GET s' w WS_TLINK = (if w = last as then ws else if w = ws
      then (if bs = [] then NOT_PROCESS_P else hd bs) else WORKSPACE_GET s w WS_TLINK)" if "w \<in> W" for w
    using assms(1) that unfolding spliced_def by (metis slot_bounds(6))
  have la: "last as \<in> set as" "last as \<notin> set (butlast as)" "last as \<notin> set bs"
    using distinct_last[of as] assms(2,3) by (auto simp: disjoint_iff)
  have "WORKSPACE_GET s' x WS_TLINK = WORKSPACE_GET s x WS_TLINK" if "x \<in> set (butlast as)" for x
    using get[of x] in_set_butlastD[OF that] la that assms(4,5) by auto
  then have "linked s' WS_TLINK as \<longleftrightarrow> linked s WS_TLINK as" by (rule linked_cong)
  then have "linked s' WS_TLINK as"
    using assms(2,7) by (cases "bs = []") (simp_all add: linked_append)
  moreover have "linked s' WS_TLINK (ws # bs)"
  proof (cases bs)
    case (Cons b bs')
    have "linked s WS_TLINK bs" using assms(2,7) Cons by (simp add: linked_append)
    moreover have "WORKSPACE_GET s' x WS_TLINK = WORKSPACE_GET s x WS_TLINK" if "x \<in> set (butlast bs)" for x
      using get[of x] in_set_butlastD[OF that] la that assms(4,5) by auto
    then have "linked s' WS_TLINK bs \<longleftrightarrow> linked s WS_TLINK bs" by (rule linked_cong)
    ultimately have "linked s' WS_TLINK bs" by simp
    then show ?thesis using Cons get[of ws] assms(4,6) la by auto
  qed simp
  ultimately show "linked s' WS_TLINK (as @ ws # bs)"
    using assms(2,5) la subsetD[OF assms(5), of "last as"] get[of "last as"] by (subst linked_append) auto
  show "WORKSPACE_GET s' (last (as @ ws # bs)) WS_TLINK = NOT_PROCESS_P"
  proof (cases bs)
    case Nil
    then show ?thesis using get[of ws] assms(4,6) la by auto
  next
    case (Cons b bs')
    then have lb: "last bs \<in> set bs" "bs \<noteq> []" by simp_all
    then have "last bs \<in> W" "last bs \<noteq> last as" "last bs \<noteq> ws"
      using assms(4,5) la(3) by (metis UnCI set_append subset_eq)+
    then show ?thesis using get[of "last bs"] lb assms(8) by simp
  qed
qed

lemma spliced_sel:
  assumes "spliced W p ws n s s'"
  shows "tptr s' = tptr s" "tnext s' = tnext s" "fptr s' = fptr s" "bptr s' = bptr s"
    "sflags s' = sflags s" "wptr s' = wptr s" "iptr s' = iptr s"
proof -
  have e: "s' = s\<lparr>mem := mem s'\<rparr>" using assms by (simp add: spliced_def)
  show "tptr s' = tptr s" "tnext s' = tnext s" "fptr s' = fptr s" "bptr s' = bptr s"
    "sflags s' = sflags s" "wptr s' = wptr s" "iptr s' = iptr s"
    by (subst e, simp)+
qed

lemma tq_upd [simp]:
  "WORKSPACE_GET (busy_wait_set_alarm s) w k = WORKSPACE_GET s w k"
  "tptr (busy_wait_set_alarm s) = tptr s" "tnext (busy_wait_set_alarm s) = tnext s"
  "fptr (busy_wait_set_alarm s) = fptr s" "bptr (busy_wait_set_alarm s) = bptr s"
  by (simp_all add: busy_wait_set_alarm_def modify_sync_flags_def)

lemma linked_busy_wait [simp]: "linked (busy_wait_set_alarm s) k xs = linked s k xs"
  by (simp add: busy_wait_set_alarm_def modify_sync_flags_def)

definition timer_inserted :: "mach \<Rightarrow> WORDPTR list \<Rightarrow> WORDPTR \<Rightarrow> WORD \<Rightarrow> WORDPTR list" where
  "timer_inserted s xs ws t =
     takeWhile (\<lambda>x. \<not> TIME_AFTER (wake s x) t) xs @ ws # dropWhile (\<lambda>x. \<not> TIME_AFTER (wake s x) t) xs"

lemma distinct_mid: "distinct (as @ w # bs) \<longleftrightarrow> distinct (w # as @ bs)"
  by auto

lemma timer_queue_insert_inserts:
  assumes q: "timer_queue s xs" and W: "ws_disjoint (insert ws (set xs))"
    and new: "ws \<notin> set xs" and t: "wake s ws = t"
  shows "\<exists>s'. timer_queue_insert ws now t s = Some s' \<and> timer_queue s' (timer_inserted s xs ws t) \<and>
     (\<forall>x \<in> insert ws (set xs). wake s' x = wake s x) \<and> fptr s' = fptr s \<and> bptr s' = bptr s"
proof (cases xs)
  case Nil
  have "process ws" using W by (simp add: process_def ws_disjoint_def)
  then show ?thesis using q Nil t ws_disjoint_aligned[OF W]
    by (simp add: timer_queue_insert_def timer_queue_def timer_inserted_def Let_def process_def WS_get_set_same)
next
  case (Cons this rest)
  let ?W = "insert ws (set xs)"
  let ?P = "\<lambda>x. \<not> TIME_AFTER (wake s x) t"
  have pr: "process ws" using W by (simp add: process_def ws_disjoint_def)
  have d: "tptr s = this" "tnext s = wake s this" "linked s WS_TLINK xs" "distinct xs"
      "WORKSPACE_GET s (last xs) WS_TLINK = NOT_PROCESS_P" "\<forall>x \<in> set xs. process x" "this \<noteq> NOT_PROCESS_P"
    using q Cons by (auto simp: timer_queue_def process_def)
  show ?thesis
  proof (cases "?P this")
    case False
    let ?s = "WORKSPACE_SET ws WS_TLINK this s"
    have get: "WORKSPACE_GET ?s x WS_TLINK = (if x = ws then this else WORKSPACE_GET s x WS_TLINK)"
      if "x \<in> ?W" for x using WS_get_set[OF W that, of ws] by simp
    have "linked ?s WS_TLINK xs \<longleftrightarrow> linked s WS_TLINK xs"
      by (rule linked_cong) (use get new in \<open>auto dest!: in_set_butlastD\<close>)
    then have "timer_queue (busy_wait_set_alarm (?s\<lparr>tptr := ws, tnext := t\<rparr>)) (ws # xs)"
      using d Cons False pr new t get[of ws] get[of "last xs"] WS_get_set[OF W, of ws ws WS_TIME WS_TLINK]
      by (auto simp add: timer_queue_def)
    moreover have "\<forall>x \<in> ?W. wake ?s x = wake s x" using WS_get_set[OF W] by simp
    ultimately show ?thesis using d Cons False
      by (simp add: timer_queue_insert_def timer_inserted_def Let_def)
  next
    case True
    let ?as = "this # takeWhile ?P rest" and ?bs = "dropWhile ?P rest"
    have ab: "xs = ?as @ ?bs" using Cons by simp
    have nx: "WORKSPACE_GET s this WS_TLINK = (if rest = [] then NOT_PROCESS_P else hd rest)"
      using d Cons by (cases rest) auto
    obtain s' where s': "timer_insert_loop ws t this (if rest = [] then NOT_PROCESS_P else hd rest) s = Some s'"
        "spliced ?W (last ?as) ws (if ?bs = [] then NOT_PROCESS_P else hd ?bs) s s'"
      using timer_insert_loop_spliced[OF W, of this rest ws s ?P t] new d Cons by auto
    have "?bs \<noteq> [] \<Longrightarrow> WORKSPACE_GET s (last ?bs) WS_TLINK = NOT_PROCESS_P"
      using d(5) by (subst (asm) ab) (simp only: last_append if_False)
    with spliced_linked[OF s'(2)] d new ab
    have l: "linked s' WS_TLINK (?as @ ws # ?bs)" "WORKSPACE_GET s' (last (?as @ ws # ?bs)) WS_TLINK = NOT_PROCESS_P"
      by (metis insert_iff list.distinct(1) subset_insertI)+
    have w: "\<forall>x \<in> ?W. wake s' x = wake s x" using s'(2) by (simp add: spliced_def)
    have ti: "timer_inserted s xs ws t = ?as @ ws # ?bs" using True Cons by (simp add: timer_inserted_def)
    have "set (?as @ ws # ?bs) = insert ws (set (?as @ ?bs))" by (simp only: set_append list.set Un_insert_right)
    then have "set (?as @ ws # ?bs) = ?W" by (simp only: ab[symmetric])
    moreover have "distinct (ws # ?as @ ?bs)" using ab new d(4) by (metis distinct.simps(2))
    then have "distinct (?as @ ws # ?bs)" by (simp only: distinct_mid)
    ultimately have "timer_queue s' (timer_inserted s xs ws t)"
      using l d pr w Cons spliced_sel[OF s'(2)] unfolding ti timer_queue_def by simp
    then show ?thesis using s' w d True Cons nx spliced_sel[OF s'(2)]
      by (auto simp: timer_queue_insert_def)
  qed
qed

lemma sorted_insert_takeWhile:
  "sorted (map f xs) \<Longrightarrow>
   sorted (map f (takeWhile (\<lambda>x. f x \<le> f w) xs @ w # dropWhile (\<lambda>x. f x \<le> f w) xs))"
  for f :: "'x \<Rightarrow> 'y :: linorder"
  by (induction xs) (auto dest: set_takeWhileD set_dropWhileD)

lemma timer_remove_loop_removes:
  assumes "process ws" "\<forall>x \<in> set cs. process x" "distinct (p # cs)"
    and "linked s WS_TLINK (p # cs)" "WORKSPACE_GET s (last (p # cs)) WS_TLINK = NOT_PROCESS_P"
  shows "timer_remove_loop ws p (if cs = [] then NOT_PROCESS_P else hd cs) s =
     Some (if ws \<in> set cs
       then WORKSPACE_SET (last (p # takeWhile (\<lambda>x. x \<noteq> ws) cs)) WS_TLINK (WORKSPACE_GET s ws WS_TLINK) s
       else s)"
  using assms(2-)
proof (induction cs arbitrary: p)
  case (Cons c cs)
  have c: "c \<noteq> NOT_PROCESS_P" using Cons.prems(1) by (simp add: process_def)
  have nx: "WORKSPACE_GET s c WS_TLINK = (if cs = [] then NOT_PROCESS_P else hd cs)"
    using Cons.prems(3,4) by (cases cs) auto
  show ?case
  proof (cases "c = ws")
    case True
    then show ?thesis using c by (subst timer_remove_loop.simps) simp
  next
    case False
    have "timer_remove_loop ws p c s = timer_remove_loop ws c (if cs = [] then NOT_PROCESS_P else hd cs) s"
      using c False nx by (subst timer_remove_loop.simps) simp
    also note Cons.IH
    finally show ?thesis using Cons.prems False by auto
  qed
qed (subst timer_remove_loop.simps, simp)

lemma linked_mid:
  "linked s k (as @ x # y # bs) \<longleftrightarrow> linked s k (as @ [x]) \<and> WORKSPACE_GET s x k = y \<and> linked s k (y # bs)"
  using linked_append[of "as @ [x]" "y # bs" s k] by simp

lemma timer_queue_cong:
  assumes "tptr t = tptr s" "xs \<noteq> [] \<Longrightarrow> tnext t = tnext s"
    and "\<forall>x \<in> set xs. WORKSPACE_GET t x WS_TLINK = WORKSPACE_GET s x WS_TLINK \<and> wake t x = wake s x"
  shows "timer_queue t xs \<longleftrightarrow> timer_queue s xs"
proof -
  have "linked t WS_TLINK xs \<longleftrightarrow> linked s WS_TLINK xs"
    by (rule linked_cong) (use assms(3) in \<open>auto dest: in_set_butlastD\<close>)
  then show ?thesis using assms by (cases "xs = []") (simp_all add: timer_queue_def)
qed

lemma timer_queue_unlink:
  assumes q: "timer_queue s ((as @ [l]) @ w # bs)" and W: "ws_disjoint W" "set ((as @ [l]) @ w # bs) \<subseteq> W"
  shows "timer_queue (WORKSPACE_SET l WS_TLINK (WORKSPACE_GET s w WS_TLINK) s) ((as @ [l]) @ bs)"
proof -
  let ?u = "WORKSPACE_SET l WS_TLINK (WORKSPACE_GET s w WS_TLINK) s"
  have get: "WORKSPACE_GET ?u x k = (if x = l \<and> k = WS_TLINK then WORKSPACE_GET s w WS_TLINK else WORKSPACE_GET s x k)"
    if "x \<in> W" "k < 7" for x k using WS_get_set[OF W(1) that(1) _ that(2), of l] W(2) by simp
  have l: "linked s WS_TLINK (as @ [l])" "linked s WS_TLINK (w # bs)" "WORKSPACE_GET s l WS_TLINK = w"
     "distinct (as @ l # w # bs)" "WORKSPACE_GET s (last (w # bs)) WS_TLINK = NOT_PROCESS_P"
    using q by (simp_all add: timer_queue_def linked_mid)
  have "linked ?u WS_TLINK (as @ [l]) \<longleftrightarrow> linked s WS_TLINK (as @ [l])"
    by (rule linked_cong) (use get W(2) l in auto)
  moreover have "linked ?u WS_TLINK bs \<longleftrightarrow> linked s WS_TLINK bs"
    by (rule linked_cong) (use get W(2) l in \<open>auto dest!: in_set_butlastD\<close>)
  ultimately have lu: "linked ?u WS_TLINK (as @ [l])" "linked ?u WS_TLINK bs"
    using l linked_tl by auto
  have lW: "l \<in> W" using W(2) by simp
  have hd: "wake ?u (hd (as @ [l])) = wake s (hd (as @ [l]))" using get W(2) by (cases as) auto
  show ?thesis
  proof (cases bs)
    case Nil
    then show ?thesis using q l lu get[OF lW] hd W(2) by (simp add: timer_queue_def) (cases as; simp)
  next
    case (Cons b bs')
    then have "last bs \<in> set bs" by simp
    then have "last bs \<in> W" "last bs \<noteq> l" using W(2) l(4) by auto
    then have "WORKSPACE_GET ?u (last bs) WS_TLINK = NOT_PROCESS_P" "WORKSPACE_GET ?u l WS_TLINK = b"
      using get[OF lW] get l Cons by auto
    then show ?thesis using q l lu hd Cons by (simp add: timer_queue_def linked_mid) (cases as; simp)
  qed
qed

lemma timer_queue_remove_removes:
  assumes q: "timer_queue s xs" and W: "ws_disjoint (insert ws (set xs))"
  shows "\<exists>s'. timer_queue_remove ws s = Some s' \<and> timer_queue s' (remove1 ws xs) \<and>
     WORKSPACE_GET s' ws WS_TLINK = TIME_NOT_SET_P \<and> fptr s' = fptr s \<and> bptr s' = bptr s"
proof -
  let ?W = "insert ws (set xs)"
  let ?fin = "WORKSPACE_SET ws WS_TLINK TIME_NOT_SET_P"
  have pr: "process ws" "aligned ws" "ws \<noteq> NOT_PROCESS_P" using W by (simp_all add: process_def ws_disjoint_def)
  have at: "WORKSPACE_GET (?fin t) ws WS_TLINK = TIME_NOT_SET_P" for t using pr by (simp add: WS_get_set_slot)
  have outside: "timer_queue (?fin t) ys" if t: "timer_queue t ys" "set ys \<subseteq> set xs" "ws \<notin> set ys" for t ys
    using t(1) by (rule iffD2[OF timer_queue_cong, rotated -1])
      (use t(2,3) WS_get_set[OF W, where w' = ws] in auto)
  show ?thesis
  proof (cases "ws \<in> set xs")
    case True
    then obtain as bs where xs: "xs = as @ ws # bs" "ws \<notin> set as" by (meson split_list_first)
    then have rm: "remove1 ws xs = as @ bs" "set (as @ bs) \<subseteq> set xs" "ws \<notin> set (as @ bs)"
      using q by (auto simp: remove1_append timer_queue_def)
    show ?thesis
    proof (cases as rule: rev_cases)
      case Nil
      let ?t = "s\<lparr>tptr := WORKSPACE_GET s ws WS_TLINK\<rparr>"
      let ?u = "if bs = [] then ?t else busy_wait_set_alarm (?t\<lparr>tnext := wake s (hd bs)\<rparr>)"
      have "timer_queue ?u bs" "WORKSPACE_GET s ws WS_TLINK = (if bs = [] then NOT_PROCESS_P else hd bs)"
        "bs \<noteq> [] \<Longrightarrow> hd bs \<noteq> NOT_PROCESS_P" "tptr s = ws"
        using q xs Nil by (cases bs; auto simp: timer_queue_def process_def)+
      then show ?thesis using outside[of ?u bs] rm Nil at
        by (intro exI[of _ "?fin ?u"]) (simp add: timer_queue_remove_def Let_def)
    next
      case (snoc as' l)
      let ?u = "WORKSPACE_SET l WS_TLINK (WORKSPACE_GET s ws WS_TLINK) s"
      obtain p cs where pc: "as = p # cs" using snoc by (metis append_is_Nil_conv list.exhaust not_Cons_self2)
      have d: "tptr s = p" "p \<noteq> ws" "p \<noteq> NOT_PROCESS_P" "linked s WS_TLINK (p # cs @ ws # bs)"
        "WORKSPACE_GET s (last (p # cs @ ws # bs)) WS_TLINK = NOT_PROCESS_P" "distinct (p # cs @ ws # bs)"
        "\<forall>x \<in> set (cs @ ws # bs). process x"
        "WORKSPACE_GET s p WS_TLINK = hd (cs @ ws # bs)"
        using q xs pc by (auto simp: timer_queue_def process_def) (cases cs; auto)
      have tw: "last (p # takeWhile (\<lambda>x. x \<noteq> ws) (cs @ ws # bs)) = l"
        using xs(2) pc snoc last_snoc[of as' l] by (subst takeWhile_append2) auto
      have "timer_remove_loop ws p (hd (cs @ ws # bs)) s = Some ?u"
        using timer_remove_loop_removes[OF pr(1) d(7,6,4,5)] tw by simp
      then have "timer_queue_remove ws s = Some (?fin ?u)" using d by (simp add: timer_queue_remove_def)
      moreover have "timer_queue ?u (as @ bs)"
        using timer_queue_unlink[of s as' l ws bs ?W] q xs snoc W by auto
      ultimately show ?thesis using outside[of ?u] rm at by simp
    qed
  next
    case False
    have "timer_queue_remove ws s = Some (?fin s)"
    proof (cases xs)
      case Nil
      then show ?thesis using q pr by (simp add: timer_queue_def timer_queue_remove_def)
    next
      case (Cons p cs)
      have d: "tptr s = p" "p \<noteq> ws" "p \<noteq> NOT_PROCESS_P" "linked s WS_TLINK (p # cs)"
        "WORKSPACE_GET s (last (p # cs)) WS_TLINK = NOT_PROCESS_P" "distinct (p # cs)" "\<forall>x \<in> set cs. process x"
        "WORKSPACE_GET s p WS_TLINK = (if cs = [] then NOT_PROCESS_P else hd cs)"
        using q Cons False by (auto simp: timer_queue_def process_def) (cases cs; auto)+
      then show ?thesis using timer_remove_loop_removes[OF pr(1) d(7,6,4,5)] False Cons
        by (simp add: timer_queue_remove_def)
    qed
    then show ?thesis using outside[of s xs] q False at by (simp add: remove1_idem)
  qed
qed

lemma run_queue_cong:
  assumes "fptr t = fptr s" "xs \<noteq> [] \<Longrightarrow> bptr t = bptr s"
    and "\<forall>x \<in> set xs. WORKSPACE_GET t x WS_LINK = WORKSPACE_GET s x WS_LINK"
  shows "run_queue t xs \<longleftrightarrow> run_queue s xs"
proof -
  have "linked t WS_LINK xs \<longleftrightarrow> linked s WS_LINK xs"
    by (rule linked_cong) (use assms(3) in \<open>auto dest: in_set_butlastD\<close>)
  then show ?thesis using assms by (cases "xs = []") (simp_all add: run_queue_def)
qed

lemma run_queue_last_in: "run_queue s rs \<Longrightarrow> fptr s \<noteq> NOT_PROCESS_P \<Longrightarrow> bptr s \<in> set rs"
  by (auto simp: run_queue_def split: if_splits)

lemma add_to_queue_get:
  assumes "run_queue s rs" "ws_disjoint W" "insert p (set rs) \<subseteq> W" "w \<in> W" "k < 7" "k \<noteq> WS_LINK"
  shows "WORKSPACE_GET (add_to_queue p s) w k = WORKSPACE_GET s w k"
proof -
  have "fptr s \<noteq> NOT_PROCESS_P \<Longrightarrow> bptr s \<in> W" using run_queue_last_in assms(1,3) by blast
  then show ?thesis using assms(3-6) WS_get_set[OF assms(2)]
    by (simp add: add_to_queue_def Let_def)
qed

text \<open>Expiry of one process: it leaves the timer queue ready, and is queued unless it already is.\<close>

lemma expire_effect:
  assumes q: "run_queue s rs" and W: "ws_disjoint W" "insert p (set rs) \<subseteq> W"
    and fresh: "WORKSPACE_GET s p WS_STATE \<noteq> READY_P \<longrightarrow> p \<notin> set rs"
  shows "run_queue (expire p now s) (rs @ (if WORKSPACE_GET s p WS_STATE \<noteq> READY_P then [p] else []))"
    and "\<forall>w \<in> W. \<forall>k \<in> {WS_IPTR, WS_STATE, WS_TLINK, WS_TIME}. WORKSPACE_GET (expire p now s) w k =
       (if w \<noteq> p \<or> k = WS_IPTR then WORKSPACE_GET s w k
        else if k = WS_TLINK then TIME_SET_P else if k = WS_TIME then now else READY_P)"
    and "tptr (expire p now s) = tptr s" "tnext (expire p now s) = tnext s"
proof -
  let ?s1 = "WORKSPACE_SET p WS_TIME now (WORKSPACE_SET p WS_TLINK TIME_SET_P s)"
  let ?s2 = "WORKSPACE_SET p WS_STATE READY_P ?s1"
  have pW: "p \<in> W" using W(2) by simp
  have get: "w \<in> W \<Longrightarrow> k < 7 \<Longrightarrow> WORKSPACE_GET (WORKSPACE_SET p j v t) w k =
     (if w = p \<and> k = j then v else WORKSPACE_GET t w k)" if "j < 7" for w k j v t
    using WS_get_set[OF W(1)] pW that by simp
  have st: "WORKSPACE_GET ?s1 p WS_STATE = WORKSPACE_GET s p WS_STATE" using get pW by simp
  have rw: "x \<in> set rs \<Longrightarrow> x \<in> W" for x using W(2) by auto
  have q1: "run_queue ?s1 rs" "run_queue ?s2 rs"
    using q by (auto elim!: iffD2[OF run_queue_cong, rotated -1] simp: get rw)
  have pr: "process p" using W(1) pW by (simp add: process_def ws_disjoint_def)
  show "run_queue (expire p now s) (rs @ (if WORKSPACE_GET s p WS_STATE \<noteq> READY_P then [p] else []))"
    using add_to_queue_run_queue[OF q1(2) pr] q1(1) st fresh by (simp add: expire_def Let_def)
  have e: "expire p now s = (if WORKSPACE_GET s p WS_STATE \<noteq> READY_P then add_to_queue p ?s2 else ?s1)"
    using st by (simp add: expire_def Let_def)
  show "tptr (expire p now s) = tptr s" "tnext (expire p now s) = tnext s" by (simp_all add: e)
  show "\<forall>w \<in> W. \<forall>k \<in> {WS_IPTR, WS_STATE, WS_TLINK, WS_TIME}. WORKSPACE_GET (expire p now s) w k =
       (if w \<noteq> p \<or> k = WS_IPTR then WORKSPACE_GET s w k
        else if k = WS_TLINK then TIME_SET_P else if k = WS_TIME then now else READY_P)"
    using add_to_queue_get[OF q1(2) W] get by (auto simp: e)
qed

definition expired :: "mach \<Rightarrow> WORD \<Rightarrow> WORDPTR \<Rightarrow> bool" where
  "expired s now x \<longleftrightarrow> \<not> TIME_AFTER (wake s x) now"

definition sleeping :: "mach \<Rightarrow> WORDPTR \<Rightarrow> bool" where
  "sleeping s x \<longleftrightarrow> WORKSPACE_GET s x WS_STATE \<noteq> READY_P"

lemma walk_loop_walks:
  assumes "ws_disjoint W" "set (p # cs) \<union> set rs \<subseteq> W" "run_queue s rs"
    and "\<forall>x \<in> set (p # cs). sleeping s x \<longrightarrow> x \<notin> set rs"
    and "distinct (p # cs)" "linked s WS_TLINK (p # cs)" "WORKSPACE_GET s (last (p # cs)) WS_TLINK = NOT_PROCESS_P"
  shows "\<exists>s'. walk_loop p now s = Some s' \<and> timer_queue s' (dropWhile (expired s now) cs) \<and>
     run_queue s' (rs @ filter (sleeping s) (p # takeWhile (expired s now) cs)) \<and>
     (\<forall>w \<in> W. WORKSPACE_GET s' w WS_STATE = (if w \<in> set (p # takeWhile (expired s now) cs) then READY_P
        else WORKSPACE_GET s w WS_STATE))"
  using assms(2-)
proof (induction cs arbitrary: p rs s)
  case Nil
  let ?t = "expire p now s"
  note ex = expire_effect[of s rs W p now]
  have "run_queue (?t\<lparr>tptr := NOT_PROCESS_P\<rparr>) (rs @ filter (sleeping s) [p])"
    using ex(1) Nil assms(1) by (auto simp: sleeping_def run_queue_def)
  moreover have "timer_queue (?t\<lparr>tptr := NOT_PROCESS_P\<rparr>) []" by (simp add: timer_queue_def)
  ultimately show ?case using ex(2) Nil assms(1)
    by (subst walk_loop.simps) (auto simp: Let_def sleeping_def)
next
  case (Cons c cs)
  let ?t = "expire p now s"
  let ?rs = "rs @ (if sleeping s p then [p] else [])"
  have fresh: "WORKSPACE_GET s p WS_STATE \<noteq> READY_P \<longrightarrow> p \<notin> set rs"
    using Cons.prems(3) by (simp add: sleeping_def)
  have sub: "insert p (set rs) \<subseteq> W" using Cons.prems(1) by simp
  note ex = expire_effect[OF Cons.prems(2) assms(1) sub fresh, of now]
  have q: "run_queue ?t ?rs" using ex(1) by (simp add: sleeping_def)
  have same: "WORKSPACE_GET ?t x k = WORKSPACE_GET s x k"
    if "x \<in> set (c # cs)" "k \<in> {WS_STATE, WS_TLINK, WS_TIME}" for x k
    using ex(2) that Cons.prems(1,4) by auto
  have c: "c \<noteq> NOT_PROCESS_P" "WORKSPACE_GET s p WS_TLINK = c"
    using Cons.prems(1,5) ws_disjoint_not_null[OF assms(1)] by auto
  have link: "linked ?t WS_TLINK (c # cs) \<longleftrightarrow> linked s WS_TLINK (c # cs)"
    by (rule linked_cong) (rule same, erule in_set_butlastD, simp)
  have last: "WORKSPACE_GET ?t (last (c # cs)) WS_TLINK = NOT_PROCESS_P"
    using same[of "last (c # cs)" WS_TLINK] Cons.prems(6) by simp
  have pred: "x \<in> set (c # cs) \<Longrightarrow> expired ?t now x = expired s now x \<and> sleeping ?t x = sleeping s x" for x
    using same by (simp add: expired_def sleeping_def)
  have step: "walk_loop p now s =
     (if expired s now c then walk_loop c now ?t
      else Some (busy_wait_set_alarm (?t\<lparr>tptr := c, tnext := wake ?t c\<rparr>)))"
    using c pred[of c] by (subst walk_loop.simps) (simp add: Let_def expired_def)
  show ?case
  proof (cases "expired s now c")
    case True
    have "\<exists>s'. walk_loop c now ?t = Some s' \<and> timer_queue s' (dropWhile (expired ?t now) cs) \<and>
     run_queue s' (?rs @ filter (sleeping ?t) (c # takeWhile (expired ?t now) cs)) \<and>
     (\<forall>w \<in> W. WORKSPACE_GET s' w WS_STATE = (if w \<in> set (c # takeWhile (expired ?t now) cs) then READY_P
        else WORKSPACE_GET ?t w WS_STATE))"
      using Cons.prems(1,3,4,5) pred link last by (intro Cons.IH[OF _ q]) auto
    moreover have "takeWhile (expired ?t now) cs = takeWhile (expired s now) cs"
      "dropWhile (expired ?t now) cs = dropWhile (expired s now) cs"
      using pred by (auto cong: takeWhile_cong dropWhile_cong)
    moreover have "filter (sleeping ?t) (c # takeWhile (expired s now) cs) = filter (sleeping s) (c # takeWhile (expired s now) cs)"
      using pred by (intro filter_cong) (auto dest: set_takeWhileD)
    moreover have "p \<notin> set (c # takeWhile (expired s now) cs)" using Cons.prems(4) by (auto dest: set_takeWhileD)
    ultimately show ?thesis using step True ex(2) by auto
  next
    case False
    let ?u = "busy_wait_set_alarm (?t\<lparr>tptr := c, tnext := wake ?t c\<rparr>)"
    have "timer_queue ?u (c # cs)"
      using Cons.prems(1,4,5) assms(1) link last by (auto simp: timer_queue_def process_def ws_disjoint_def)
    moreover have "run_queue ?u ?rs"
      by (rule iffD2[OF run_queue_cong q]) simp_all
    ultimately show ?thesis using step False ex(2) by auto
  qed
qed

lemma walk_timer_queue_walks:
  assumes "ws_disjoint (set xs \<union> set rs)" "timer_queue s xs" "run_queue s rs"
    and "\<forall>x \<in> set xs. sleeping s x \<longrightarrow> x \<notin> set rs"
  shows "\<exists>s'. walk_timer_queue now s = Some s' \<and> timer_queue s' (dropWhile (expired s now) xs) \<and>
     run_queue s' (rs @ filter (sleeping s) (takeWhile (expired s now) xs)) \<and>
     (\<forall>w \<in> set xs \<union> set rs. WORKSPACE_GET s' w WS_STATE =
        (if w \<in> set (takeWhile (expired s now) xs) then READY_P else WORKSPACE_GET s w WS_STATE))"
proof (cases xs)
  case Nil
  then show ?thesis using assms by (simp add: walk_timer_queue_def timer_queue_def)
next
  case (Cons p cs)
  have d: "tptr s = p" "p \<noteq> NOT_PROCESS_P" "tnext s = wake s p" "distinct (p # cs)"
    "linked s WS_TLINK (p # cs)" "WORKSPACE_GET s (last (p # cs)) WS_TLINK = NOT_PROCESS_P"
    using assms(2) Cons by (auto simp: timer_queue_def process_def)
  show ?thesis
  proof (cases "expired s now p")
    case True
    then show ?thesis
      using walk_loop_walks[OF assms(1) _ assms(3), of p cs now] d assms(4) Cons
      by (simp add: walk_timer_queue_def expired_def)
  next
    case False
    then show ?thesis using assms d Cons by (auto simp: walk_timer_queue_def expired_def)
  qed
qed

section \<open>Properties\<close>



lemma timer_queue_ticks [simp]: "timer_queue (s\<lparr>ticks := n\<rparr>) xs = timer_queue s xs"
  "run_queue (s\<lparr>ticks := n\<rparr>) xs = run_queue s xs" "sleeping (s\<lparr>ticks := n\<rparr>) = sleeping s"
  "expired (s\<lparr>ticks := n\<rparr>) = expired s"
  by (auto simp: timer_queue_def run_queue_def sleeping_def expired_def fun_eq_iff)

lemma timer_queue_sflags [simp]: "timer_queue (s\<lparr>sflags := v\<rparr>) xs = timer_queue s xs"
  "run_queue (s\<lparr>sflags := v\<rparr>) xs = run_queue s xs"
  by (auto simp: timer_queue_def run_queue_def)

lemma synchronise_walks:
  assumes "ws_disjoint (set xs \<union> set rs)" "timer_queue s xs" "run_queue s rs"
    and "\<forall>x \<in> set xs. sleeping s x \<longrightarrow> x \<notin> set rs" and flags: "sflags s = SFLAG_TQ"
  defines "now \<equiv> clock s (ticks s)"
  shows "\<exists>t. busy_wait_synchronise s = Some (ECTX_CONTINUE, t) \<and>
     timer_queue t (dropWhile (expired s now) xs) \<and>
     run_queue t (rs @ filter (sleeping s) (takeWhile (expired s now) xs))"
proof -
  let ?s = "s\<lparr>ticks := Suc (ticks s)\<rparr>"
  obtain t where "walk_timer_queue now ?s = Some t" "timer_queue t (dropWhile (expired s now) xs)"
    "run_queue t (rs @ filter (sleeping s) (takeWhile (expired s now) xs))"
    using walk_timer_queue_walks[of xs rs ?s now] assms(1-4) by auto
  then show ?thesis using flags
    by (simp add: busy_wait_synchronise_def get_time_def now_def Let_def modify_sync_flags_def
        SFLAG_INTR_def SFLAG_TQ_def ECTX_CONTINUE_def)
qed

lemma timer_queue_dispatch [simp]:
  "timer_queue (s\<lparr>wptr := w\<rparr>) xs = timer_queue s xs" "timer_queue (s\<lparr>iptr := w\<rparr>) xs = timer_queue s xs"
  "timer_queue (s\<lparr>fptr := w\<rparr>) xs = timer_queue s xs" "timer_queue (s\<lparr>bptr := w\<rparr>) xs = timer_queue s xs"
  by (auto simp: timer_queue_def)

lemma dispatch_front_timer_queue: "dispatch_front s = Some (r, t) \<Longrightarrow> timer_queue t xs = timer_queue s xs"
  by (auto simp: dispatch_front_def Let_def split: if_splits)

lemma timer_queue_head: "timer_queue s xs \<Longrightarrow> tptr s = NOT_PROCESS_P \<longleftrightarrow> xs = []"
  by (cases xs) (auto simp: timer_queue_def process_def)

text \<open>What a call of the dispatcher leaves when the processes \<open>ps\<close> are ready and \<open>ts\<close> sleep.\<close>

definition dispatched :: "WORDPTR list \<Rightarrow> WORDPTR list \<Rightarrow> int \<Rightarrow> mach \<Rightarrow> bool" where
  "dispatched ps ts ret t \<longleftrightarrow> timer_queue t ts \<and>
     (case ps of [] \<Rightarrow> ret = (if ts = [] then ECTX_EMPTY else ECTX_SLEEP) \<and> wptr t = NOT_PROCESS_P \<and> run_queue t []
      | p # ps \<Rightarrow> ret = ECTX_CONTINUE \<and> wptr t = p \<and> run_queue t ps)"

lemma dispatch_front_dispatched:
  assumes "timer_queue s ts" "run_queue s ps"
  shows "\<exists>ret t. dispatch_front s = Some (ret, t) \<and> dispatched ps ts ret t"
proof (cases ps)
  case Nil
  then show ?thesis using assms dispatch_front_empty[of s] timer_queue_head[OF assms(1)]
    by (auto simp: dispatched_def run_queue_def)
next
  case (Cons p qs)
  then show ?thesis using dispatch_front_run_queue[of s p qs] assms dispatch_front_timer_queue
    by (fastforce simp: dispatched_def)
qed



lemmas concrete = WORKSPACE_GET_def WORKSPACE_SET_def get_put_word aligned_def wordptr_minus_def
  wordptr_plus_def tvm_consts

text \<open>Two sleepers, due at 50 and at 200.\<close>

definition two_sleepers :: mach where
  "two_sleepers = (WORKSPACE_SET 0x1000 WS_TIME 50 (WORKSPACE_SET 0x1000 WS_TLINK 0x2000
     (WORKSPACE_SET 0x2000 WS_TIME 200 blank)))\<lparr>tptr := 0x1000, tnext := 50, sflags := SFLAG_TQ\<rparr>"

lemma two_sleepers_queue:
  "ws_disjoint {0x1000, 0x2000}" "timer_queue two_sleepers [0x1000, 0x2000]" "run_queue two_sleepers []"
  by (simp_all add: ws_disjoint_def two_sleepers_def timer_queue_def run_queue_def process_def concrete)


lemma takeWhile_dropWhile_sorted:
  fixes f :: "'x \<Rightarrow> 'y :: linorder"
  assumes "sorted (map f xs)" "z \<in> set (dropWhile (\<lambda>x. f x \<le> c) xs)"
  shows "c < f z"
  using assms by (induction xs) (auto split: if_splits)

text \<open>C1: insertion keeps the timer queue sorted by wake-up time, first come first served among equals.\<close>

theorem timer_queue_insert_sorted:
  assumes "timer_queue s xs" "ws_disjoint (insert ws (set xs))" "ws \<notin> set xs"
    and t: "WORKSPACE_GET s ws WS_TIME = t" and win: "in_window b t" "\<forall>x \<in> set xs. in_window b (WORKSPACE_GET s x WS_TIME)"
    and srt: "sorted (map (\<lambda>x. WORKSPACE_GET s x WS_TIME - b) xs)"
  shows "\<exists>s' ys zs. xs = ys @ zs \<and> timer_queue_insert ws now t s = Some s' \<and> timer_queue s' (ys @ ws # zs) \<and>
     sorted (map (\<lambda>x. WORKSPACE_GET s' x WS_TIME - b) (ys @ ws # zs)) \<and>
     (\<forall>y \<in> set ys. \<not> TIME_AFTER (WORKSPACE_GET s y WS_TIME) t) \<and>
     (\<forall>z \<in> set zs. TIME_AFTER (WORKSPACE_GET s z WS_TIME) t)"
proof -
  define f P where "f x = wake s x - b" and "P x \<longleftrightarrow> \<not> TIME_AFTER (wake s x) t" for x
  define ys zs where "ys = takeWhile P xs" and "zs = dropWhile P xs"
  obtain s' where s': "timer_queue_insert ws now t s = Some s'" "timer_queue s' (timer_inserted s xs ws t)"
      "\<forall>x \<in> insert ws (set xs). wake s' x = wake s x"
    using timer_queue_insert_inserts[OF assms(1-3) t] by blast
  have ti: "timer_inserted s xs ws t = ys @ ws # zs"
    unfolding timer_inserted_def ys_def zs_def P_def[abs_def] ..
  have P: "P x \<longleftrightarrow> f x \<le> f ws" if "x \<in> set xs" for x
    using TIME_AFTER_window[of b "wake s x" t] win that t by (auto simp: P_def f_def)
  have y: "ys = takeWhile (\<lambda>x. f x \<le> f ws) xs" and z: "zs = dropWhile (\<lambda>x. f x \<le> f ws) xs"
    unfolding ys_def zs_def by (auto simp: P intro: takeWhile_cong dropWhile_cong)
  have fs: "sorted (map f xs)" using srt by (simp add: f_def[abs_def])
  have r1: "sorted (map f (ys @ ws # zs))" using sorted_insert_takeWhile[OF fs, of ws] y z by simp
  have r2: "map (\<lambda>x. wake s' x - b) (ys @ ws # zs) = map f (ys @ ws # zs)"
    using s'(3) by (intro map_cong refl) (auto simp: f_def ys_def zs_def dest: set_takeWhileD set_dropWhileD)
  have r3: "\<not> P x" if "x \<in> set zs" for x
    using takeWhile_dropWhile_sorted[OF fs] that z P by (metis not_le set_dropWhileD)
  have r4: "P x" if "x \<in> set ys" for x using that by (auto simp: ys_def dest: set_takeWhileD)
  have r5: "xs = ys @ zs" by (simp add: ys_def zs_def)
  show ?thesis
    by (rule exI[of _ s'], rule exI[of _ ys], rule exI[of _ zs])
      (use r1 r2 r3 r4 r5 s'(1,2) ti in \<open>simp only: P_def simp_thms ball_simps Ball_def; blast\<close>)
qed

text \<open>A third process, due at 120, whose workspace is at 0x3000.\<close>

theorem timer_queue_insert_sorted_witness:
  "\<exists>s' ys zs. [0x1000, 0x2000] = ys @ zs \<and>
     timer_queue_insert 0x3000 0 120 (WORKSPACE_SET 0x3000 WS_TIME 120 two_sleepers) = Some s' \<and>
     timer_queue s' (ys @ 0x3000 # zs) \<and>
     sorted (map (\<lambda>x. WORKSPACE_GET s' x WS_TIME - 0) (ys @ 0x3000 # zs)) \<and>
     (\<forall>y \<in> set ys. \<not> TIME_AFTER (WORKSPACE_GET (WORKSPACE_SET 0x3000 WS_TIME 120 two_sleepers) y WS_TIME) 120) \<and>
     (\<forall>z \<in> set zs. TIME_AFTER (WORKSPACE_GET (WORKSPACE_SET 0x3000 WS_TIME 120 two_sleepers) z WS_TIME) 120)"
  by (rule timer_queue_insert_sorted)
    (simp_all add: ws_disjoint_def two_sleepers_def timer_queue_def process_def concrete in_window_def)

text \<open>C3: removal takes exactly the given process out of the timer queue.\<close>

theorem timer_queue_remove_unlinks:
  assumes "timer_queue s xs" "ws_disjoint (insert ws (set xs))"
  shows "\<exists>s'. timer_queue_remove ws s = Some s' \<and> timer_queue s' (remove1 ws xs) \<and>
     WORKSPACE_GET s' ws WS_TLINK = TIME_NOT_SET_P"
  using timer_queue_remove_removes[OF assms] by blast

theorem timer_queue_remove_unlinks_witness:
  "\<exists>s'. timer_queue_remove 0x1000 two_sleepers = Some s' \<and> timer_queue s' [0x2000] \<and>
     WORKSPACE_GET s' 0x1000 WS_TLINK = TIME_NOT_SET_P"
  using timer_queue_remove_unlinks[of two_sleepers "[0x1000, 0x2000]" "0x1000"] two_sleepers_queue
  by (simp add: insert_absorb)

end
