(* ===== verification/TVM_Primary.thy ===== *)
theory TVM_Primary
  imports TVM_Machine
begin

text \<open>
  The primary instructions (ins_pri.c) other than \<open>opr\<close>, which dispatches and is in
  \<open>TVM_Dispatch\<close>, and \<open>ins_not_implemented\<close> (instructions.c). Each consumes the operand
  register; \<open>pfix\<close> and \<open>nfix\<close> build it up.
\<close>

definition ins_not_implemented :: instruction where
  "ins_not_implemented s = Some (ECTX_INS_UNSUPPORTED, s)"

section \<open>Overflow test\<close>

text \<open>The test of Hacker's Delight on the sum of two words, used by \<open>adc\<close>, \<open>add\<close> and \<open>ladd\<close>.\<close>

definition add_overflows :: "WORD \<Rightarrow> WORD \<Rightarrow> WORD \<Rightarrow> bool" where
  "add_overflows result x y \<longleftrightarrow>
     drop_bit (WORD_BITS - 1) ((result XOR x) AND (result XOR y)) \<noteq> 0"

section \<open>Instructions\<close>

definition ins_adc :: instruction where
  "ins_adc s =
     (let result = areg s + oreg s
      in SET_ERROR_FLAG_IF (add_overflows result (areg s) (oreg s)) EFLAG_INTOV
           (\<lambda>s. Some (ECTX_CONTINUE, CLEAR_OREG (s\<lparr>areg := result\<rparr>))) s)"

definition ins_ajw :: instruction where
  "ins_ajw s = Some (ECTX_CONTINUE, CLEAR_OREG (s\<lparr>wptr := wordptr_plus (wptr s) (oreg s)\<rparr>))"

definition ins_call :: instruction where
  "ins_call s =
     (let s = put_word (wordptr_minus (wptr s) (4 - 0)) (iptr s) s;
          s = put_word (wordptr_minus (wptr s) (4 - 1)) (areg s) s;
          s = put_word (wordptr_minus (wptr s) (4 - 2)) (breg s) s;
          s = put_word (wordptr_minus (wptr s) (4 - 3)) (creg s) s;
          s = s\<lparr>wptr := wordptr_minus (wptr s) 4\<rparr>;
          s = STACK1 (iptr s) s;
          s = s\<lparr>iptr := byteptr_plus (iptr s) (oreg s)\<rparr>
      in Some (ECTX_CONTINUE, CLEAR_OREG s))"

definition ins_cj :: instruction where
  "ins_cj s =
     (let s = (if areg s = 0 then s\<lparr>iptr := byteptr_plus (iptr s) (oreg s)\<rparr>
               else STACK2 (breg s) (creg s) s)
      in Some (ECTX_CONTINUE, CLEAR_OREG s))"

definition ins_eqc :: instruction where
  "ins_eqc s =
     Some (ECTX_CONTINUE, CLEAR_OREG (s\<lparr>areg := (if areg s = oreg s then 1 else 0)\<rparr>))"

definition ins_j :: instruction where
  "ins_j s = Some (ECTX_CONTINUE, CLEAR_OREG (s\<lparr>iptr := byteptr_plus (iptr s) (oreg s)\<rparr>))"

definition ins_ldc :: instruction where
  "ins_ldc s = Some (ECTX_CONTINUE, CLEAR_OREG (STACK (oreg s) (areg s) (breg s) s))"

definition ins_ldl :: instruction where
  "ins_ldl s =
     (let offset = wordptr_plus (wptr s) (oreg s)
      in Some (ECTX_CONTINUE, CLEAR_OREG (STACK (get_word s offset) (areg s) (breg s) s)))"

definition ins_ldlp :: instruction where
  "ins_ldlp s =
     Some (ECTX_CONTINUE, CLEAR_OREG (STACK (wordptr_plus (wptr s) (oreg s)) (areg s) (breg s) s))"

definition ins_ldnl :: instruction where
  "ins_ldnl s =
     (let offset = wordptr_plus (areg s) (oreg s)
      in Some (ECTX_CONTINUE, CLEAR_OREG (s\<lparr>areg := get_word s offset\<rparr>)))"

definition ins_ldnlp :: instruction where
  "ins_ldnlp s =
     Some (ECTX_CONTINUE, CLEAR_OREG (s\<lparr>areg := wordptr_plus (areg s) (oreg s)\<rparr>))"

definition ins_stl :: instruction where
  "ins_stl s =
     (let s = put_word (wordptr_plus (wptr s) (oreg s)) (areg s) s;
          s = CLEAR_OREG s
      in STACK2_RET (breg s) (creg s) s)"

definition ins_stnl :: instruction where
  "ins_stnl s =
     (let s = put_word (wordptr_plus (areg s) (oreg s)) (breg s) s;
          s = CLEAR_OREG s
      in STACK1_RET (creg s) s)"

definition ins_pfix :: instruction where
  "ins_pfix s = Some (ECTX_CONTINUE, s\<lparr>oreg := push_bit 4 (oreg s)\<rparr>)"

definition ins_nfix :: instruction where
  "ins_nfix s = Some (ECTX_CONTINUE, s\<lparr>oreg := push_bit 4 (NOT (oreg s))\<rparr>)"

lemmas primary_defs = ins_adc_def ins_ajw_def ins_call_def ins_cj_def ins_eqc_def ins_j_def
  ins_ldc_def ins_ldl_def ins_ldlp_def ins_ldnl_def ins_ldnlp_def ins_stl_def ins_stnl_def
  ins_pfix_def ins_nfix_def

end
