(* ===== verification/TVM_Arith.thy ===== *)
theory TVM_Arith
  imports TVM_Primary
begin

text \<open>
  Arithmetic, logic, checks and memory access: the instructions of ins_sec.c, ins_t800.c,
  ins_t9000.c and ins_pi.c that work on the evaluation stack and on memory alone. The long
  arithmetic has two bodies in the source, chosen by TVM_HAVE_TWOWORD; both are modelled
  (the one without a double word has the suffix \<open>_narrow\<close>).
\<close>

section \<open>Single-length arithmetic (ins_sec.c)\<close>

definition ins_rev :: instruction where
  "ins_rev s = STACK_RET (breg s) (areg s) (creg s) s"

definition ins_lb :: instruction where
  "ins_lb s = STACK_RET (ucast (get_byte s (areg s))) (breg s) (creg s) s"

definition ins_bsub :: instruction where
  "ins_bsub s = STACK2_RET (byteptr_plus (areg s) (breg s)) (creg s) s"

definition ins_diff :: instruction where
  "ins_diff s = STACK2_RET (breg s - areg s) (creg s) s"

definition ins_add :: instruction where
  "ins_add s =
     (let result = breg s + areg s
      in SET_ERROR_FLAG_IF (add_overflows result (breg s) (areg s)) EFLAG_INTOV
           (\<lambda>s. STACK2_RET result (creg s) s) s)"

definition ins_prod :: instruction where
  "ins_prod s = STACK2_RET (areg s * breg s) (creg s) s"

definition ins_gt :: instruction where
  "ins_gt s = (if areg s <s breg s then STACK2_RET 1 (creg s) s else STACK2_RET 0 (creg s) s)"

definition ins_wsub :: instruction where
  "ins_wsub s = STACK2_RET (wordptr_plus (areg s) (breg s)) (creg s) s"

text \<open>The overflow test on a difference, shared by \<open>sub\<close> and \<open>lsub\<close>.\<close>

definition sub_overflows :: "WORD \<Rightarrow> WORD \<Rightarrow> WORD \<Rightarrow> bool" where
  "sub_overflows result x y \<longleftrightarrow>
     drop_bit (WORD_BITS - 1) ((x XOR y) AND (result XOR x)) \<noteq> 0"

definition ins_sub :: instruction where
  "ins_sub s =
     (let result = breg s - areg s
      in SET_ERROR_FLAG_IF (sub_overflows result (breg s) (areg s)) EFLAG_INTOV
           (\<lambda>s. STACK2_RET (breg s - areg s) (creg s) s) s)"

definition ins_seterr :: instruction where
  "ins_seterr s = SET_ERROR_FLAG_RET EFLAG_SETERR s"

definition ins_csub0 :: instruction where
  "ins_csub0 s =
     SET_ERROR_FLAG_IF (breg s \<ge> areg s) EFLAG_INTERR (\<lambda>s. STACK2_RET (breg s) (creg s) s) s"

definition ins_xdble :: instruction where
  "ins_xdble s =
     (if areg s <s 0 then STACK_RET (areg s) (-1) (breg s) s
      else STACK_RET (areg s) 0 (breg s) s)"

text \<open>C division and remainder truncate towards zero.\<close>

definition div_overflows :: "WORD \<Rightarrow> WORD \<Rightarrow> bool" where
  "div_overflows x y \<longleftrightarrow> y = 0 \<or> (y = -1 \<and> x = MIN_INT)"

definition ins_rem :: instruction where
  "ins_rem s =
     SET_ERROR_FLAG_IF (div_overflows (breg s) (areg s)) EFLAG_INTOV
       (\<lambda>s. STACK2_RET (word_of_int (sint (breg s) smod sint (areg s))) (creg s) s) s"

definition ins_div :: instruction where
  "ins_div s =
     SET_ERROR_FLAG_IF (div_overflows (breg s) (areg s)) EFLAG_INTOV
       (\<lambda>s. STACK2_RET (word_of_int (sint (breg s) sdiv sint (areg s))) (creg s) s) s"

definition ins_not :: instruction where
  "ins_not s = STACK_RET (NOT (areg s)) (breg s) (creg s) s"

definition ins_xor :: instruction where
  "ins_xor s = STACK2_RET (areg s XOR breg s) (creg s) s"

definition ins_sb :: instruction where
  "ins_sb s = (let s = put_byte (areg s) (ucast (breg s)) s in STACK1_RET (creg s) s)"

definition ins_gajw :: instruction where
  "ins_gajw s = Some (ECTX_CONTINUE, s\<lparr>wptr := areg s, areg := wptr s\<rparr>)"

definition ins_shr :: instruction where
  "ins_shr s =
     STACK2_RET (if unat (areg s) \<ge> WORD_BITS then 0 else drop_bit (unat (areg s)) (breg s)) (creg s) s"

definition ins_shl :: instruction where
  "ins_shl s =
     STACK2_RET (if unat (areg s) \<ge> WORD_BITS then 0 else push_bit (unat (areg s)) (breg s)) (creg s) s"

definition ins_mint :: instruction where
  "ins_mint s = STACK_RET MIN_INT (areg s) (breg s) s"

definition ins_and :: instruction where
  "ins_and s = STACK2_RET (areg s AND breg s) (creg s) s"

definition ins_or :: instruction where
  "ins_or s = STACK2_RET (areg s OR breg s) (creg s) s"

definition ins_move :: instruction where
  "ins_move s = UNDEFINE_STACK_RET (memcpy (breg s) (creg s) (areg s) s)"

definition ins_csngl :: instruction where
  "ins_csngl s =
     SET_ERROR_FLAG_IF ((areg s <s 0 \<and> breg s \<noteq> -1) \<or> (0 \<le>s areg s \<and> breg s \<noteq> 0)) EFLAG_INTERR
       (\<lambda>s. STACK2_RET (areg s) (creg s) s) s"

definition ins_ccnt1 :: instruction where
  "ins_ccnt1 s =
     SET_ERROR_FLAG_IF (breg s = 0 \<or> breg s > areg s) EFLAG_INTERR
       (\<lambda>s. STACK2_RET (breg s) (creg s) s) s"

definition ins_sum :: instruction where
  "ins_sum s = STACK2_RET (areg s + breg s) (creg s) s"

definition ins_mul :: instruction where
  "ins_mul s = STACK2_RET (breg s * areg s) (creg s) s"

definition ins_cword :: instruction where
  "ins_cword s =
     SET_ERROR_FLAG_IF (areg s \<le>s breg s \<or> breg s <s - areg s) EFLAG_INTERR
       (\<lambda>s. STACK2_RET (breg s) (creg s) s) s"

definition ins_pop :: instruction where
  "ins_pop s = STACK2_RET (breg s) (creg s) s"

definition ins_shutdown :: instruction where
  "ins_shutdown s = Some (ECTX_SHUTDOWN, s)"

section \<open>Long arithmetic (ins_sec.c)\<close>

definition ins_ladd :: instruction where
  "ins_ladd s =
     (let result = breg s + areg s + (creg s AND 1)
      in SET_ERROR_FLAG_IF (add_overflows result (breg s) (areg s)) EFLAG_INTOV (STACK1_RET result) s)"

definition ins_lsub :: instruction where
  "ins_lsub s =
     (let result = breg s - areg s - (creg s AND 1)
      in SET_ERROR_FLAG_IF (sub_overflows result (breg s) (areg s)) EFLAG_INTOV (STACK1_RET result) s)"

definition ins_lsum :: instruction where
  "ins_lsum s =
     (let resnocarry = breg s + areg s;
          result = resnocarry + (creg s AND 1);
          carry = drop_bit (WORD_BITS - 1)
            ((breg s AND areg s) OR ((breg s OR areg s) AND NOT resnocarry))
      in STACK2_RET result carry s)"

definition ins_ldiff :: instruction where
  "ins_ldiff s =
     (let resnocarry = breg s - areg s;
          result = resnocarry - (creg s AND 1);
          equiv = (breg s AND areg s) - (breg s OR areg s) - 1;
          carry = drop_bit (WORD_BITS - 1) ((NOT (breg s) AND areg s) OR (equiv AND result))
      in STACK2_RET result carry s)"

partial_function (option) norm_loop :: "mach \<Rightarrow> mach option" where
  "norm_loop s =
     (if breg s AND MIN_INT = 0
      then (let s = s\<lparr>breg := push_bit 1 (breg s)\<rparr>;
                s = (if areg s AND MIN_INT \<noteq> 0 then s\<lparr>breg := breg s OR 1\<rparr> else s);
                s = s\<lparr>areg := push_bit 1 (areg s)\<rparr>
            in norm_loop (s\<lparr>creg := creg s + 1\<rparr>))
      else Some s)"

definition ins_norm :: instruction where
  "ins_norm s =
     (let s = s\<lparr>creg := 0\<rparr>
      in if areg s = 0 \<and> breg s = 0
         then Some (ECTX_CONTINUE, STACK (areg s) (breg s) (2 * of_nat WORD_BITS) s)
         else (case norm_loop s of None \<Rightarrow> None | Some s \<Rightarrow> Some (ECTX_CONTINUE, s)))"

definition join_words :: "WORD \<Rightarrow> WORD \<Rightarrow> UTWOWORD" where
  "join_words hi lo = push_bit WORD_BITS (ucast hi) OR ucast lo"

definition ins_ldiv :: instruction where
  "ins_ldiv s =
     (let v = join_words (creg s) (breg s)
      in if areg s = 0 then None
         else (let s = s\<lparr>breg := ucast (v mod ucast (areg s))\<rparr>;
                   s = s\<lparr>areg := ucast (v div ucast (areg s))\<rparr>
               in STACK2_RET (areg s) (breg s) s))"

definition ins_lmul :: instruction where
  "ins_lmul s =
     (let v = ucast (breg s) * ucast (areg s) + ucast (creg s) :: UTWOWORD;
          s = s\<lparr>areg := ucast (v AND LONG_LO_MASK)\<rparr>;
          s = s\<lparr>breg := ucast (drop_bit WORD_BITS v)\<rparr>
      in STACK2_RET (areg s) (breg s) s)"

definition ins_lshr :: instruction where
  "ins_lshr s =
     (let v = join_words (creg s) (breg s);
          s = (if unat (areg s) < TWOWORD_BITS
               then (let v = drop_bit (unat (areg s)) v
                     in s\<lparr>areg := ucast (v AND LONG_LO_MASK), breg := ucast (drop_bit WORD_BITS v)\<rparr>)
               else s\<lparr>areg := 0, breg := 0\<rparr>)
      in STACK2_RET (areg s) (breg s) s)"

definition ins_lshl :: instruction where
  "ins_lshl s =
     (let v = join_words (creg s) (breg s);
          s = (if unat (areg s) < TWOWORD_BITS
               then (let v = push_bit (unat (areg s)) v
                     in s\<lparr>areg := ucast (v AND LONG_LO_MASK), breg := ucast (drop_bit WORD_BITS v)\<rparr>)
               else s\<lparr>areg := 0, breg := 0\<rparr>)
      in STACK2_RET (areg s) (breg s) s)"

subsection \<open>Without a double word type\<close>

definition nlz :: "WORD \<Rightarrow> nat" where
  "nlz x =
     (if x = 0 then 32
      else (let n = 0;
                (n, x) = (if x \<le> 0x0000FFFF then (n + 16, push_bit 16 x) else (n, x));
                (n, x) = (if x \<le> 0x00FFFFFF then (n + 8, push_bit 8 x) else (n, x));
                (n, x) = (if x \<le> 0x0FFFFFFF then (n + 4, push_bit 4 x) else (n, x));
                (n, x) = (if x \<le> 0x3FFFFFFF then (n + 2, push_bit 2 x) else (n, x))
            in if x \<le> 0x7FFFFFFF then n + 1 else n))"

text \<open>The correction of a quotient digit: the loops labelled \<open>again1\<close> and \<open>again2\<close>.\<close>

partial_function (option) again :: "WORD \<Rightarrow> WORD \<Rightarrow> WORD \<Rightarrow> WORD \<Rightarrow> WORD \<Rightarrow> WORD option" where
  "again vn1 vn0 un q rhat =
     (let b = 65536
      in if q \<ge> b \<or> q * vn0 > b * rhat + un
         then (let q = q - 1; rhat = rhat + vn1
               in if rhat < b then again vn1 vn0 un q rhat else Some q)
         else Some q)"

definition ldiv_digit :: "WORD \<Rightarrow> WORD \<Rightarrow> WORD \<Rightarrow> WORD \<Rightarrow> WORD option" where
  "ldiv_digit vn1 vn0 un32 un =
     (if vn1 = 0 then None
      else (let q = un32 div vn1; rhat = un32 - q * vn1 in again vn1 vn0 un q rhat))"

definition ins_ldiv_narrow :: instruction where
  "ins_ldiv_narrow s =
     (let b = 65536; u1 = creg s; u0 = breg s; v = areg s
      in SET_ERROR_FLAG_IF (u1 \<ge> v) EFLAG_INTOV
           (\<lambda>s. let sh = nlz v;
                    v = push_bit sh v;
                    vn1 = drop_bit 16 v;
                    vn0 = v AND 0xFFFF;
                    un32 = push_bit sh u1 OR (drop_bit (32 - sh) u0 AND signed_drop_bit 31 (- of_nat sh));
                    un10 = push_bit sh u0;
                    un1 = drop_bit 16 un10;
                    un0 = un10 AND 0xFFFF
                in case ldiv_digit vn1 vn0 un32 un1 of
                     None \<Rightarrow> None
                   | Some q1 \<Rightarrow>
                       (let un21 = un32 * b + un1 - q1 * v
                        in case ldiv_digit vn1 vn0 un21 un0 of
                             None \<Rightarrow> None
                           | Some q0 \<Rightarrow>
                               (let s = s\<lparr>breg := drop_bit sh (un21 * b + un0 - q0 * v)\<rparr>;
                                    s = s\<lparr>areg := q1 * b + q0\<rparr>
                                in STACK2_RET (areg s) (breg s) s))) s)"

definition ins_lmul_narrow :: instruction where
  "ins_lmul_narrow s =
     (let u = breg s; v = areg s;
          u0 = drop_bit 16 u; u1 = u AND 0xFFFF;
          v0 = drop_bit 16 v; v1 = v AND 0xFFFF;
          t = u1 * v1;
          w3 = t AND 0xFFFF;
          k = drop_bit 16 t;
          t = u0 * v1 + k;
          w2 = t AND 0xFFFF;
          w1 = drop_bit 16 t;
          t = u1 * v0 + w2;
          k = drop_bit 16 t;
          s = s\<lparr>breg := u0 * v0 + w1 + k\<rparr>;
          s = s\<lparr>areg := push_bit 16 t + w3\<rparr>;
          res = areg s + creg s;
          carry = drop_bit 31 ((areg s AND creg s) OR ((areg s OR creg s) AND NOT res));
          s = s\<lparr>areg := res\<rparr>;
          s = s\<lparr>breg := breg s + carry\<rparr>
      in STACK2_RET (areg s) (breg s) s)"

text \<open>The shifting loops run AREG times when it is positive, at most 64.\<close>

definition shift_count :: "WORD \<Rightarrow> nat" where
  "shift_count a = (if 64 <s a then 64 else nat (sint a))"

fun lshr_loop :: "nat \<Rightarrow> mach \<Rightarrow> mach" where
  "lshr_loop 0 s = s"
| "lshr_loop (Suc n) s =
     (let b = (if creg s AND 1 = 0 then 0 else 0x80000000);
          s = s\<lparr>creg := drop_bit 1 (creg s)\<rparr>;
          s = s\<lparr>breg := drop_bit 1 (breg s)\<rparr>
      in lshr_loop n (s\<lparr>breg := breg s OR b\<rparr>))"

definition ins_lshr_narrow :: instruction where
  "ins_lshr_narrow s =
     (let n = shift_count (areg s);
          s = (if 64 <s areg s then s\<lparr>areg := 64\<rparr> else s);
          s = lshr_loop n s
      in STACK2_RET (breg s) (creg s) s)"

fun lshl_loop :: "nat \<Rightarrow> mach \<Rightarrow> mach" where
  "lshl_loop 0 s = s"
| "lshl_loop (Suc n) s =
     (let b = (if breg s AND 0x80000000 = 0 then 0 else 1);
          s = s\<lparr>breg := push_bit 1 (breg s)\<rparr>;
          s = s\<lparr>creg := push_bit 1 (creg s)\<rparr>
      in lshl_loop n (s\<lparr>creg := creg s OR b\<rparr>))"

definition ins_lshl_narrow :: instruction where
  "ins_lshl_narrow s =
     (let n = shift_count (areg s);
          s = (if 64 <s areg s then s\<lparr>areg := 64\<rparr> else s);
          s = lshl_loop n s
      in STACK2_RET (breg s) (creg s) s)"

section \<open>T800 (ins_t800.c)\<close>

definition ins_dup :: instruction where
  "ins_dup s = STACK_RET (areg s) (areg s) (breg s) s"

definition ins_wsubdb :: instruction where
  "ins_wsubdb s = STACK2_RET (wordptr_plus (areg s) (breg s * 2)) (creg s) s"

section \<open>T9000 (ins_t9000.c)\<close>

definition ins_xbword :: instruction where
  "ins_xbword s = STACK_RET (scast (ucast (areg s AND 0xff) :: BYTE)) (breg s) (creg s) s"

definition ins_lbx :: instruction where
  "ins_lbx s =
     (let s = s\<lparr>areg := scast (get_byte s (areg s))\<rparr> in STACK_RET (areg s) (breg s) (creg s) s)"

definition ins_cb :: instruction where
  "ins_cb s =
     SET_ERROR_FLAG_IF (areg s <s -128 \<or> 128 \<le>s areg s) EFLAG_INTERR
       (\<lambda>s. STACK_RET (areg s) (breg s) (creg s) s) s"

definition ins_cbu :: instruction where
  "ins_cbu s =
     SET_ERROR_FLAG_IF (areg s AND NOT 0xff \<noteq> 0) EFLAG_INTERR
       (\<lambda>s. STACK_RET (areg s) (breg s) (creg s) s) s"

definition ins_ssub :: instruction where
  "ins_ssub s = STACK2_RET (int16ptr_plus (areg s) (breg s)) (creg s) s"

definition ins_cir :: instruction where
  "ins_cir s =
     SET_ERROR_FLAG_IF (creg s <s areg s \<or> breg s <s creg s) EFLAG_INTERR
       (\<lambda>s. STACK1_RET (creg s) s) s"

definition ins_ss :: instruction where
  "ins_ss s =
     (let s = s\<lparr>mem := write_int16 (mem s) (areg s) (ucast (breg s AND 0xffff))\<rparr>
      in STACK1_RET (creg s) s)"

definition ins_ls :: instruction where
  "ins_ls s =
     (let h = read_int16 (mem s) (areg s)
      in STACK_RET (scast h AND 0xffff) (breg s) (creg s) s)"

definition ins_ciru :: instruction where
  "ins_ciru s =
     SET_ERROR_FLAG_IF (creg s < areg s \<or> creg s > breg s) EFLAG_INTERR
       (\<lambda>s. STACK1_RET (creg s) s) s"

definition ins_xsword :: instruction where
  "ins_xsword s = STACK_RET (scast (ucast (areg s AND 0xffff) :: INT16)) (breg s) (creg s) s"

definition ins_lsx :: instruction where
  "ins_lsx s =
     (let h = read_int16 (mem s) (areg s) in STACK_RET (scast h) (breg s) (creg s) s)"

definition ins_cs :: instruction where
  "ins_cs s =
     SET_ERROR_FLAG_IF (areg s <s -32768 \<or> 32768 \<le>s areg s) EFLAG_INTERR
       (\<lambda>s. STACK_RET (areg s) (breg s) (creg s) s) s"

definition ins_csu :: instruction where
  "ins_csu s =
     SET_ERROR_FLAG_IF (areg s AND NOT 0xffff \<noteq> 0) EFLAG_INTERR
       (\<lambda>s. STACK_RET (areg s) (breg s) (creg s) s) s"

section \<open>KRoC and occam-pi additions on the stack (ins_pi.c)\<close>

definition ins_boolinvert :: instruction where
  "ins_boolinvert s = STACK_RET (if areg s = 0 then 1 else 0) (breg s) (creg s) s"

definition ins_widenshort :: instruction where
  "ins_widenshort s = STACK_RET (scast (ucast (areg s) :: INT16)) (breg s) (creg s) s"

definition ins_getpri :: instruction where
  "ins_getpri s = STACK_RET 0 (areg s) (breg s) s"

definition ins_setpri :: instruction where
  "ins_setpri s = STACK2_RET (breg s) (creg s) s"

definition ins_savecreg :: instruction where
  "ins_savecreg s = Some (ECTX_CONTINUE, s\<lparr>creg_saved := creg s\<rparr>)"

definition ins_restorecreg :: instruction where
  "ins_restorecreg s = Some (ECTX_CONTINUE, s\<lparr>creg := creg_saved s\<rparr>)"

definition ins_checknotnull :: instruction where
  "ins_checknotnull s =
     (if areg s \<noteq> NULL_P then Some (ECTX_CONTINUE, s) else SET_ERROR_FLAG_RET EFLAG_SETERR s)"

definition ins_null :: instruction where
  "ins_null s = STACK_RET NULL_P (areg s) (breg s) s"

section \<open>Loops, calls and pointers to code (ins_sec.c, ins_pi.c)\<close>

definition ins_gcall :: instruction where
  "ins_gcall s =
     (let temp = areg s;
          s = s\<lparr>areg := iptr s\<rparr>;
          s = s\<lparr>iptr := temp\<rparr>;
          s = WORKSPACE_SET (wptr s) WS_TEMP (areg s) s
      in Some (ECTX_CONTINUE, s))"

definition ins_ldpi :: instruction where
  "ins_ldpi s = STACK_RET (byteptr_plus (iptr s) (areg s)) (breg s) (creg s) s"

definition ins_ret :: instruction where
  "ins_ret s =
     (let ret_addr = get_word s (wptr s);
          s = s\<lparr>iptr := ret_addr\<rparr>
      in Some (ECTX_CONTINUE, s\<lparr>wptr := wordptr_plus (wptr s) 4\<rparr>))"

definition ins_lend :: instruction where
  "ins_lend s =
     (let s = (if 1 <s get_word s (wordptr_plus (breg s) 1)
               then (let s = put_word (breg s) (get_word s (breg s) + 1) s;
                         s = put_word (wordptr_plus (breg s) 1) (get_word s (wordptr_plus (breg s) 1) - 1) s
                     in s\<lparr>iptr := byteptr_minus (iptr s) (areg s)\<rparr>)
               else put_word (wordptr_plus (breg s) 1) (get_word s (wordptr_plus (breg s) 1) - 1) s)
      in STACK2_RET (areg s) (breg s) s)"

definition ins_lend3 :: instruction where
  "ins_lend3 s =
     (let loopcount_ptr = wordptr_plus (breg s) 1;
          loopindex_ptr = breg s;
          loopcount = get_word s loopcount_ptr - 1;
          s = put_word loopcount_ptr loopcount s
      in if loopcount = 0 then Some (ECTX_CONTINUE, s)
         else (let loopstep_ptr = wordptr_plus (breg s) 2;
                   loopindex = get_word s loopindex_ptr;
                   step = get_word s loopstep_ptr;
                   s = put_word loopindex_ptr (loopindex + step) s
               in Some (ECTX_CONTINUE, s\<lparr>iptr := byteptr_minus (iptr s) (areg s)\<rparr>)))"

definition ins_lendb :: instruction where
  "ins_lendb s =
     (let loopcount_ptr = wordptr_plus (breg s) 1;
          loopindex_ptr = breg s;
          loopcount = get_word s loopcount_ptr - 1;
          s = put_word loopcount_ptr loopcount s
      in if loopcount = 0 then Some (ECTX_CONTINUE, s)
         else (let loopindex = get_word s loopindex_ptr - 1;
                   s = put_word loopindex_ptr loopindex s
               in Some (ECTX_CONTINUE, s\<lparr>iptr := byteptr_minus (iptr s) (areg s)\<rparr>)))"

end
