(* ===== verification/TVM_Process.thy ===== *)
theory TVM_Process
  imports TVM_TimerQueue TVM_Arith
begin

text \<open>
  The instructions that start, stop and reschedule processes (ins_sec.c, ins_pi.c, ins_timer.c).
  \<open>RUN_NEXT_ON_QUEUE_RET\<close> of scheduler.h is the call of \<open>run_next_on_queue\<close> as last action.
\<close>

section \<open>Parallel processes (ins_sec.c)\<close>

definition ins_endp :: instruction where
  "ins_endp s =
     (if get_word s (wordptr_plus (areg s) 1) = 1
      then (let s = put_word (wordptr_plus (areg s) 1) 0 s;
                s = s\<lparr>iptr := get_word s (areg s)\<rparr>;
                s = s\<lparr>wptr := areg s\<rparr>
            in UNDEFINE_STACK_RET s)
      else (let s = put_word (wordptr_plus (areg s) 1) (get_word s (wordptr_plus (areg s) 1) - 1) s
            in run_next_on_queue s))"

definition ins_startp :: instruction where
  "ins_startp s =
     UNDEFINE_STACK_RET (ADD_TO_QUEUE_IPTR (areg s) (byteptr_plus (iptr s) (breg s)) s)"

definition ins_runp :: instruction where
  "ins_runp s = ADD_TO_QUEUE_ECTX (areg s) s"

definition ins_stopp :: instruction where
  "ins_stopp s = run_next_on_queue (WORKSPACE_SET (wptr s) WS_IPTR (iptr s) s)"

definition ins_stoperr :: instruction where
  "ins_stoperr s =
     (if eflags s \<noteq> 0
      then (let s = put_word (wordptr_minus (wptr s) 1) (iptr s) s in run_next_on_queue s)
      else Some (ECTX_CONTINUE, s))"

definition ins_reschedule :: instruction where
  "ins_reschedule s = run_next_on_queue (DESCHEDULE_CURRENT s)"

section \<open>Timers (ins_timer.c)\<close>

definition ins_ldtimer :: instruction where
  "ins_ldtimer s = (let (now, s) = get_time s in STACK_RET now (areg s) (breg s) s)"

definition ins_tin :: instruction where
  "ins_tin s =
     (let (current_time, s) = get_time s;
          reschedule_time = areg s
      in if TIME_AFTER current_time reschedule_time then UNDEFINE_STACK_RET s
         else (let s = WORKSPACE_SET (wptr s) WS_TIME reschedule_time s;
                   s = WORKSPACE_SET (wptr s) WS_IPTR (iptr s) s
               in case timer_queue_insert (wptr s) current_time reschedule_time s of
                    None \<Rightarrow> None
                  | Some s \<Rightarrow>
                      (let s = WORKSPACE_SET (wptr s) WS_STATE NOT_PROCESS_P s
                       in run_next_on_queue s)))"

end
