(* ===== verification/TVM_Semaphore.thy ===== *)
theory TVM_Semaphore
  imports TVM_Process
begin

text \<open>
  The binary semaphore of ins_pi.c: two words, the front and the back of the queue of waiting
  processes; the front is \<open>NOT_PROCESS_P | 1\<close> when the semaphore is free.
\<close>

definition SEM_FPTR :: WORD where [tvm_consts]: "SEM_FPTR = 0"
definition SEM_BPTR :: WORD where [tvm_consts]: "SEM_BPTR = 1"

definition tvm_sem_init :: "WORDPTR \<Rightarrow> mach \<Rightarrow> mach" where
  "tvm_sem_init sem s =
     (let s = put_word sem (NOT_PROCESS_P OR 1) s
      in put_word (wordptr_plus sem 1) NOT_PROCESS_P s)"

definition tvm_sem_claim :: "WORDPTR \<Rightarrow> instruction" where
  "tvm_sem_claim sem s =
     (let sem_fptr = get_word s (wordptr_plus sem SEM_FPTR)
      in if sem_fptr = NOT_PROCESS_P OR 1
         then UNDEFINE_STACK_RET (put_word (wordptr_plus sem SEM_FPTR) NOT_PROCESS_P s)
         else (let s = WORKSPACE_SET (wptr s) WS_LINK NOT_PROCESS_P s;
                   s = WORKSPACE_SET (wptr s) WS_ECTX (self s) s;
                   s = WORKSPACE_SET (wptr s) WS_IPTR (iptr s) s;
                   s = (if sem_fptr = NOT_PROCESS_P
                        then (let s = put_word (wordptr_plus sem SEM_FPTR) (wptr s) s
                              in put_word (wordptr_plus sem SEM_BPTR) (wptr s) s)
                        else (let sem_bptr_ptr = wordptr_plus sem SEM_BPTR;
                                  sem_bptr = get_word s sem_bptr_ptr;
                                  s = WORKSPACE_SET sem_bptr WS_LINK (wptr s) s
                              in put_word sem_bptr_ptr (wptr s) s))
               in run_next_on_queue s))"

definition tvm_sem_release :: "WORDPTR \<Rightarrow> instruction" where
  "tvm_sem_release sem s =
     (let sem_fptr_ptr = wordptr_plus sem SEM_FPTR;
          sem_fptr = get_word s sem_fptr_ptr
      in if sem_fptr = NOT_PROCESS_P
         then UNDEFINE_STACK_RET (put_word sem_fptr_ptr (NOT_PROCESS_P OR 1) s)
         else (let s = put_word sem_fptr_ptr (WORKSPACE_GET s sem_fptr WS_LINK) s
               in ADD_TO_QUEUE_ECTX sem_fptr s))"

definition ins_sem_init :: instruction where
  "ins_sem_init s = UNDEFINE_STACK_RET (tvm_sem_init (areg s) s)"

definition ins_sem_claim :: instruction where
  "ins_sem_claim s = tvm_sem_claim (areg s) s"

definition ins_sem_release :: instruction where
  "ins_sem_release s = tvm_sem_release (areg s) s"

end
