(* ===== verification/TVM_Barrier.thy ===== *)
theory TVM_Barrier
  imports TVM_Process
begin

text \<open>
  Barriers (ins_barrier.c): four words, the number of enrolled processes, the number still to
  arrive, and the front and back of the queue of processes that wait.
\<close>

definition BAR_ENROLLED :: WORD where [tvm_consts]: "BAR_ENROLLED = 0"
definition BAR_COUNT :: WORD where [tvm_consts]: "BAR_COUNT = 1"
definition BAR_FPTR :: WORD where [tvm_consts]: "BAR_FPTR = 2"
definition BAR_BPTR :: WORD where [tvm_consts]: "BAR_BPTR = 3"

definition tvm_bar_complete :: "WORDPTR \<Rightarrow> mach \<Rightarrow> mach" where
  "tvm_bar_complete bar s =
     (let enrolled = get_word s (wordptr_plus bar BAR_ENROLLED);
          bar_fptr = get_word s (wordptr_plus bar BAR_FPTR);
          bar_bptr = get_word s (wordptr_plus bar BAR_BPTR);
          s = put_word (wordptr_plus bar BAR_COUNT) enrolled s;
          s = put_word (wordptr_plus bar BAR_FPTR) NOT_PROCESS_P s;
          s = put_word (wordptr_plus bar BAR_BPTR) NOT_PROCESS_P s
      in if bar_fptr \<noteq> NOT_PROCESS_P then add_queue_to_queue bar_fptr bar_bptr s else s)"

definition tvm_bar_init :: "WORDPTR \<Rightarrow> UWORD \<Rightarrow> mach \<Rightarrow> mach" where
  "tvm_bar_init bar initial_count s =
     (let s = put_word (wordptr_plus bar BAR_ENROLLED) initial_count s;
          s = put_word (wordptr_plus bar BAR_COUNT) initial_count s;
          s = put_word (wordptr_plus bar BAR_FPTR) NOT_PROCESS_P s
      in put_word (wordptr_plus bar BAR_BPTR) NOT_PROCESS_P s)"

definition tvm_bar_sync :: "WORDPTR \<Rightarrow> instruction" where
  "tvm_bar_sync bar s =
     (let count = get_word s (wordptr_plus bar BAR_COUNT)
      in if count > 1
         then (let bar_bptr = get_word s (wordptr_plus bar BAR_BPTR);
                   s = put_word (wordptr_plus bar BAR_COUNT) (count - 1) s;
                   s = WORKSPACE_SET (wptr s) WS_LINK bar_bptr s;
                   s = WORKSPACE_SET (wptr s) WS_ECTX (self s) s;
                   s = WORKSPACE_SET (wptr s) WS_IPTR (iptr s) s;
                   s = (if bar_bptr = NOT_PROCESS_P
                        then put_word (wordptr_plus bar BAR_FPTR) (wptr s) s
                        else WORKSPACE_SET bar_bptr WS_LINK (wptr s) s);
                   s = put_word (wordptr_plus bar BAR_BPTR) (wptr s) s
               in run_next_on_queue s)
         else Some (ECTX_CONTINUE, tvm_bar_complete bar s))"

definition tvm_bar_enroll :: "WORDPTR \<Rightarrow> UWORD \<Rightarrow> instruction" where
  "tvm_bar_enroll bar enroll_count s =
     (let enrolled = get_word s (wordptr_plus bar BAR_ENROLLED);
          count = get_word s (wordptr_plus bar BAR_COUNT)
      in SET_ERROR_FLAG_IF (enrolled + enroll_count < enrolled) EFLAG_BAR
           (\<lambda>s. let s = put_word (wordptr_plus bar BAR_ENROLLED) (enrolled + enroll_count) s;
                    s = put_word (wordptr_plus bar BAR_COUNT) (count + enroll_count) s
                in Some (ECTX_CONTINUE, s)) s)"

definition tvm_bar_resign :: "WORDPTR \<Rightarrow> UWORD \<Rightarrow> instruction" where
  "tvm_bar_resign bar resign_count s =
     (let enrolled = get_word s (wordptr_plus bar BAR_ENROLLED);
          count = get_word s (wordptr_plus bar BAR_COUNT)
      in SET_ERROR_FLAG_IF (resign_count > enrolled \<or> resign_count > count) EFLAG_BAR
           (\<lambda>s. let s = put_word (wordptr_plus bar BAR_ENROLLED) (enrolled - resign_count) s;
                    count = count - resign_count;
                    s = (if count \<ge> 1 then put_word (wordptr_plus bar BAR_COUNT) count s
                         else tvm_bar_complete bar s)
                in Some (ECTX_CONTINUE, s)) s)"

end
