(* ===== verification/TVM_Env.thy ===== *)
theory TVM_Env
  imports TVM_Process
begin

text \<open>
  What a program embedding the machine supplies: tables of foreign functions and external
  channels, external channel bundle interfaces and the run hook (transputer.h). Their code is
  not part of the machine, so they are parameters, collected in the record \<open>env\<close>; a null
  function pointer is \<open>None\<close> and a null table is the empty list. The instructions that call
  them are here (ins_pi.c).
\<close>

record EXT_CHAN_ENTRY =
  typehash :: UWORD
  ec_in :: "(WORD \<Rightarrow> BYTEPTR \<Rightarrow> instruction) option"
  ec_out :: "(WORD \<Rightarrow> BYTEPTR \<Rightarrow> instruction) option"
  ec_mt_in :: "(WORDPTR \<Rightarrow> instruction) option"
  ec_mt_out :: "(WORDPTR \<Rightarrow> instruction) option"

record EXT_CB_INTERFACE =
  cb_in :: "(WORD \<Rightarrow> WORDPTR \<Rightarrow> BYTEPTR \<Rightarrow> WORD \<Rightarrow> instruction) option"
  cb_out :: "(WORD \<Rightarrow> WORDPTR \<Rightarrow> BYTEPTR \<Rightarrow> WORD \<Rightarrow> instruction) option"
  cb_swap :: "(WORD \<Rightarrow> WORDPTR \<Rightarrow> BYTEPTR \<Rightarrow> WORD \<Rightarrow> instruction) option"
  cb_mt_in :: "(WORD \<Rightarrow> WORDPTR \<Rightarrow> WORDPTR \<Rightarrow> instruction) option"
  cb_mt_out :: "(WORD \<Rightarrow> WORDPTR \<Rightarrow> WORDPTR \<Rightarrow> instruction) option"
  cb_xable :: "(WORD \<Rightarrow> WORDPTR \<Rightarrow> instruction) option"
  cb_xin :: "(WORD \<Rightarrow> WORDPTR \<Rightarrow> BYTEPTR \<Rightarrow> WORD \<Rightarrow> instruction) option"
  cb_mt_xin :: "(WORD \<Rightarrow> WORDPTR \<Rightarrow> WORDPTR \<Rightarrow> instruction) option"
  cb_free :: "(WORD \<Rightarrow> mach \<Rightarrow> mach option) option"

text \<open>
  \<open>cb_interface\<close> gives the interface a (non-null) address holds, \<open>None\<close> where it holds none:
  calling through such an address is undefined.
\<close>

record env =
  ffi_table :: "(WORDPTR \<Rightarrow> mach \<Rightarrow> mach option) option list"
  sffi_table :: "(WORDPTR \<Rightarrow> instruction) option list"
  ext_chan_table :: "EXT_CHAN_ENTRY list"
  cb_interface :: "WORD \<Rightarrow> EXT_CB_INTERFACE option"
  run_hook :: "instruction option"

definition SFFI_OK :: int where [tvm_consts]: "SFFI_OK = ECTX_CONTINUE"

section \<open>External channel bundles in memory (mt_cb_ext_t)\<close>

definition mt_cb_ext_interface :: "mach \<Rightarrow> WORDPTR \<Rightarrow> WORD" where
  "mt_cb_ext_interface s cb = get_word s (wordptr_plus cb 0)"

definition mt_cb_ext_data :: "mach \<Rightarrow> WORDPTR \<Rightarrow> WORD" where
  "mt_cb_ext_data s cb = get_word s (wordptr_plus cb 1)"

section \<open>Foreign calls (ins_pi.c)\<close>

definition table_entry :: "'a option list \<Rightarrow> UWORD \<Rightarrow> 'a option" where
  "table_entry t i = (if unat i < length t then t ! unat i else None)"

definition ins_fficall :: "env \<Rightarrow> instruction" where
  "ins_fficall e s =
     (let args = wordptr_plus (wptr s) 1
      in if 0 \<le>s areg s
         then (case table_entry (ffi_table e) (areg s) of
                 Some func \<Rightarrow> (case func args s of None \<Rightarrow> None | Some s \<Rightarrow> ins_ret s)
               | None \<Rightarrow> SET_ERROR_FLAG_IF True EFLAG_FFI ins_ret s)
         else (let index = - (areg s + 1);
                   result = (case table_entry (sffi_table e) index of
                               Some func \<Rightarrow> func args s
                             | None \<Rightarrow> SET_ERROR_FLAG_IF True EFLAG_FFI (\<lambda>s. Some (ECTX_CONTINUE, s)) s)
               in case result of
                    None \<Rightarrow> None
                  | Some (ret, s) \<Rightarrow>
                      if ret = ECTX_CONTINUE then ins_ret s
                      else if ret = SFFI_BYPASS then Some (ECTX_CONTINUE, s)
                      else if ret = SFFI_RESCHEDULE then run_next_on_queue s
                      else Some (ret, s)))"

section \<open>External channels (ins_pi.c)\<close>

definition ext_chan :: "env \<Rightarrow> UWORD \<Rightarrow> EXT_CHAN_ENTRY option" where
  "ext_chan e i = (if unat i < length (ext_chan_table e) then Some (ext_chan_table e ! unat i) else None)"

definition ins_extvrfy :: "env \<Rightarrow> instruction" where
  "ins_extvrfy e s =
     (let hash = areg s; index = drop_bit 1 (breg s)
      in case ext_chan e index of
           None \<Rightarrow> SET_ERROR_FLAG_RET EFLAG_EXTCHAN s
         | Some c \<Rightarrow>
             if typehash c = 0 then UNDEFINE_STACK_RET s
             else SET_ERROR_FLAG_IF (typehash c \<noteq> hash) EFLAG_EXTCHAN UNDEFINE_STACK_RET s)"

definition ins_extin :: "env \<Rightarrow> instruction" where
  "ins_extin e s =
     (case Option.bind (ext_chan e (drop_bit 1 (breg s))) ec_in of
        Some func \<Rightarrow> func (areg s) (creg s) s
      | None \<Rightarrow> SET_ERROR_FLAG_RET EFLAG_EXTCHAN s)"

definition ins_extout :: "env \<Rightarrow> instruction" where
  "ins_extout e s =
     (case Option.bind (ext_chan e (drop_bit 1 (breg s))) ec_out of
        Some func \<Rightarrow> func (areg s) (creg s) s
      | None \<Rightarrow> SET_ERROR_FLAG_RET EFLAG_EXTCHAN s)"

definition ins_ext_mt_in :: "env \<Rightarrow> instruction" where
  "ins_ext_mt_in e s =
     (case Option.bind (ext_chan e (drop_bit 1 (areg s))) ec_mt_in of
        Some func \<Rightarrow> func (breg s) s
      | None \<Rightarrow> SET_ERROR_FLAG_RET EFLAG_EXTCHAN s)"

definition ins_ext_mt_out :: "env \<Rightarrow> instruction" where
  "ins_ext_mt_out e s =
     (case Option.bind (ext_chan e (drop_bit 1 (areg s))) ec_mt_out of
        Some func \<Rightarrow> func (breg s) s
      | None \<Rightarrow> SET_ERROR_FLAG_RET EFLAG_EXTCHAN s)"

end
