(* ===== verification/TVM_Channel.thy ===== *)
theory TVM_Channel
  imports TVM_Env
begin

text \<open>
  Channel communication (ins_chan.c) and the extended input of ins_pi.c. A channel is a word of
  memory: null when idle, a process that waits in it, a process that is alting on it (low bit
  set), the address of an external channel bundle (bit 1 set), or the value 1 when the other
  end has gone. The core \<open>chan_io\<close> returns a code and, through \<open>requeue\<close>, the process to
  resume.
\<close>

type_synonym CHAN_IO_OK = "BYTEPTR \<Rightarrow> WORD \<Rightarrow> WORDPTR \<Rightarrow> instruction"
type_synonym CHAN_IO_DC = "BYTEPTR \<Rightarrow> WORD \<Rightarrow> instruction"
type_synonym CHAN_IO_EXT = "EXT_CB_INTERFACE \<Rightarrow> WORD \<Rightarrow> WORDPTR \<Rightarrow> BYTEPTR \<Rightarrow> WORD \<Rightarrow> instruction"

section \<open>Data movement\<close>

definition channel_input :: CHAN_IO_OK where
  "channel_input dst_ptr len src_wptr s =
     (let src_ptr = WORKSPACE_GET s src_wptr WS_POINTER
      in Some (ECTX_CONTINUE, memcpy dst_ptr src_ptr len s))"

definition channel_output :: CHAN_IO_OK where
  "channel_output src_ptr len dst_wptr s =
     (let dst_ptr = WORKSPACE_GET s dst_wptr WS_POINTER
      in Some (ECTX_CONTINUE, memcpy dst_ptr src_ptr (- len) s))"

definition channel_swap :: CHAN_IO_OK where
  "channel_swap src_ptr len dst_wptr s =
     (let dst_ptr = WORKSPACE_GET s dst_wptr WS_POINTER
      in Some (ECTX_CONTINUE, s\<lparr>mem := swap_data_word dst_ptr src_ptr (mem s)\<rparr>))"

fun zero_bytes :: "nat \<Rightarrow> BYTEPTR \<Rightarrow> mach \<Rightarrow> mach" where
  "zero_bytes 0 dst_ptr s = s"
| "zero_bytes (Suc n) dst_ptr s = zero_bytes n (byteptr_plus dst_ptr 1) (put_byte dst_ptr 0 s)"

definition channel_dc_input :: CHAN_IO_DC where
  "channel_dc_input dst_ptr len s = Some (ECTX_CONTINUE, zero_bytes (unat len) dst_ptr s)"

definition channel_dc_nop :: CHAN_IO_DC where
  "channel_dc_nop ptr len s = Some (ECTX_CONTINUE, s)"

definition channel_ext_input :: CHAN_IO_EXT where
  "channel_ext_input intf ext_data chan_ptr data_ptr data_len s =
     (case cb_in intf of
        Some f \<Rightarrow> f ext_data chan_ptr data_ptr data_len s
      | None \<Rightarrow> SET_ERROR_FLAG_RET EFLAG_EXTCHAN s)"

definition channel_ext_output :: CHAN_IO_EXT where
  "channel_ext_output intf ext_data chan_ptr data_ptr data_len s =
     (case cb_out intf of
        Some f \<Rightarrow> f ext_data chan_ptr data_ptr (- data_len) s
      | None \<Rightarrow> SET_ERROR_FLAG_RET EFLAG_EXTCHAN s)"

definition channel_ext_swap :: CHAN_IO_EXT where
  "channel_ext_swap intf ext_data chan_ptr data_ptr data_len s =
     (case cb_swap intf of
        Some f \<Rightarrow> f ext_data chan_ptr data_ptr data_len s
      | None \<Rightarrow> SET_ERROR_FLAG_RET EFLAG_EXTCHAN s)"

section \<open>The core\<close>

text \<open>The end of \<open>chan_io\<close>: the process waits in the channel.\<close>

definition chan_block :: "WORDPTR \<Rightarrow> BYTEPTR \<Rightarrow> WORD \<Rightarrow> mach \<Rightarrow> mach" where
  "chan_block chan_ptr data_ptr data_len s =
     (let s = WORKSPACE_SET (wptr s) WS_POINTER data_ptr s;
          s = WORKSPACE_SET (wptr s) WS_ECTX (self s) s;
          s = WORKSPACE_SET (wptr s) WS_PENDING data_len s;
          s = WORKSPACE_SET (wptr s) WS_IPTR (iptr s) s
      in put_word chan_ptr (wptr s) s)"

definition chan_io ::
    "env \<Rightarrow> WORDPTR \<Rightarrow> BYTEPTR \<Rightarrow> WORD \<Rightarrow> CHAN_IO_OK \<Rightarrow> CHAN_IO_DC \<Rightarrow> CHAN_IO_EXT \<Rightarrow>
     mach \<Rightarrow> (int \<times> WORDPTR) result" where
  "chan_io e chan_ptr data_ptr data_len data dc ext s =
     (let chan_value = get_word s chan_ptr;
          other_WPTR = chan_value AND NOT 1;
          requeue = chan_value;
          ret_with = (\<lambda>rq r. case r of None \<Rightarrow> None | Some (ret, s) \<Rightarrow> Some ((ret, rq), s));
          block = (\<lambda>rq s. Some ((ECTX_DESCHEDULE', rq), chan_block chan_ptr data_ptr data_len s))
      in if chan_value \<noteq> NOT_PROCESS_P
         then if chan_value AND 2 \<noteq> 0
           then (let cb = chan_value AND NOT 3;
                     intf = mt_cb_ext_interface s cb;
                     ext_data = mt_cb_ext_data s cb;
                     requeue = NOT_PROCESS_P
                 in if intf \<noteq> 0
                    then (case cb_interface e intf of
                            None \<Rightarrow> None
                          | Some i \<Rightarrow>
                              (case ext i ext_data chan_ptr data_ptr data_len s of
                                 None \<Rightarrow> None
                               | Some (ret, s) \<Rightarrow>
                                   Some ((if ret = ECTX_CONTINUE then ECTX_BYPASS' else ret, requeue), s)))
                    else ret_with requeue (SET_ERROR_FLAG_RET EFLAG_EXTCHAN s))
           else if chan_value AND 1 = 0
           then (let s = put_word chan_ptr NOT_PROCESS_P s
                 in ret_with requeue (data data_ptr data_len other_WPTR s))
           else if other_WPTR \<noteq> NOT_PROCESS_P
           then (let alt_state = WORKSPACE_GET s other_WPTR WS_STATE;
                     requeue = (if alt_state \<noteq> WAITING_P then NOT_PROCESS_P else requeue)
                 in if alt_state = WAITING_P \<or> alt_state = ENABLING_P
                    then block requeue (WORKSPACE_SET other_WPTR WS_STATE DISABLING_P s)
                    else if alt_state = DISABLING_P then block requeue s
                    else ret_with requeue (SET_ERROR_FLAG_RET EFLAG_CHAN s))
           else ret_with requeue (dc data_ptr data_len s)
         else block requeue s)"

definition chan_std_io ::
    "env \<Rightarrow> WORDPTR \<Rightarrow> BYTEPTR \<Rightarrow> WORD \<Rightarrow> CHAN_IO_OK \<Rightarrow> CHAN_IO_DC \<Rightarrow> CHAN_IO_EXT \<Rightarrow> instruction" where
  "chan_std_io e chan_ptr data_ptr data_len data dc ext s =
     (case chan_io e chan_ptr data_ptr data_len data dc ext s of
        None \<Rightarrow> None
      | Some ((ret, requeue), s) \<Rightarrow>
          (let resume = (\<lambda>s. let requeue = requeue AND NOT 1
                             in if requeue \<noteq> NOT_PROCESS_P then LOAD_PROCESS_RET requeue s
                                else run_next_on_queue s)
           in if ret = ECTX_CONTINUE \<and> requeue \<noteq> NOT_PROCESS_P then resume (DESCHEDULE_CURRENT s)
              else if ret > 0 then Some (ret, s)
              else if ret = ECTX_BYPASS' then Some (ECTX_CONTINUE, s)
              else resume s))"

definition chan_in :: "env \<Rightarrow> WORD \<Rightarrow> WORDPTR \<Rightarrow> BYTEPTR \<Rightarrow> instruction" where
  "chan_in e num_bytes chan_ptr write_start =
     chan_std_io e chan_ptr write_start num_bytes channel_input channel_dc_input channel_ext_input"

definition chan_out :: "env \<Rightarrow> WORD \<Rightarrow> WORDPTR \<Rightarrow> BYTEPTR \<Rightarrow> instruction" where
  "chan_out e num_bytes chan_ptr read_start =
     chan_std_io e chan_ptr read_start (- num_bytes) channel_output channel_dc_nop channel_ext_output"

definition chan_swap :: "env \<Rightarrow> WORDPTR \<Rightarrow> WORDPTR \<Rightarrow> instruction" where
  "chan_swap e chan_ptr data_ptr =
     chan_std_io e chan_ptr data_ptr 0 channel_swap channel_dc_nop channel_ext_swap"

section \<open>Instructions (ins_chan.c)\<close>

definition ins_in :: "env \<Rightarrow> instruction" where
  "ins_in e s =
     (let data_ptr = creg s; chan_ptr = breg s; bytes = areg s in chan_in e bytes chan_ptr data_ptr s)"

definition ins_out :: "env \<Rightarrow> instruction" where
  "ins_out e s =
     (let data_ptr = creg s; chan_ptr = breg s; bytes = areg s in chan_out e bytes chan_ptr data_ptr s)"

definition ins_outbyte :: "env \<Rightarrow> instruction" where
  "ins_outbyte e s =
     (let data_ptr = wptr s; chan_ptr = breg s; data = ucast (areg s);
          s = put_byte data_ptr data s
      in chan_out e 1 chan_ptr data_ptr s)"

definition ins_outword :: "env \<Rightarrow> instruction" where
  "ins_outword e s =
     (let data_ptr = wptr s; chan_ptr = breg s; data = areg s;
          s = put_word data_ptr data s
      in chan_out e 4 chan_ptr data_ptr s)"

section \<open>Extended rendezvous (ins_pi.c)\<close>

definition ins_xable :: "env \<Rightarrow> instruction" where
  "ins_xable e s =
     (let chan_ptr = areg s; chan_value = get_word s chan_ptr
      in if chan_value AND 2 \<noteq> 0
         then (let cb = chan_value AND NOT 3;
                   intf = mt_cb_ext_interface s cb;
                   ext_data = mt_cb_ext_data s cb
               in if intf \<noteq> 0
                  then (case cb_interface e intf of
                          None \<Rightarrow> None
                        | Some i \<Rightarrow>
                            (case cb_xable i of
                               Some f \<Rightarrow> f ext_data chan_ptr s
                             | None \<Rightarrow> SET_ERROR_FLAG_RET EFLAG_EXTCHAN s))
                  else SET_ERROR_FLAG_RET EFLAG_EXTCHAN s)
         else if chan_value = NOT_PROCESS_P
         then (let s = WORKSPACE_SET (wptr s) WS_STATE WAITING_P s;
                   s = WORKSPACE_SET (wptr s) WS_ECTX (self s) s;
                   s = WORKSPACE_SET (wptr s) WS_PENDING chan_ptr s;
                   s = WORKSPACE_SET (wptr s) WS_IPTR (iptr s) s;
                   s = put_word chan_ptr (wptr s OR 1) s
               in run_next_on_queue s)
         else UNDEFINE_STACK_RET s)"

definition channel_ext_xin :: CHAN_IO_EXT where
  "channel_ext_xin intf ext_data chan_ptr data_ptr data_len s =
     (case cb_xin intf of
        Some f \<Rightarrow> f ext_data chan_ptr data_ptr data_len s
      | None \<Rightarrow> SET_ERROR_FLAG_RET EFLAG_EXTCHAN s)"

definition ins_xin :: "env \<Rightarrow> instruction" where
  "ins_xin e s =
     (let data_ptr = creg s; chan_ptr = breg s; data_len = areg s
      in case chan_io e chan_ptr data_ptr data_len channel_input channel_dc_input channel_ext_xin s of
           None \<Rightarrow> None
         | Some ((ret, requeue), s) \<Rightarrow>
             if ret > 0 then Some (ret, s)
             else if ret \<noteq> 0 then SET_ERROR_FLAG_RET EFLAG_CHAN s
             else if requeue = NOT_PROCESS_P OR 1 then run_next_on_queue (DESCHEDULE_CURRENT s)
             else Some (ECTX_CONTINUE, put_word chan_ptr requeue s))"

definition ins_xend :: instruction where
  "ins_xend s =
     (let chan_ptr = areg s; chan_value = get_word s chan_ptr
      in if chan_value \<noteq> NOT_PROCESS_P OR 1
         then (let s = put_word chan_ptr NOT_PROCESS_P s
               in ADD_TO_QUEUE_ECTX (chan_value AND NOT 1) s)
         else Some (ECTX_CONTINUE, s))"

end
