(* ===== verification/TVM_Alt.thy ===== *)
theory TVM_Alt
  imports TVM_Channel
begin

text \<open>
  Alternation (ins_alt.c): enabling, waiting and disabling of channel, timer and skip guards.
\<close>

definition ins_dist :: instruction where
  "ins_dist s =
     (let process = areg s; guard = breg s; timeout = creg s
      in if guard \<noteq> 0
         then (let tlink = WORKSPACE_GET s (wptr s) WS_TLINK
               in if tlink = TIME_SET_P
                  then (let time = WORKSPACE_GET s (wptr s) WS_TIME
                        in if \<not> TIME_AFTER timeout time
                           then (let selection = WORKSPACE_GET s (wptr s) WS_TEMP
                                 in if selection = NONE_SELECTED_O
                                    then STACK1_RET 1 (WORKSPACE_SET (wptr s) WS_TEMP process s)
                                    else STACK1_RET 0 s)
                           else STACK1_RET 0 s)
                  else if tlink \<noteq> TIME_NOT_SET_P
                  then (case timer_queue_remove (wptr s) s of
                          None \<Rightarrow> None
                        | Some s \<Rightarrow> STACK1_RET 0 s)
                  else STACK1_RET 0 s)
         else STACK1_RET 0 s)"

definition ins_disc :: instruction where
  "ins_disc s =
     (let chan_ptr = creg s; guard = breg s; process = areg s
      in if guard \<noteq> 0
         then (let chan_proc = get_word s chan_ptr
               in if chan_proc = wptr s OR 1 then STACK1_RET 0 (put_word chan_ptr NOT_PROCESS_P s)
                  else if chan_proc \<noteq> NOT_PROCESS_P
                  then (let selection = WORKSPACE_GET s (wptr s) WS_TEMP
                        in if selection = NONE_SELECTED_O
                           then STACK1_RET 1 (WORKSPACE_SET (wptr s) WS_TEMP process s)
                           else STACK1_RET 0 s)
                  else STACK1_RET 0 s)
         else STACK1_RET 0 s)"

definition ins_diss :: instruction where
  "ins_diss s =
     (let guard = breg s; process = areg s
      in if guard \<noteq> 0
         then (let selection = WORKSPACE_GET s (wptr s) WS_TEMP
               in if selection = NONE_SELECTED_O
                  then (let s = WORKSPACE_SET (wptr s) WS_TEMP process s in STACK2_RET 1 (creg s) s)
                  else STACK2_RET 0 (creg s) s)
         else STACK2_RET 0 (creg s) s)"

definition ins_alt :: instruction where
  "ins_alt s = Some (ECTX_CONTINUE, WORKSPACE_SET (wptr s) WS_STATE ENABLING_P s)"

definition ins_altwt :: instruction where
  "ins_altwt s =
     (let s = WORKSPACE_SET (wptr s) WS_TEMP NONE_SELECTED_O s
      in if WORKSPACE_GET s (wptr s) WS_STATE = READY_P then UNDEFINE_STACK_RET s
         else (let s = WORKSPACE_SET (wptr s) WS_STATE WAITING_P s;
                   s = WORKSPACE_SET (wptr s) WS_ECTX (self s) s;
                   s = WORKSPACE_SET (wptr s) WS_IPTR (iptr s) s
               in run_next_on_queue s))"

definition ins_altend :: instruction where
  "ins_altend s =
     (let selection = WORKSPACE_GET s (wptr s) WS_TEMP
      in if selection \<noteq> NONE_SELECTED_O
         then Some (ECTX_CONTINUE, s\<lparr>iptr := byteptr_plus (iptr s) selection\<rparr>)
         else SET_ERROR_FLAG_RET EFLAG_ALT s)"

definition ins_enbt :: instruction where
  "ins_enbt s =
     (let guard = areg s; timeout = breg s;
          s = (if guard \<noteq> 0
               then if WORKSPACE_GET s (wptr s) WS_TLINK = TIME_NOT_SET_P
                    then WORKSPACE_SET (wptr s) WS_TIME timeout
                           (WORKSPACE_SET (wptr s) WS_TLINK TIME_SET_P s)
                    else if TIME_AFTER (WORKSPACE_GET s (wptr s) WS_TIME) timeout
                    then WORKSPACE_SET (wptr s) WS_TIME timeout s
                    else s
               else s)
      in STACK2_RET guard (creg s) s)"

definition ins_enbc :: instruction where
  "ins_enbc s =
     (let chan_ptr = breg s; guard = areg s;
          s = (if guard \<noteq> 0
               then (let chan_value = get_word s chan_ptr; this_ws = wptr s OR 1
                     in if chan_value = NOT_PROCESS_P then put_word chan_ptr this_ws s
                        else if chan_value \<noteq> this_ws then WORKSPACE_SET (wptr s) WS_STATE READY_P s
                        else s)
               else s)
      in STACK2_RET guard (creg s) s)"

definition ins_enbs :: instruction where
  "ins_enbs s =
     (let guard = areg s
      in Some (ECTX_CONTINUE, if guard \<noteq> 0 then WORKSPACE_SET (wptr s) WS_STATE READY_P s else s))"

definition ins_talt :: instruction where
  "ins_talt s =
     (let s = WORKSPACE_SET (wptr s) WS_STATE ENABLING_P s
      in Some (ECTX_CONTINUE, WORKSPACE_SET (wptr s) WS_TLINK TIME_NOT_SET_P s))"

text \<open>The end of \<open>taltwt\<close>: the process waits.\<close>

definition talt_sleep :: instruction where
  "talt_sleep s =
     (let s = WORKSPACE_SET (wptr s) WS_STATE WAITING_P s;
          s = WORKSPACE_SET (wptr s) WS_ECTX (self s) s;
          s = WORKSPACE_SET (wptr s) WS_IPTR (iptr s) s
      in run_next_on_queue s)"

definition ins_taltwt :: instruction where
  "ins_taltwt s =
     (let (now, s) = get_time s;
          s = WORKSPACE_SET (wptr s) WS_TEMP NONE_SELECTED_O s
      in if WORKSPACE_GET s (wptr s) WS_STATE = READY_P
         then UNDEFINE_STACK_RET (WORKSPACE_SET (wptr s) WS_TIME now s)
         else if WORKSPACE_GET s (wptr s) WS_TLINK \<noteq> TIME_NOT_SET_P
         then (let timeout = WORKSPACE_GET s (wptr s) WS_TIME
               in if TIME_AFTER now timeout
                  then (let s = WORKSPACE_SET (wptr s) WS_STATE READY_P s
                        in UNDEFINE_STACK_RET (WORKSPACE_SET (wptr s) WS_TIME now s))
                  else (let timeout = timeout + 1;
                            s = WORKSPACE_SET (wptr s) WS_TIME timeout s
                        in case timer_queue_insert (wptr s) now timeout s of
                             None \<Rightarrow> None
                           | Some s \<Rightarrow> talt_sleep s))
         else talt_sleep s)"

end
