(* ===== verification/TVM_Mobile.thy ===== *)
theory TVM_Mobile
  imports TVM_MobileTypes TVM_Semaphore TVM_Barrier TVM_Alt
begin

text \<open>
  Mobile types (ins_mobile.c): reference-counted channel bundles and barriers, data and arrays
  on the C heap. A mobile is known by the pointer to its payload; the type word is just below
  it. Structure fields are read by their word offset, as \<open>read_offset\<close> does. The functions that
  recurse through arrays of mobiles are one recursion each over a type of tasks; a recursion
  through a cyclic structure does not return and is \<open>None\<close>.
\<close>

section \<open>The C heap (tvm_mem.h)\<close>

definition tvm_malloc :: "UWORD \<Rightarrow> mach \<Rightarrow> WORDPTR \<times> mach" where
  "tvm_malloc bytes s =
     (let p = place s (blocks s) bytes
      in (p, if p = NULL_P then s else s\<lparr>blocks := (p, bytes) # blocks s\<rparr>))"

text \<open>Freeing what is not the address of a live block is undefined.\<close>

definition tvm_free :: "WORDPTR \<Rightarrow> mach \<Rightarrow> mach option" where
  "tvm_free data s =
     (if data = NULL_P then Some s
      else if data \<in> set (map fst (blocks s))
      then Some (s\<lparr>blocks := filter (\<lambda>b. fst b \<noteq> data) (blocks s)\<rparr>)
      else None)"

definition read_mt_type :: "mach \<Rightarrow> WORDPTR \<Rightarrow> UWORD" where
  "read_mt_type s ptr = get_word s (wordptr_minus ptr 1)"

definition read_offset :: "mach \<Rightarrow> WORDPTR \<Rightarrow> WORD \<Rightarrow> WORD" where
  "read_offset s ptr field = get_word s (wordptr_plus ptr field)"

definition write_offset :: "WORDPTR \<Rightarrow> WORD \<Rightarrow> WORD \<Rightarrow> mach \<Rightarrow> mach" where
  "write_offset ptr field data s = put_word (wordptr_plus ptr field) data s"

text \<open>Word offsets of the fields of the internal structures (mobile_types.h).\<close>

definition mt_array_size :: WORD where [tvm_consts]: "mt_array_size = 0"
definition mt_array_type :: WORD where [tvm_consts]: "mt_array_type = 1"
definition mt_array_data :: WORD where [tvm_consts]: "mt_array_data = 2"
definition mt_array_dimensions :: WORD where [tvm_consts]: "mt_array_dimensions = 3"
definition mt_ref_count :: WORD where [tvm_consts]: "mt_ref_count = 0"
definition mt_type :: WORD where [tvm_consts]: "mt_type = 1"
definition mt_barrier_barrier :: WORD where [tvm_consts]: "mt_barrier_barrier = 2"
definition mt_data_size :: WORD where [tvm_consts]: "mt_data_size = 0"
definition mt_data_type :: WORD where [tvm_consts]: "mt_data_type = 1"
definition mt_cb_ext_interface_field :: WORD where [tvm_consts]: "mt_cb_ext_interface_field = 0"
definition mt_cb_ext_data_field :: WORD where [tvm_consts]: "mt_cb_ext_data_field = 1"

definition mt_cb_words :: "UWORD \<Rightarrow> WORD" where
  "mt_cb_words type =
     (let flags = MT_FLAGS type;
          words = MT_CB_PTR_OFFSET;
          words = words + (drop_bit MT_CB_SHARED_BIT flags AND 0x1) * (2 * 2)
      in words + (drop_bit MT_CB_EXTERNAL_BIT flags AND 0x1) * 2)"

definition MT_CB_BASE_PTR :: "WORDPTR \<Rightarrow> UWORD \<Rightarrow> WORDPTR" where
  "MT_CB_BASE_PTR mt type = wordptr_minus mt (mt_cb_words type)"

definition MT_CB_LOCK_PTR :: "WORDPTR \<Rightarrow> WORD \<Rightarrow> WORDPTR" where
  "MT_CB_LOCK_PTR mt lock = wordptr_minus mt (2 * (lock + 1))"

section \<open>Allocation\<close>

text \<open>
  The C code writes through the result of \<open>tvm_malloc\<close> without testing it: a failed
  allocation is undefined behaviour. So is a shift by the word length or more.
\<close>

definition mt_alloc_array_int :: "UWORD \<Rightarrow> UWORD \<Rightarrow> bool \<Rightarrow> mach \<Rightarrow> (WORDPTR \<times> nat) result" where
  "mt_alloc_array_int type sz init s =
     (let alignment = 0;
          dimensions = MT_ARRAY_DIM type;
          dma = 0;
          inner_type = MT_ARRAY_INNER_TYPE type;
          meta_words = dimensions + MT_ARRAY_PTR_OFFSET + 1;
          size_shift = WSH;
          (dma, meta_words, alignment, inner_type) =
            (if MT_TYPE inner_type = MT_ARRAY_OPTS
             then (if MT_FLAGS inner_type AND MT_ARRAY_OPTS_DMA \<noteq> 0 then dimensions else 0,
                   if MT_FLAGS inner_type AND MT_ARRAY_OPTS_DMA \<noteq> 0 then meta_words + 1 else meta_words,
                   push_bit (unat (MT_ARRAY_OPTS_ALIGN inner_type)) 1 - 1,
                   MT_ARRAY_OPTS_INNER inner_type)
             else (dma, meta_words, alignment, inner_type));
          size_shift =
            (if MT_TYPE inner_type = MT_NUM then unat (mt_num_size_shift (MT_NUM_TYPE inner_type))
             else size_shift)
      in if size_shift \<ge> 32 then None
         else
     (let alignment =
            (if MT_TYPE inner_type = MT_NUM \<and> size_shift > WSH \<and> alignment = 0
             then push_bit size_shift 1 - 1 else alignment);
          bytes = push_bit size_shift sz + alignment + push_bit WSH meta_words;
          (ma, s) = tvm_malloc bytes s
      in if ma = NULL_P then None
         else
     (let data = (if sz \<noteq> 0
                  then byteptr_plus (wordptr_plus ma meta_words) alignment AND NOT alignment
                  else NULL_P);
          s = write_offset ma mt_array_size sz s;
          s = write_offset ma mt_array_type type s;
          s = write_offset ma mt_array_data data s;
          s = (if dma \<noteq> 0 then write_offset ma (mt_array_dimensions + dma) data s else s);
          s = (if init \<and> MT_TYPE inner_type \<noteq> MT_NUM
               then s\<lparr>mem := set_words (unat sz) data NULL_P (mem s)\<rparr> else s)
      in Some ((ma, size_shift), s))))"

definition mt_alloc_array :: "UWORD \<Rightarrow> UWORD \<Rightarrow> mach \<Rightarrow> WORDPTR result" where
  "mt_alloc_array type sz s =
     map_option (\<lambda>((ma, size_shift), s). (wordptr_plus ma MT_ARRAY_PTR_OFFSET, s))
       (mt_alloc_array_int type sz True s)"

definition mt_alloc_cb :: "UWORD \<Rightarrow> UWORD \<Rightarrow> mach \<Rightarrow> WORDPTR result" where
  "mt_alloc_cb type channels s =
     (let type_words = mt_cb_words type;
          cw = NOT_PROCESS_P;
          type = type OR push_bit MT_CB_CHANNELS_SHIFT channels;
          (cb_base, s) = tvm_malloc (push_bit WSH (type_words + channels)) s
      in if cb_base = NULL_P then None
         else
     (let cb = wordptr_plus cb_base type_words;
          cb_int = wordptr_minus cb MT_CB_PTR_OFFSET;
          s = (if type AND MT_CB_SHARED \<noteq> 0
               then tvm_sem_init (MT_CB_LOCK_PTR cb_int MT_CB_CLIENT)
                      (tvm_sem_init (MT_CB_LOCK_PTR cb_int MT_CB_SERVER) s)
               else s);
          s = (if type AND MT_CB_EXTERNAL \<noteq> 0
               then write_offset cb_base mt_cb_ext_data_field NULL_P
                      (write_offset cb_base mt_cb_ext_interface_field NULL_P s)
               else s);
          cw = (if type AND MT_CB_EXTERNAL \<noteq> 0 then cb_base OR 2 else cw);
          s = write_offset cb_int mt_ref_count 2 s;
          s = write_offset cb_int mt_type type s;
          s = s\<lparr>mem := set_words (unat channels) cb cw (mem s)\<rparr>
      in Some (cb, s)))"

definition mt_alloc_barrier :: "UWORD \<Rightarrow> mach \<Rightarrow> WORDPTR result" where
  "mt_alloc_barrier type s =
     (let (mb, s) = tvm_malloc (6 * 4) s
      in if mb = NULL_P then None
         else
     (let bar = wordptr_plus mb mt_barrier_barrier;
          s = write_offset mb mt_ref_count 1 s;
          s = write_offset mb mt_type type s;
          s = (if MT_BARRIER_TYPE type = MT_BARRIER_FULL then tvm_bar_init bar 1 s
               else if MT_BARRIER_TYPE type = MT_BARRIER_FORKING
               then put_word (wordptr_plus bar 1) 0 (put_word (wordptr_plus bar 0) NOT_PROCESS_P s)
               else s)
      in Some (wordptr_plus mb MT_BARRIER_PTR_OFFSET, s)))"

definition mt_alloc_data :: "UWORD \<Rightarrow> UWORD \<Rightarrow> mach \<Rightarrow> WORDPTR result" where
  "mt_alloc_data type sz s =
     (let bytes = (sz + 3) AND NOT 3;
          bytes = bytes + push_bit WSH MT_DATA_PTR_OFFSET;
          (md, s) = tvm_malloc bytes s
      in if md = NULL_P then None
         else
     (let s = write_offset md mt_data_size sz s;
          s = write_offset md mt_data_type type s
      in Some (wordptr_plus md MT_DATA_PTR_OFFSET, s)))"

definition mt_alloc :: "UWORD \<Rightarrow> UWORD \<Rightarrow> mach \<Rightarrow> (int \<times> WORDPTR) result" where
  "mt_alloc type sz s =
     (let ok = map_option (\<lambda>(p, s). ((ECTX_CONTINUE, p), s));
          fail = (let (ret, s) = set_error_flag EFLAG_MT s in Some ((ret, NULL_P), s))
      in if type AND MT_SIMPLE \<noteq> 0
         then if MT_TYPE type = MT_ARRAY then ok (mt_alloc_array type sz s)
              else if MT_TYPE type = MT_CB then ok (mt_alloc_cb type sz s)
              else if MT_TYPE type = MT_BARRIER then ok (mt_alloc_barrier type s)
              else if MT_TYPE type = MT_DATA then ok (mt_alloc_data type sz s)
              else fail
         else fail)"

section \<open>Release\<close>

text \<open>
  \<open>Release p\<close> is the call \<open>mt_release (ectx, p)\<close>, \<open>Release_Simple p t\<close> the call of
  \<open>mt_release_simple\<close> and \<open>Release_Elems n d\<close> the loop over the \<open>n\<close> elements at \<open>d\<close>, which
  ignores the code each release returns.
\<close>

datatype release_task = Release WORDPTR | Release_Simple WORDPTR UWORD | Release_Elems nat WORDPTR

definition release_cb :: "env \<Rightarrow> WORDPTR \<Rightarrow> UWORD \<Rightarrow> instruction" where
  "release_cb e ptr type s =
     (let cb = wordptr_minus ptr MT_CB_PTR_OFFSET;
          refs = read_offset s cb mt_ref_count
      in if refs \<le> 1
         then (let base = MT_CB_BASE_PTR ptr type;
                   freed = (\<lambda>s. map_option (\<lambda>s. (ECTX_CONTINUE, s)) (tvm_free base s))
               in if type AND MT_CB_EXTERNAL \<noteq> 0
                  then (let intf = mt_cb_ext_interface s base;
                            data = mt_cb_ext_data s base
                        in if intf = NULL_P then None
                           else (case cb_interface e intf of
                                   None \<Rightarrow> None
                                 | Some i \<Rightarrow>
                                     (case cb_free i of
                                        Some f \<Rightarrow>
                                          (if data \<noteq> NULL_P
                                           then (case f data s of None \<Rightarrow> None | Some s \<Rightarrow> freed s)
                                           else freed s)
                                      | None \<Rightarrow> freed s)))
                  else freed s)
         else Some (ECTX_CONTINUE, write_offset cb mt_ref_count (refs - 1) s))"

definition release_barrier :: "WORDPTR \<Rightarrow> UWORD \<Rightarrow> instruction" where
  "release_barrier ptr type s =
     (let mb = wordptr_minus ptr MT_BARRIER_PTR_OFFSET;
          refs = read_offset s mb mt_ref_count
      in if refs > 1
         then (let s = write_offset mb mt_ref_count (refs - 1) s
               in if MT_BARRIER_TYPE type = MT_BARRIER_FULL then tvm_bar_resign ptr 1 s
                  else Some (ECTX_CONTINUE, s))
         else (case (if MT_BARRIER_TYPE type = MT_BARRIER_FORKING
                     then (let process = get_word s ptr
                           in if process \<noteq> NOT_PROCESS_P then ADD_TO_QUEUE_ECTX process s
                              else Some (ECTX_CONTINUE, s))
                     else Some (ECTX_CONTINUE, s)) of
                 None \<Rightarrow> None
               | Some (ret, s) \<Rightarrow> map_option (\<lambda>s. (ret, s)) (tvm_free mb s)))"

partial_function (option) release_run :: "env \<Rightarrow> release_task \<Rightarrow> instruction" where
  "release_run e task s =
     (case task of
        Release ptr \<Rightarrow>
          (let type = read_mt_type s ptr
           in if type AND MT_SIMPLE \<noteq> 0 then release_run e (Release_Simple ptr type) s
              else SET_ERROR_FLAG_RET EFLAG_MT s)
      | Release_Simple ptr type \<Rightarrow>
          (if MT_TYPE type = MT_ARRAY
           then (let ma = wordptr_minus ptr MT_ARRAY_PTR_OFFSET;
                     inner_type = strip_opts (MT_ARRAY_INNER_TYPE type)
                 in Option.bind
                      (if MT_TYPE inner_type \<noteq> MT_NUM
                       then release_run e (Release_Elems (unat (read_offset s ma mt_array_size))
                              (read_offset s ma mt_array_data)) s
                       else Some (ECTX_CONTINUE, s))
                      (\<lambda>(ret, s). map_option (\<lambda>s. (ECTX_CONTINUE, s)) (tvm_free ma s)))
           else if MT_TYPE type = MT_CB then release_cb e ptr type s
           else if MT_TYPE type = MT_BARRIER then release_barrier ptr type s
           else if MT_TYPE type = MT_DATA
           then map_option (\<lambda>s. (ECTX_CONTINUE, s)) (tvm_free (wordptr_minus ptr MT_DATA_PTR_OFFSET) s)
           else Some (set_error_flag EFLAG_MT s))
      | Release_Elems n data \<Rightarrow>
          (case n of
             0 \<Rightarrow> Some (ECTX_CONTINUE, s)
           | Suc n \<Rightarrow>
               (let inner_ptr = get_word s data
                in Option.bind
                     (if inner_ptr \<noteq> NULL_P then release_run e (Release inner_ptr) s
                      else Some (ECTX_CONTINUE, s))
                     (\<lambda>(ret, s). release_run e (Release_Elems n (wordptr_plus data 1)) s))))"

definition mt_release_simple :: "env \<Rightarrow> WORDPTR \<Rightarrow> UWORD \<Rightarrow> instruction" where
  "mt_release_simple e ptr type = release_run e (Release_Simple ptr type)"

definition mt_release :: "env \<Rightarrow> WORDPTR \<Rightarrow> instruction" where
  "mt_release e ptr = release_run e (Release ptr)"

section \<open>Cloning\<close>

text \<open>
  The out-parameter \<open>*ret\<close> is passed in and out as an optional word, \<open>None\<close> for a local
  variable that has not been assigned.
\<close>

datatype clone_task =
    Clone WORDPTR "WORDPTR option"
  | Clone_Array WORDPTR UWORD "WORDPTR option"
  | Clone_Elems nat WORDPTR WORDPTR

partial_function (option) clone_run :: "clone_task \<Rightarrow> mach \<Rightarrow> (int \<times> WORDPTR option) result" where
  "clone_run task s =
     (case task of
        Clone ptr out \<Rightarrow>
          (let type = read_mt_type s ptr;
               fail = (let (ret, s) = set_error_flag EFLAG_MT s in Some ((ret, Some NULL_P), s))
           in if type AND MT_SIMPLE \<noteq> 0
              then if MT_TYPE type = MT_ARRAY then clone_run (Clone_Array ptr type out) s
                   else if MT_TYPE type = MT_CB
                   then (let cb = wordptr_minus ptr MT_CB_PTR_OFFSET;
                             refs = read_offset s cb mt_ref_count
                         in Some ((ECTX_CONTINUE, Some ptr), write_offset cb mt_ref_count (refs + 1) s))
                   else if MT_TYPE type = MT_BARRIER
                   then (let mb = wordptr_minus ptr MT_BARRIER_PTR_OFFSET;
                             refs = read_offset s mb mt_ref_count;
                             s = write_offset mb mt_ref_count (refs + 1) s
                         in if MT_BARRIER_TYPE type = MT_BARRIER_FULL
                            then map_option (\<lambda>(ret, s). ((ret, out), s)) (tvm_bar_enroll ptr 1 s)
                            else Some ((ECTX_CONTINUE, Some ptr), s))
                   else if MT_TYPE type = MT_DATA
                   then (let src = wordptr_minus ptr MT_DATA_PTR_OFFSET;
                             sz = read_offset s src mt_data_size
                         in map_option (\<lambda>(dst, s). ((ECTX_CONTINUE, Some dst), memcpy dst ptr sz s))
                              (mt_alloc_data type sz s))
                   else fail
              else fail)
      | Clone_Array ptr type out \<Rightarrow>
          (let src = wordptr_minus ptr MT_ARRAY_PTR_OFFSET;
               dimensions = MT_ARRAY_DIM type;
               inner_type = MT_ARRAY_INNER_TYPE type;
               sz = read_offset s src mt_array_size
           in Option.bind (mt_alloc_array_int type sz False s) (\<lambda>((dst, size_shift), s).
                let s = s\<lparr>mem := copy_words (unat dimensions) (wordptr_plus dst mt_array_dimensions)
                           (wordptr_plus src mt_array_dimensions) (mem s)\<rparr>;
                    dst_data = read_offset s dst mt_array_data;
                    src_data = read_offset s src mt_array_data;
                    inner_type = strip_opts inner_type;
                    result = wordptr_plus dst MT_ARRAY_PTR_OFFSET
                in if MT_TYPE inner_type = MT_NUM
                   then Some ((ECTX_CONTINUE, Some result), memcpy dst_data src_data (push_bit size_shift sz) s)
                   else Option.bind (clone_run (Clone_Elems (unat sz) dst_data src_data) s)
                          (\<lambda>((ret, _), s). if ret \<noteq> 0 then Some ((ret, out), s)
                             else Some ((ECTX_CONTINUE, Some result), s))))
      | Clone_Elems n dst_data src_data \<Rightarrow>
          (case n of
             0 \<Rightarrow> Some ((ECTX_CONTINUE, None), s)
           | Suc n \<Rightarrow>
               (let inner_ptr = get_word s src_data
                in Option.bind
                     (if inner_ptr \<noteq> NULL_P then clone_run (Clone inner_ptr (Some inner_ptr)) s
                      else Some ((ECTX_CONTINUE, Some inner_ptr), s))
                     (\<lambda>((ret, out), s).
                        if ret \<noteq> 0 then Some ((ret, None), s)
                        else Option.bind out (\<lambda>inner_ptr.
                          clone_run (Clone_Elems n (wordptr_plus dst_data 1) (wordptr_plus src_data 1))
                            (put_word dst_data inner_ptr s))))))"

definition mt_clone_array :: "WORDPTR \<Rightarrow> UWORD \<Rightarrow> WORDPTR option \<Rightarrow> mach \<Rightarrow> (int \<times> WORDPTR option) result" where
  "mt_clone_array ptr type out = clone_run (Clone_Array ptr type out)"

definition mt_clone :: "WORDPTR \<Rightarrow> WORDPTR option \<Rightarrow> mach \<Rightarrow> (int \<times> WORDPTR option) result" where
  "mt_clone ptr out = clone_run (Clone ptr out)"

end
