(* ===== verification/TVM_MobileIO.thy ===== *)
theory TVM_MobileIO
  imports TVM_Mobile
begin

text \<open>
  Mobiles on channels and the instructions on mobile types (ins_mobile.c), and the instructions
  for dynamically allocated processes (ins_proc.c).
\<close>

section \<open>Updating a mobile that is sent (ins_mobile.c)\<close>

text \<open>
  The C functions take the address of the variable that holds the mobile: a local variable of
  the C code (with the value it holds) or a word of the machine's memory.
\<close>

datatype mt_var = Local WORDPTR | In_Memory WORDPTR

definition deref :: "mach \<Rightarrow> mt_var \<Rightarrow> WORDPTR" where
  "deref s v = (case v of Local p \<Rightarrow> p | In_Memory a \<Rightarrow> get_word s a)"

definition mt_io_update_shared_cb :: "mt_var \<Rightarrow> mach \<Rightarrow> mach" where
  "mt_io_update_shared_cb v s =
     (let cb = wordptr_minus (deref s v) MT_CB_PTR_OFFSET;
          refs = read_offset s cb mt_ref_count
      in write_offset cb mt_ref_count (refs + 1) s)"

definition mt_io_update_barrier :: "mt_var \<Rightarrow> instruction" where
  "mt_io_update_barrier v s =
     (let mb = wordptr_minus (deref s v) MT_BARRIER_PTR_OFFSET;
          refs = read_offset s mb mt_ref_count;
          type = read_mt_type s (deref s v);
          s = write_offset mb mt_ref_count (refs + 1) s
      in if MT_BARRIER_TYPE type = MT_BARRIER_FULL then tvm_bar_enroll (deref s v) 1 s
         else Some (ECTX_CONTINUE, s))"

text \<open>
  The loop of \<open>mt_io_update\<close> over the element types of an array: \<open>False\<close> when it meets a
  numeric type (nothing to update), \<open>True\<close> when it ends at another type.
\<close>

partial_function (option) array_of_mobiles :: "UWORD \<Rightarrow> bool option" where
  "array_of_mobiles temp =
     (let temp = strip_opts (MT_ARRAY_INNER_TYPE temp)
      in if MT_TYPE temp = MT_NUM then Some False
         else if MT_TYPE temp = MT_ARRAY then array_of_mobiles temp
         else Some True)"

text \<open>
  \<open>mt_io_update_array\<close> computes the array header from the address of the variable, not from
  its value (\<open>ptr\<close> for \<open>*ptr\<close>): for a local variable this reads the C stack, which is
  undefined; for a word of memory it reads the words just below it.
\<close>

datatype io_task = Io_Update mt_var | Io_Array mt_var UWORD | Io_Elems nat WORDPTR UWORD

partial_function (option) io_run :: "io_task \<Rightarrow> mach \<Rightarrow> (int \<times> UWORD) result" where
  "io_run task s =
     (case task of
        Io_Update v \<Rightarrow>
          (let type = read_mt_type s (deref s v)
           in if type AND MT_SIMPLE \<noteq> 0
              then if MT_TYPE type = MT_ARRAY
                   then Option.bind (array_of_mobiles type) (\<lambda>mobiles.
                          if mobiles
                          then Option.bind (io_run (Io_Array v (MT_ARRAY_INNER_TYPE type)) s)
                                 (\<lambda>((ret, _), s). Some ((ret, MT_TRUE), s))
                          else Some ((ECTX_CONTINUE, MT_TRUE), s))
                   else if MT_TYPE type = MT_CB
                   then if type AND MT_CB_SHARED \<noteq> 0
                        then Some ((ECTX_CONTINUE, MT_FALSE), mt_io_update_shared_cb v s)
                        else Some ((ECTX_CONTINUE, MT_TRUE), s)
                   else if MT_TYPE type = MT_BARRIER
                   then map_option (\<lambda>(ret, s). ((ret, MT_FALSE), s)) (mt_io_update_barrier v s)
                   else if MT_TYPE type = MT_DATA then Some ((ECTX_CONTINUE, MT_TRUE), s)
                   else Some ((ECTX_CONTINUE, MT_FALSE), s)
              else (let (ret, s) = set_error_flag EFLAG_MT s in Some ((ret, MT_TRUE), s)))
      | Io_Array v inner \<Rightarrow>
          (case v of
             Local p \<Rightarrow> None
           | In_Memory ptr \<Rightarrow>
               (let ma = wordptr_minus ptr MT_ARRAY_PTR_OFFSET;
                    data = read_offset s ma mt_array_data;
                    sz = read_offset s ma mt_array_size
                in if MT_TYPE inner \<in> {MT_ARRAY, MT_BARRIER, MT_MT} \<or>
                      (MT_TYPE inner = MT_CB \<and> inner AND MT_CB_SHARED \<noteq> 0)
                   then io_run (Io_Elems (unat sz) data inner) s
                   else if MT_TYPE inner \<in> {MT_CB, MT_DATA} then Some ((ECTX_CONTINUE, 0), s)
                   else (let (ret, s) = set_error_flag EFLAG_MT s in Some ((ret, 0), s))))
      | Io_Elems n data inner \<Rightarrow>
          (case n of
             0 \<Rightarrow> Some ((ECTX_CONTINUE, 0), s)
           | Suc n \<Rightarrow>
               Option.bind
                 (if get_word s data = NULL_P then Some ((ECTX_CONTINUE, 0), s)
                  else if MT_TYPE inner = MT_ARRAY
                  then io_run (Io_Array (In_Memory data) (MT_ARRAY_INNER_TYPE inner)) s
                  else if MT_TYPE inner = MT_CB
                  then Some ((ECTX_CONTINUE, 0), mt_io_update_shared_cb (In_Memory data) s)
                  else if MT_TYPE inner = MT_BARRIER
                  then map_option (\<lambda>(ret, s). ((ret, 0), s)) (mt_io_update_barrier (In_Memory data) s)
                  else io_run (Io_Update (In_Memory data)) s)
                 (\<lambda>((ret, _), s).
                    if ret \<noteq> 0 then Some ((ret, 0), s)
                    else io_run (Io_Elems n (wordptr_plus data 1) inner) s)))"

definition mt_io_update_array :: "mt_var \<Rightarrow> UWORD \<Rightarrow> instruction" where
  "mt_io_update_array v inner s = map_option (\<lambda>((ret, _), s). (ret, s)) (io_run (Io_Array v inner) s)"

definition mt_io_update :: "mt_var \<Rightarrow> mach \<Rightarrow> (int \<times> UWORD) result" where
  "mt_io_update v = io_run (Io_Update v)"

section \<open>Channel handlers (ins_mobile.c)\<close>

definition mt_chan_io :: "WORDPTR \<Rightarrow> WORDPTR \<Rightarrow> instruction" where
  "mt_chan_io dst src s =
     (let ptr = get_word s src
      in if ptr \<noteq> NULL_P
         then (case mt_io_update (Local ptr) s of
                 None \<Rightarrow> None
               | Some ((ret, move), s) \<Rightarrow>
                   if ret \<noteq> 0 then Some (ret, s)
                   else (let s = (if move = MT_TRUE then put_word src NULL_P s else s)
                         in Some (ECTX_CONTINUE, put_word dst ptr s)))
         else Some (ECTX_CONTINUE, put_word dst ptr s))"

definition mt_chan_in :: CHAN_IO_OK where
  "mt_chan_in dst_ptr len src_wptr s =
     (let dst = dst_ptr; src = WORKSPACE_GET s src_wptr WS_POINTER in mt_chan_io dst src s)"

definition mt_chan_out :: CHAN_IO_OK where
  "mt_chan_out src_ptr len dst_wptr s =
     (let dst = WORKSPACE_GET s dst_wptr WS_POINTER; src = src_ptr in mt_chan_io dst src s)"

definition mt_chan_dc_in :: CHAN_IO_DC where
  "mt_chan_dc_in dst_ptr len s = Some (ECTX_CONTINUE, put_word dst_ptr NULL_P s)"

definition mt_chan_dc_out :: "env \<Rightarrow> CHAN_IO_DC" where
  "mt_chan_dc_out e src_ptr len s =
     (let src = src_ptr; ptr = get_word s src
      in if ptr \<noteq> NULL_P
         then (case mt_io_update (Local ptr) s of
                 None \<Rightarrow> None
               | Some ((ret, move), s) \<Rightarrow>
                   if ret \<noteq> 0 then Some (ret, s)
                   else (let s = (if move = MT_TRUE then put_word src NULL_P s else s)
                         in mt_release e ptr s))
         else Some (ECTX_CONTINUE, s))"

definition mt_chan_ext_in :: CHAN_IO_EXT where
  "mt_chan_ext_in intf ext_data chan_ptr data_ptr data_len s =
     (case cb_mt_in intf of
        Some f \<Rightarrow> f ext_data chan_ptr data_ptr s
      | None \<Rightarrow> SET_ERROR_FLAG_RET EFLAG_EXTCHAN s)"

definition mt_chan_ext_out :: CHAN_IO_EXT where
  "mt_chan_ext_out intf ext_data chan_ptr data_ptr data_len s =
     (case cb_mt_out intf of
        Some f \<Rightarrow> f ext_data chan_ptr data_ptr s
      | None \<Rightarrow> SET_ERROR_FLAG_RET EFLAG_EXTCHAN s)"

definition mt_chan_ext_xin :: CHAN_IO_EXT where
  "mt_chan_ext_xin intf ext_data chan_ptr data_ptr data_len s =
     (case cb_mt_xin intf of
        Some f \<Rightarrow> f ext_data chan_ptr data_ptr s
      | None \<Rightarrow> SET_ERROR_FLAG_RET EFLAG_EXTCHAN s)"

section \<open>Instructions on dynamic memory (ins_mobile.c)\<close>

definition ins_mreleasep :: "env \<Rightarrow> instruction" where
  "ins_mreleasep e s =
     (let adjust = areg s;
          ptr = byteptr_plus (wptr s) (adjust * 4)
      in case mt_release_simple e ptr (MT_MAKE_TYPE MT_DATA) s of
           None \<Rightarrow> None
         | Some (ret, s) \<Rightarrow> if ret \<noteq> 0 then Some (ret, s) else run_next_on_queue s)"

definition ins_malloc :: instruction where
  "ins_malloc s =
     (let sz = areg s
      in if sz \<noteq> 0
         then (case mt_alloc_data (MT_SIMPLE OR MT_MAKE_TYPE MT_DATA) sz s of
                 None \<Rightarrow> None
               | Some (ptr, s) \<Rightarrow> STACK1_RET ptr s)
         else STACK1_RET NULL_P s)"

definition ins_mrelease :: "env \<Rightarrow> instruction" where
  "ins_mrelease e s =
     (let ptr = areg s
      in if ptr \<noteq> NULL_P then mt_release_simple e ptr (MT_MAKE_TYPE MT_DATA) s
         else SET_ERROR_FLAG_RET EFLAG_DMEM s)"

section \<open>Instructions on mobile types (ins_mobile.c)\<close>

definition ins_mt_alloc :: instruction where
  "ins_mt_alloc s =
     (case mt_alloc (areg s) (breg s) s of
        None \<Rightarrow> None
      | Some ((ret, ptr), s) \<Rightarrow> if ret \<noteq> 0 then Some (ret, s) else STACK1_RET ptr s)"

definition ins_mt_release :: "env \<Rightarrow> instruction" where
  "ins_mt_release e s = mt_release e (areg s) s"

text \<open>The result pointer is an uninitialised local: loading it unassigned is undefined.\<close>

definition ins_mt_clone :: instruction where
  "ins_mt_clone s =
     (case mt_clone (areg s) None s of
        None \<Rightarrow> None
      | Some ((ret, ptr), s) \<Rightarrow>
          if ret \<noteq> 0 then Some (ret, s)
          else (case ptr of None \<Rightarrow> None | Some p \<Rightarrow> STACK1_RET p s))"

definition ins_mt_in :: "env \<Rightarrow> instruction" where
  "ins_mt_in e s =
     (let chan_ptr = areg s; dst = breg s
      in chan_std_io e chan_ptr dst MIN_INT mt_chan_in mt_chan_dc_in mt_chan_ext_in s)"

definition ins_mt_out :: "env \<Rightarrow> instruction" where
  "ins_mt_out e s =
     (let chan_ptr = areg s; src = breg s
      in chan_std_io e chan_ptr src (MIN_INT + 1) mt_chan_out (mt_chan_dc_out e) mt_chan_ext_out s)"

definition ins_mt_xchg :: "env \<Rightarrow> instruction" where
  "ins_mt_xchg e s = (let chan_ptr = areg s; data_ptr = breg s in chan_swap e chan_ptr data_ptr s)"

definition ins_mt_lock :: instruction where
  "ins_mt_lock s =
     (let mt = wordptr_minus (breg s) MT_CB_PTR_OFFSET;
          lock = areg s;
          ptr = MT_CB_LOCK_PTR mt lock
      in tvm_sem_claim ptr s)"

definition ins_mt_unlock :: instruction where
  "ins_mt_unlock s =
     (let mt = wordptr_minus (breg s) MT_CB_PTR_OFFSET;
          lock = areg s;
          ptr = MT_CB_LOCK_PTR mt lock
      in tvm_sem_release ptr s)"

definition ins_mt_enroll :: instruction where
  "ins_mt_enroll s =
     (let mt = breg s; count = areg s; type = read_mt_type s mt
      in if MT_BARRIER_TYPE type = MT_BARRIER_FULL then tvm_bar_enroll mt count s
         else SET_ERROR_FLAG_RET EFLAG_MT s)"

definition ins_mt_resign :: instruction where
  "ins_mt_resign s =
     (let mt = breg s; count = areg s; type = read_mt_type s mt
      in if MT_BARRIER_TYPE type = MT_BARRIER_FULL then tvm_bar_resign mt count s
         else SET_ERROR_FLAG_RET EFLAG_MT s)"

definition ins_mt_sync :: instruction where
  "ins_mt_sync s =
     (let mt = areg s; type = read_mt_type s mt
      in if MT_BARRIER_TYPE type = MT_BARRIER_FULL then tvm_bar_sync mt s
         else if MT_BARRIER_TYPE type = MT_BARRIER_FORKING
         then (let mb = wordptr_minus mt MT_BARRIER_PTR_OFFSET;
                   refs = read_offset s mb mt_ref_count
               in if refs \<le> 1 then Option.bind (tvm_free mb s) UNDEFINE_STACK_RET
                  else (let s = WORKSPACE_SET (wptr s) WS_ECTX (self s) s;
                            s = WORKSPACE_SET (wptr s) WS_IPTR (iptr s) s;
                            s = write_offset mb mt_ref_count (refs - 1) s;
                            s = put_word mt (wptr s) s
                        in run_next_on_queue s))
         else SET_ERROR_FLAG_RET EFLAG_MT s)"

definition ins_mt_xin :: "env \<Rightarrow> instruction" where
  "ins_mt_xin e s =
     (let chan_ptr = areg s; data_ptr = breg s
      in case chan_io e chan_ptr data_ptr MIN_INT mt_chan_in mt_chan_dc_in mt_chan_ext_xin s of
           None \<Rightarrow> None
         | Some ((ret, requeue), s) \<Rightarrow>
             if ret > 0 then Some (ret, s)
             else if ret \<noteq> 0 then SET_ERROR_FLAG_RET EFLAG_CHAN s
             else if requeue = NOT_PROCESS_P OR 1 then run_next_on_queue (DESCHEDULE_CURRENT s)
             else Some (ECTX_CONTINUE, put_word chan_ptr requeue s))"

definition ins_mt_xout :: instruction where
  "ins_mt_xout s = Some (ECTX_INS_UNSUPPORTED, s)"

definition ins_mt_xxchg :: instruction where
  "ins_mt_xxchg s =
     (let chan_ptr = areg s; data_ptr = breg s;
          other_WPTR = get_word s chan_ptr;
          other_ptr = WORKSPACE_GET s other_WPTR WS_POINTER
      in UNDEFINE_STACK_RET (s\<lparr>mem := swap_data_word data_ptr other_ptr (mem s)\<rparr>))"

definition ins_mt_dclone :: instruction where
  "ins_mt_dclone s =
     (let src = creg s; bytes = breg s; type = areg s
      in if type = MT_SIMPLE OR MT_MAKE_TYPE MT_DATA
         then if bytes \<noteq> 0
              then (case mt_alloc_data type bytes s of
                      None \<Rightarrow> None
                    | Some (dst, s) \<Rightarrow> STACK1_RET dst (memcpy dst src bytes s))
              else STACK1_RET NULL_P s
         else SET_ERROR_FLAG_RET EFLAG_MT (STACK1 NULL_P s))"

text \<open>The re-binding of an array for DMA, and the binding to an address.\<close>

definition bind_dma :: "env \<Rightarrow> WORDPTR \<Rightarrow> UWORD \<Rightarrow> instruction" where
  "bind_dma e ptr type s =
     (let dimensions = MT_ARRAY_DIM type;
          ma = wordptr_minus ptr MT_ARRAY_PTR_OFFSET;
          inner = MT_ARRAY_INNER_TYPE type;
          opts = (MT_TYPE inner = MT_ARRAY_OPTS);
          dma_ready = opts \<and> MT_FLAGS inner AND MT_ARRAY_OPTS_DMA \<noteq> 0;
          align = (if opts \<and> \<not> dma_ready then MT_ARRAY_OPTS_ALIGN inner else 0);
          flags = (if opts \<and> \<not> dma_ready then MT_FLAGS inner else 0);
          inner = (if opts \<and> \<not> dma_ready then MT_ARRAY_OPTS_INNER inner else inner);
          new_type = MT_MAKE_ARRAY_TYPE dimensions
            (MT_MAKE_ARRAY_OPTS (flags OR MT_ARRAY_OPTS_DMA) align inner)
      in if dma_ready
         then (let data = read_offset s ma mt_array_data;
                   s = write_offset ma mt_array_type new_type s;
                   s = write_offset ma (mt_array_dimensions + dimensions) data s
               in STACK1_RET ptr s)
         else (let old_type = read_mt_type s ptr;
                   s = write_offset ma mt_array_type new_type s
               in case mt_clone ptr None s of
                    None \<Rightarrow> None
                  | Some ((ret, new_ptr), s) \<Rightarrow>
                      if ret \<noteq> 0 then Some (ret, s)
                      else (let s = write_offset ma mt_array_type old_type s
                            in case mt_release e ptr s of
                                 None \<Rightarrow> None
                               | Some (ret, s) \<Rightarrow>
                                   if ret \<noteq> 0 then Some (ret, s)
                                   else (case new_ptr of None \<Rightarrow> None | Some p \<Rightarrow> STACK1_RET p s))))"

definition bind_address :: "env \<Rightarrow> WORDPTR \<Rightarrow> UWORD \<Rightarrow> BYTEPTR \<Rightarrow> instruction" where
  "bind_address e ptr type addr s =
     (let dimensions = MT_ARRAY_DIM type;
          inner = MT_ARRAY_INNER_TYPE type;
          flags = MT_FLAGS inner;
          finish = (\<lambda>s. STACK1_RET ptr (write_offset ptr 0 addr s));
          dma = (\<lambda>s. finish (if flags AND MT_ARRAY_OPTS_DMA \<noteq> 0
                             then write_offset ptr (1 + dimensions) addr s else s))
      in if MT_TYPE inner = MT_ARRAY_OPTS
         then if flags AND MT_ARRAY_OPTS_SEPARATED \<noteq> 0
              then (let data = read_offset s ptr 0
                    in if data \<noteq> NULL_P
                       then (case mt_release e data s of
                               None \<Rightarrow> None
                             | Some (ret, s) \<Rightarrow> if ret \<noteq> 0 then Some (ret, s) else dma s)
                       else dma s)
              else dma s
         else finish s)"

definition ins_mt_bind :: "env \<Rightarrow> instruction" where
  "ins_mt_bind e s =
     (let data = creg s; ptr = breg s; bind_type = areg s;
          type = read_mt_type s ptr;
          fail = SET_ERROR_FLAG_RET EFLAG_MT (STACK1 NULL_P s)
      in if type AND MT_SIMPLE \<noteq> 0 \<and> MT_TYPE type = MT_ARRAY
         then if bind_type = MT_BIND_VIRTUAL \<or> bind_type = MT_BIND_PHYSICAL
              then bind_address e ptr type data s
              else if bind_type = MT_BIND_DMA then bind_dma e ptr type s
              else fail
         else fail)"

text \<open>Resizing: the loops that move the elements to the new array and that release elements.\<close>

fun move_words :: "nat \<Rightarrow> WORDPTR \<Rightarrow> WORDPTR \<Rightarrow> mach \<Rightarrow> mach" where
  "move_words 0 dst_data src_data s = s"
| "move_words (Suc n) dst_data src_data s =
     (let inner_ptr = get_word s src_data;
          s = put_word dst_data inner_ptr s;
          s = put_word src_data NULL_P s
      in move_words n (wordptr_plus dst_data 1) (wordptr_plus src_data 1) s)"

fun release_words :: "env \<Rightarrow> nat \<Rightarrow> WORDPTR \<Rightarrow> mach \<Rightarrow> mach option" where
  "release_words e 0 data s = Some s"
| "release_words e (Suc n) data s =
     (let p = get_word s data
      in if p \<noteq> NULL_P
         then (case mt_release e p s of
                 None \<Rightarrow> None
               | Some (ret, s) \<Rightarrow> release_words e n (wordptr_plus data 1) (put_word data NULL_P s))
         else release_words e n (wordptr_plus data 1) s)"

definition resize_realloc :: "env \<Rightarrow> WORDPTR \<Rightarrow> UWORD \<Rightarrow> UWORD \<Rightarrow> UWORD \<Rightarrow> instruction" where
  "resize_realloc e ptr type old_size new_size s =
     (let src = wordptr_minus ptr MT_ARRAY_PTR_OFFSET;
          inner_type = strip_opts (MT_ARRAY_INNER_TYPE type);
          count = (if old_size < new_size then old_size else new_size);
          dimensions = MT_ARRAY_DIM type
      in case mt_alloc_array_int type new_size False s of
           None \<Rightarrow> None
         | Some ((dst, size_shift), s) \<Rightarrow>
             (let s = s\<lparr>mem := copy_words (unat dimensions) (wordptr_plus dst mt_array_dimensions)
                         (wordptr_plus src mt_array_dimensions) (mem s)\<rparr>;
                  dst_data = read_offset s dst mt_array_data;
                  src_data = read_offset s src mt_array_data;
                  s = (if MT_TYPE inner_type = MT_NUM
                       then memcpy dst_data src_data (push_bit size_shift count) s
                       else (let s = move_words (unat count) dst_data src_data s
                             in if new_size > old_size
                                then s\<lparr>mem := set_words (unat (new_size - old_size))
                                         (wordptr_plus dst_data count) NULL_P (mem s)\<rparr>
                                else s))
              in case mt_release_simple e ptr type s of
                   None \<Rightarrow> None
                 | Some (ret, s) \<Rightarrow> STACK1_RET (wordptr_plus dst MT_ARRAY_PTR_OFFSET) s))"

definition ins_mt_resize :: "env \<Rightarrow> instruction" where
  "ins_mt_resize e s =
     (let resize_type = areg s; ptr = breg s; new_size = creg s;
          type = read_mt_type s ptr;
          fail = SET_ERROR_FLAG_RET EFLAG_MT (STACK1 NULL_P s)
      in if resize_type = MT_RESIZE_DATA \<and> ptr \<noteq> NULL_P
         then if type AND MT_SIMPLE \<noteq> 0 \<and> MT_TYPE type = MT_ARRAY
              then (let ma = wordptr_minus ptr MT_ARRAY_PTR_OFFSET;
                        inner_type = strip_opts (MT_ARRAY_INNER_TYPE type);
                        old_size = read_offset s ma mt_array_size
                    in if old_size < new_size \<or> new_size < drop_bit 1 old_size
                       then resize_realloc e ptr type old_size new_size s
                       else if old_size > new_size \<and> MT_TYPE inner_type \<noteq> MT_NUM
                       then (case release_words e (unat (old_size - new_size))
                                    (read_offset s ma mt_array_data) s of
                               None \<Rightarrow> None
                             | Some s \<Rightarrow> STACK1_RET ptr s)
                       else STACK1_RET ptr s)
              else fail
         else fail)"

text \<open>The entry points for C code that embeds the machine.\<close>

definition tvm_mt_alloc :: "UWORD \<Rightarrow> UWORD \<Rightarrow> mach \<Rightarrow> WORDPTR result" where
  "tvm_mt_alloc type sz s =
     (case mt_alloc type sz s of
        None \<Rightarrow> None
      | Some ((ret, ptr), s) \<Rightarrow> if ret = 0 then Some (ptr, s) else Some (NULL_P, s))"

definition tvm_mt_release :: "env \<Rightarrow> WORDPTR \<Rightarrow> mach \<Rightarrow> mach option" where
  "tvm_mt_release e ptr s = map_option snd (mt_release e ptr s)"

section \<open>Dynamic processes (ins_proc.c)\<close>

definition ins_proc_alloc :: instruction where
  "ins_proc_alloc s =
     (let flags = areg s; words = breg s
      in SET_ERROR_FLAG_IF (flags \<noteq> 0) EFLAG_PROC
           (\<lambda>s. case mt_alloc_data (MT_SIMPLE OR MT_MAKE_TYPE MT_DATA) (push_bit WSH words) s of
                  None \<Rightarrow> None
                | Some (ws, s) \<Rightarrow> STACK1_RET ws s) s)"

definition ins_proc_param :: instruction where
  "ins_proc_param s =
     (let ws = breg s; off = areg s; param = creg s
      in UNDEFINE_STACK_RET (put_word (wordptr_plus ws off) param s))"

definition ins_proc_mt_copy :: instruction where
  "ins_proc_mt_copy s =
     (let ptr = creg s; ws = breg s; off = areg s
      in if ptr \<noteq> NULL_P
         then (case mt_clone ptr (Some ptr) s of
                 None \<Rightarrow> None
               | Some ((ret, ptr), s) \<Rightarrow>
                   if ret \<noteq> 0 then Some (ret, s)
                   else (case ptr of
                           None \<Rightarrow> None
                         | Some ptr \<Rightarrow> UNDEFINE_STACK_RET (put_word (wordptr_plus ws off) ptr s)))
         else UNDEFINE_STACK_RET (put_word (wordptr_plus ws off) ptr s))"

definition ins_proc_mt_move :: instruction where
  "ins_proc_mt_move s =
     (let pptr = creg s; ws = breg s; off = areg s
      in SET_ERROR_FLAG_IF (pptr = NULL_P) EFLAG_PROC
           (\<lambda>s. let ptr = get_word s pptr
                in if ptr \<noteq> NULL_P
                   then (case mt_io_update (Local ptr) s of
                           None \<Rightarrow> None
                         | Some ((ret, move), s) \<Rightarrow>
                             if ret \<noteq> 0 then Some (ret, s)
                             else (let s = (if move = MT_TRUE then put_word pptr NULL_P s else s)
                                   in UNDEFINE_STACK_RET (put_word (wordptr_plus ws off) ptr s)))
                   else UNDEFINE_STACK_RET (put_word (wordptr_plus ws off) ptr s)) s)"

definition ins_proc_start :: instruction where
  "ins_proc_start s =
     (let code = creg s; ws = breg s; off = areg s;
          ws = wordptr_plus ws off
      in UNDEFINE_STACK_RET (ADD_TO_QUEUE_IPTR ws code s))"

definition ins_proc_end :: "env \<Rightarrow> instruction" where
  "ins_proc_end e s =
     (let ws = areg s
      in case mt_release_simple e ws (MT_MAKE_TYPE MT_DATA) s of
           None \<Rightarrow> None
         | Some (ret, s) \<Rightarrow> run_next_on_queue s)"

definition ins_getaff :: instruction where
  "ins_getaff s = STACK_RET 0 (areg s) (breg s) s"

definition ins_setaff :: instruction where
  "ins_setaff s = STACK2_RET (breg s) (creg s) s"

definition ins_getpas :: instruction where
  "ins_getpas s = STACK_RET 0 (areg s) (breg s) s"

end
