(* ===== verification/TVM_LongArith.thy ===== *)
theory TVM_LongArith
  imports TVM_Arith
begin

text \<open>
  Correctness of the arithmetic of ins_sec.c: the overflow tests against the signed values, the
  carry and borrow of the long additions, the agreement of the two builds of the long multiply
  and shifts, and normalisation.
\<close>

lemma add_overflows_bits: "add_overflows r x y \<longleftrightarrow> bit r 31 \<noteq> bit x 31 \<and> bit r 31 \<noteq> bit y 31"
  unfolding add_overflows_def WORD_BITS_def numeral_eq_Suc pred_numeral_simps diff_Suc_1
  unfolding numeral_eq_Suc[symmetric]
  using drop_bit_31[of "(r XOR x) AND (r XOR y)"] by (simp only: bit_and_iff bit_xor_iff) (auto simp: numeral_eq_Suc)

lemma sub_overflows_bits: "sub_overflows r x y \<longleftrightarrow> bit x 31 \<noteq> bit y 31 \<and> bit r 31 \<noteq> bit x 31"
  unfolding sub_overflows_def WORD_BITS_def
  using drop_bit_31[of "(x XOR y) AND (r XOR x)"] by (simp only: bit_and_iff bit_xor_iff) (auto simp: numeral_eq_Suc)

lemma add_overflows_iff:
  "add_overflows (x + y + (c AND 1)) x y \<longleftrightarrow> sint (x + y + (c AND 1)) \<noteq> sint x + sint y + sint (c AND 1)"
proof -
  have c: "sint (c AND 1) = 0 \<or> sint (c AND 1) = 1"
    by (cases "even c") (auto simp: and_one_eq even_iff_mod_2_eq_zero odd_iff_mod_2_eq_one)
  show ?thesis
    using c sint_range[of x] sint_range[of y] sint_add[of "x + y" "c AND 1"] sint_add[of x y]
    by (auto simp: add_overflows_bits bit_31_sint)
qed

lemma sub_overflows_iff:
  "sub_overflows (x - y - (c AND 1)) x y \<longleftrightarrow> sint (x - y - (c AND 1)) \<noteq> sint x - sint y - sint (c AND 1)"
proof -
  have c: "sint (c AND 1) = 0 \<or> sint (c AND 1) = 1"
    by (cases "even c") (auto simp: and_one_eq even_iff_mod_2_eq_zero odd_iff_mod_2_eq_one)
  show ?thesis
    using c sint_range[of x] sint_range[of y] sint_sub[of "x - y" "c AND 1"] sint_sub[of x y]
    by (auto simp: sub_overflows_bits bit_31_sint)
qed

lemma add_overflows_no_carry: "add_overflows (x + y) x y \<longleftrightarrow> sint (x + y) \<noteq> sint x + sint y"
  using add_overflows_iff[of x y 0] by simp

lemma sub_overflows_no_carry: "sub_overflows (x - y) x y \<longleftrightarrow> sint (x - y) \<noteq> sint x - sint y"
  using sub_overflows_iff[of x y 0] by simp

lemma uint_nonneg: "- 1 < uint (x :: WORD)"
  using uint_ge_0[of x] by linarith

lemma bit_31_uint: "bit (x :: WORD) 31 \<longleftrightarrow> 2147483648 \<le> uint x"
proof -
  have "sint x = uint x \<or> sint x = uint x - 4294967296"
    using signed_wrap[of "uint x"] uint_bounded[of x] uint_ge_0[of x] by (simp add: sint_uint del: uint_ge_0)
  then show ?thesis using bit_31_sint[of x] sint_range[of x] uint_bounded[of x] uint_ge_0[of x] by auto
qed

lemma drop_bit_31_of_bool: "drop_bit 31 (x :: WORD) = of_bool (bit x 31)"
proof (rule bit_word_eqI)
  fix n assume "n < LENGTH(32)"
  show "bit (drop_bit 31 x) n = bit (of_bool (bit x 31) :: WORD) n"
    by (cases n) (auto simp: bit_simps dest: bit_imp_le_length)
qed

lemma uint_sub_32: "uint (x - y :: WORD) =
   (if uint y \<le> uint x then uint x - uint y else uint x - uint y + 4294967296)"
  using uint_sub_lem[of y x] uint_bounded[of x] uint_bounded[of y]
  by (auto simp: uint_word_ariths) (smt (verit, best) mod_add_self2 mod_pos_pos_trivial uint_ge_0)

lemma lsum_carry:
  "drop_bit 31 ((x AND y) OR ((x OR y) AND NOT (x + y))) = (of_bool (4294967296 \<le> uint x + uint y) :: WORD)"
  using uint_add_32[of x y] uint_bounded[of x] uint_bounded[of y] uint_nonneg[of x] uint_nonneg[of y]
  by (auto simp: drop_bit_31_of_bool bit_simps simp del: bit_31_uint) (auto simp: bit_31_uint split: if_splits)

lemma and_minus_or: "(x AND y) - (x OR y) - 1 = NOT (x XOR y :: WORD)"
proof -
  have "x OR y = (x AND y) OR (x XOR y)" by (rule bit_word_eqI) (auto simp: bit_simps)
  also have "\<dots> = (x AND y) + (x XOR y)"
    by (rule disjunctive_add_eq_or[symmetric]) (auto intro: bit_word_eqI simp: bit_simps)
  finally show ?thesis by (simp add: not_eq_complement)
qed

lemma ldiff_borrow:
  "drop_bit 31 ((NOT x AND y) OR (((x AND y) - (x OR y) - 1) AND (x - y - (c AND 1)))) =
   (of_bool (uint x < uint y + uint (c AND 1)) :: WORD)"
proof -
  have c: "uint (c AND 1) = 0 \<or> uint (c AND 1) = 1"
    by (cases "even c") (auto simp: and_one_eq even_iff_mod_2_eq_zero odd_iff_mod_2_eq_one)
  show ?thesis
    using c uint_sub_32[of "x - y" "c AND 1"] uint_sub_32[of x y] uint_bounded[of x] uint_bounded[of y]
      uint_nonneg[of x] uint_nonneg[of y] uint_bounded[of "x - y - (c AND 1)"] uint_nonneg[of "x - y - (c AND 1)"]
    unfolding and_minus_or
    by (auto simp: drop_bit_31_of_bool bit_simps) (auto simp: bit_31_uint split: if_splits)
qed

lemma unat_hi16: "unat (drop_bit 16 (x :: WORD)) = unat x div 65536"
  by (subst unat_drop_bit_eq) (simp add: drop_bit_eq_div)

lemma unat_lo16: "unat ((x :: WORD) AND 0xFFFF) = unat x mod 65536"
proof -
  have "x AND 0xFFFF = take_bit 16 x" by (simp add: take_bit_eq_mask mask_eq_exp_minus_1)
  then show ?thesis by (simp only: unsigned_take_bit_eq) (simp add: take_bit_eq_mod)
qed

text \<open>The double-length product of two words from four half-word products.\<close>

lemma product_of_limbs:
  fixes u0 u1 v0 v1 :: nat
  assumes "u1 * v1 = q1 * 65536 + r1" "u0 * v1 + q1 = q2 * 65536 + r2" "u1 * v0 + r2 = q3 * 65536 + r3"
  shows "(u0 * v0 + q2 + q3) * 4294967296 + (r3 * 65536 + r1) = (u0 * 65536 + u1) * (v0 * 65536 + v1)"
proof -
  have eq: "(u0 * 65536 + u1) * (v0 * 65536 + v1) =
      (u0 * v0) * 4294967296 + (u0 * v1) * 65536 + (u1 * v0) * 65536 + u1 * v1"
    by (simp add: algebra_simps)
  have lin: "(a + q2 + q3) * 4294967296 + (r3 * 65536 + r1) = a * 4294967296 + b * 65536 + c * 65536 + d"
    if "d = q1 * 65536 + r1" "b + q1 = q2 * 65536 + r2" "c + r2 = q3 * 65536 + r3" for a b c d :: nat
    using that by simp
  show ?thesis
    using lin[OF assms] unfolding eq .
qed

lemma product_from_halves:
  fixes u v :: nat
  assumes "t1 = (u mod 65536) * (v mod 65536)" "t2 = (u div 65536) * (v mod 65536) + t1 div 65536"
    and "t3 = (u mod 65536) * (v div 65536) + t2 mod 65536"
  shows "((u div 65536) * (v div 65536) + t2 div 65536 + t3 div 65536) * 4294967296 +
     ((t3 mod 65536) * 65536 + t1 mod 65536) = u * v"
  using product_of_limbs[of "u mod 65536" "v mod 65536" "t1 div 65536" "t1 mod 65536" "u div 65536"
      "t2 div 65536" "t2 mod 65536" "v div 65536" "t3 div 65536" "t3 mod 65536"]
  unfolding assms(1)[symmetric] assms(2)[symmetric] assms(3)[symmetric] div_mult_mod_eq by simp

lemma unat_mult_small:
  "unat (x :: WORD) < 65536 \<Longrightarrow> unat y < 65536 \<Longrightarrow> unat (x * y) = unat x * unat y"
proof -
  assume "unat x < 65536" "unat y < 65536"
  then have "unat x * unat y \<le> 65535 * 65535" by (intro mult_mono) auto
  then show ?thesis using unat_mult_lem[of x y] by simp
qed

lemma unat_add_small: "unat x + unat y < 4294967296 \<Longrightarrow> unat (x + y :: WORD) = unat x + unat y"
  using unat_add_lem[of x y] by simp

lemma half_prod_bound: "a < 65536 \<Longrightarrow> b < 65536 \<Longrightarrow> a * b \<le> (4294836225 :: nat)"
  using mult_mono[of a 65535 b 65535] by simp

lemma limb_pair_bound: "a < 65536 \<Longrightarrow> b < 65536 \<Longrightarrow> a * 65536 + b < (4294967296 :: nat)"
  by simp

lemma narrow_product:
  fixes u v :: WORD
  defines "t1 \<equiv> (u AND 0xFFFF) * (v AND 0xFFFF)"
  defines "t2 \<equiv> drop_bit 16 u * (v AND 0xFFFF) + drop_bit 16 t1"
  defines "t3 \<equiv> (u AND 0xFFFF) * drop_bit 16 v + (t2 AND 0xFFFF)"
  defines "hi \<equiv> drop_bit 16 u * drop_bit 16 v + drop_bit 16 t2 + drop_bit 16 t3"
  defines "lo \<equiv> push_bit 16 t3 + (t1 AND 0xFFFF)"
  shows "unat hi * 4294967296 + unat lo = unat u * unat v"
proof -
  let ?u = "unat u" and ?v = "unat v"
  have b: "?u div 65536 < 65536" "?v div 65536 < 65536" "?u mod 65536 < 65536" "?v mod 65536 < 65536"
    using unat_bound[of u] unat_bound[of v] by (simp_all add: less_mult_imp_div_less)
  note p = half_prod_bound[OF b(1,2)] half_prod_bound[OF b(1,4)] half_prod_bound[OF b(3,2)] half_prod_bound[OF b(3,4)]
  have t1: "unat t1 = (?u mod 65536) * (?v mod 65536)"
    unfolding t1_def using b by (subst unat_mult_small) (simp_all add: unat_lo16)
  have m2: "unat (drop_bit 16 u * (v AND 0xFFFF)) = (?u div 65536) * (?v mod 65536)"
    using b by (subst unat_mult_small) (simp_all add: unat_lo16 unat_hi16)
  have t2: "unat t2 = (?u div 65536) * (?v mod 65536) + unat t1 div 65536"
    unfolding t2_def using m2 p unat_bound[of t1] less_mult_imp_div_less[of "unat t1" 65536 65536]
    by (subst unat_add_small) (simp_all add: unat_hi16)
  have m3: "unat ((u AND 0xFFFF) * drop_bit 16 v) = (?u mod 65536) * (?v div 65536)"
    using b by (subst unat_mult_small) (simp_all add: unat_lo16 unat_hi16)
  have t3: "unat t3 = (?u mod 65536) * (?v div 65536) + unat t2 mod 65536"
  proof -
    have r: "unat t2 mod 65536 \<le> 65535" using mod_less_divisor[of 65536 "unat t2"] by simp
    have "unat ((u AND 0xFFFF) * drop_bit 16 v) + unat (t2 AND 0xFFFF) < 4294967296"
      unfolding m3 unat_lo16 by (rule le_less_trans[OF add_mono[OF p(3) r]]) simp
    then show ?thesis unfolding t3_def by (subst unat_add_small) (simp_all add: m3 unat_lo16)
  qed
  have m4: "unat (drop_bit 16 u * drop_bit 16 v) = (?u div 65536) * (?v div 65536)"
    using b by (subst unat_mult_small) (simp_all add: unat_hi16)
  have d23: "unat t2 div 65536 < 65536" "unat t3 div 65536 < 65536"
    using unat_bound[of t2] unat_bound[of t3] by (simp_all add: less_mult_imp_div_less)
  then have m5: "unat (drop_bit 16 u * drop_bit 16 v + drop_bit 16 t2) =
      (?u div 65536) * (?v div 65536) + unat t2 div 65536"
    using m4 p by (subst unat_add_small) (simp_all add: unat_hi16)
  then have hi: "unat hi = (?u div 65536) * (?v div 65536) + unat t2 div 65536 + unat t3 div 65536"
    unfolding hi_def using d23 p by (subst unat_add_small) (simp_all add: unat_hi16)
  have sh: "unat (push_bit 16 t3) = (unat t3 mod 65536) * 65536"
    by (simp only: unsigned_push_bit_eq take_bit_push_bit) (simp add: push_bit_eq_mult take_bit_eq_mod)
  have lo: "unat lo = (unat t3 mod 65536) * 65536 + unat t1 mod 65536"
  proof -
    have "unat (push_bit 16 t3) + unat (t1 AND 0xFFFF) < 4294967296"
      unfolding sh unat_lo16 by (rule limb_pair_bound) simp_all
    then show ?thesis unfolding lo_def by (subst unat_add_small) (simp_all add: sh unat_lo16)
  qed
  show ?thesis unfolding hi lo by (rule product_from_halves[OF t1 t2 t3])
qed

lemma unat_low_word: "unat (ucast (v AND LONG_LO_MASK :: UTWOWORD) :: WORD) = unat v mod 4294967296"
proof -
  have "v AND LONG_LO_MASK = take_bit 32 v" by (simp add: LONG_LO_MASK_def take_bit_eq_mask mask_eq_exp_minus_1)
  then show ?thesis by (simp only: unsigned_take_bit_eq unsigned_ucast_eq) (simp add: take_bit_eq_mod)
qed

lemma unat_high_word: "unat (ucast (drop_bit WORD_BITS v :: UTWOWORD) :: WORD) = unat v div 4294967296"
proof -
  have "unat v < 18446744073709551616" using unsigned_less[of v] by simp
  then have "unat v div 4294967296 < 4294967296" by (simp add: less_mult_imp_div_less)
  then show ?thesis unfolding WORD_BITS_def
    by (simp only: unsigned_ucast_eq unat_drop_bit_eq) (simp add: take_bit_eq_mod drop_bit_eq_div)
qed

lemma unat_mac: "unat (ucast (b :: WORD) * ucast (a :: WORD) + ucast (c :: WORD) :: UTWOWORD) =
   unat b * unat a + unat c"
proof -
  have p: "unat b * unat a \<le> 4294967295 * 4294967295"
    using unat_bound[of b] unat_bound[of a] by (intro mult_mono) auto
  have u: "unat (ucast (x :: WORD) :: UTWOWORD) = unat x" for x
    by (simp add: unsigned_ucast_eq take_bit_eq_mod) (use unat_bound[of x] in simp)
  have m: "unat (ucast b * ucast a :: UTWOWORD) = unat b * unat a"
    using unat_mult_lem[of "ucast b :: UTWOWORD" "ucast a"] p by (simp add: u)
  then show ?thesis
    using unat_add_lem[of "ucast b * ucast a :: UTWOWORD" "ucast c"] p unat_bound[of c] by (simp add: u)
qed

lemma carry_div_mod:
  fixes h t K :: nat
  assumes "t < 2 * K"
  shows "(h * K + t) mod K = (if t < K then t else t - K)" "(h * K + t) div K = (if t < K then h else h + 1)"
proof -
  have *: "(h * K + t) mod K = (if t < K then t else t - K) \<and> (h * K + t) div K = (if t < K then h else h + 1)"
  proof (cases "t < K")
    case True
    then show ?thesis by simp
  next
    case False
    then obtain d where t: "t = K + d" "d < K" using assms by (metis add_less_cancel_left le_add_diff_inverse mult_2 not_less)
    have "h * K + t = d + (h + 1) * K" using t by simp
    then show ?thesis using t False by (simp only: mod_mult_self1 div_mult_self1) simp
  qed
  then show "(h * K + t) mod K = (if t < K then t else t - K)" "(h * K + t) div K = (if t < K then h else h + 1)"
    by blast+
qed

lemma narrow_mac:
  fixes hi lo c :: WORD
  assumes "unat hi * 4294967296 + unat lo = P" "P + unat c < 18446744073709551616"
  shows "unat (lo + c) = (P + unat c) mod 4294967296"
    and "unat (hi + drop_bit 31 ((lo AND c) OR ((lo OR c) AND NOT (lo + c)))) = (P + unat c) div 4294967296"
proof -
  have u: "uint lo + uint c = int (unat lo + unat c)" by simp
  have c: "drop_bit 31 ((lo AND c) OR ((lo OR c) AND NOT (lo + c))) =
      (of_bool (4294967296 \<le> unat lo + unat c) :: WORD)"
    unfolding lsum_carry u by (simp only: of_nat_le_iff[symmetric, where 'a = int] of_nat_numeral)
  have s: "unat (lo + c) = (if unat lo + unat c < 4294967296 then unat lo + unat c else unat lo + unat c - 4294967296)"
    using unat_plus_if'[of lo c] by simp
  have h: "unat hi + 1 < 4294967296 \<or> unat lo + unat c < 4294967296"
    using assms by linarith
  have P: "P + unat c = unat hi * 4294967296 + (unat lo + unat c)" using assms(1) by simp
  have t: "unat lo + unat c < 2 * 4294967296" using unat_bound[of lo] unat_bound[of c] by simp
  show "unat (lo + c) = (P + unat c) mod 4294967296"
    unfolding s P carry_div_mod(1)[OF t] ..
  show "unat (hi + drop_bit 31 ((lo AND c) OR ((lo OR c) AND NOT (lo + c)))) = (P + unat c) div 4294967296"
    unfolding c P carry_div_mod(2)[OF t] using h by (auto simp: unat_add_small)
qed

lemma ins_lmul_narrow_eq: "ins_lmul_narrow s = ins_lmul s"
proof -
  let ?P = "unat (breg s) * unat (areg s)" and ?V = "ucast (breg s) * ucast (areg s) + ucast (creg s) :: UTWOWORD"
  have "unat ?V < 18446744073709551616" using unsigned_less[of ?V] by simp
  then have b: "?P + unat (creg s) < 18446744073709551616" by (simp only: unat_mac)
  note n = narrow_mac[OF narrow_product[of "breg s" "areg s"] b]
  note w = unat_low_word[of ?V] unat_high_word[of ?V]
  show ?thesis
    unfolding ins_lmul_narrow_def ins_lmul_def Let_def STACK2_RET_def STACK2_def
    using n w by (simp add: unat_mac word_unat_eq_iff)
qed

lemma bit_join_words:
  "bit (join_words hi lo) n \<longleftrightarrow> (if n < 32 then bit lo n else n < 64 \<and> bit hi (n - 32))"
  by (auto simp: join_words_def WORD_BITS_def bit_simps dest: bit_imp_le_length)

lemma low_word_bit: "bit (ucast (v AND LONG_LO_MASK :: UTWOWORD) :: WORD) n \<longleftrightarrow> n < 32 \<and> bit v n"
proof -
  have m: "LONG_LO_MASK = mask 32" by (simp add: LONG_LO_MASK_def mask_eq_exp_minus_1)
  show ?thesis unfolding m by (auto simp: bit_simps)
qed

lemma high_word_bit: "bit (ucast (drop_bit WORD_BITS v :: UTWOWORD) :: WORD) n \<longleftrightarrow> n < 32 \<and> bit v (n + 32)"
  by (auto simp: WORD_BITS_def bit_simps add.commute)

lemma join_split: "join_words (ucast (drop_bit WORD_BITS v)) (ucast (v AND LONG_LO_MASK)) = v"
  by (rule bit_word_eqI) (auto simp: bit_join_words low_word_bit high_word_bit)

lemma split_join:
  "ucast (join_words hi lo AND LONG_LO_MASK) = lo" "ucast (drop_bit WORD_BITS (join_words hi lo)) = hi"
  by (rule bit_word_eqI; simp add: bit_join_words low_word_bit high_word_bit)+

lemma join_words_inject: "join_words hi lo = join_words hi' lo' \<longleftrightarrow> hi = hi' \<and> lo = lo'"
  using split_join by metis

definition long_of :: "WORD \<times> WORD \<Rightarrow> UTWOWORD" where
  "long_of p = join_words (fst p) (snd p)"

text \<open>One turn of each shifting loop.\<close>

lemma and_1_bit: "(x :: WORD) AND 1 = 0 \<longleftrightarrow> \<not> bit x 0"
  by (simp add: and_one_eq bit_0 even_iff_mod_2_eq_zero)

lemma and_msb_bit: "(x :: WORD) AND 0x80000000 = 0 \<longleftrightarrow> \<not> bit x 31"
proof -
  have "(0x80000000 :: WORD) = push_bit 31 1" by simp
  then show ?thesis by (metis and_exp_eq_0_iff_not_bit push_bit_of_1)
qed

lemma bit_msb: "bit (0x80000000 :: WORD) n \<longleftrightarrow> n = 31"
proof -
  have "(0x80000000 :: WORD) = push_bit 31 1" by simp
  then show ?thesis by (simp only: bit_push_bit_iff bit_1_iff) auto
qed

lemma shift_right_step:
  "join_words (drop_bit 1 c) (drop_bit 1 b OR (if c AND 1 = 0 then 0 else 0x80000000)) = drop_bit 1 (join_words c b)"
proof (rule bit_word_eqI)
  fix n assume "n < LENGTH(64)"
  then consider "n < 31" | "n = 31" | "32 \<le> n" "n < 64" by fastforce
  then show "bit (join_words (drop_bit 1 c) (drop_bit 1 b OR (if c AND 1 = 0 then 0 else 0x80000000))) n =
      bit (drop_bit 1 (join_words c b)) n"
    unfolding bit_join_words bit_drop_bit_eq bit_or_iff and_1_bit comp_def
    using bit_msb[of n] bit_msb[of "n - 32"] Suc_diff_le[of 32 n] diff_Suc_Suc[of n 31]
    by cases (auto simp del: bit_0 dest: bit_imp_le_length)
qed

lemma shift_left_step:
  "join_words (push_bit 1 c OR (if b AND 0x80000000 = 0 then 0 else 1)) (push_bit 1 b) = push_bit 1 (join_words c b)"
proof (rule bit_word_eqI)
  fix n assume "n < LENGTH(64)"
  then consider "n = 0" | "0 < n" "n < 32" | "n = 32" | "33 \<le> n" "n < 64" by fastforce
  then show "bit (join_words (push_bit 1 c OR (if b AND 0x80000000 = 0 then 0 else 1)) (push_bit 1 b)) n =
      bit (push_bit 1 (join_words c b)) n"
    unfolding bit_join_words bit_push_bit_iff bit_or_iff and_msb_bit
    by cases (auto simp: bit_1_word bit_join_words simp del: bit_0 dest: bit_imp_le_length)
qed

lemma lshr_loop_long:
  "\<exists>b c. lshr_loop n s = s\<lparr>breg := b, creg := c\<rparr> \<and> join_words c b = drop_bit n (join_words (creg s) (breg s))"
proof (induction n arbitrary: s)
  case 0
  show ?case by (rule exI[of _ "breg s"], rule exI[of _ "creg s"]) simp
next
  case (Suc n)
  let ?t = "s\<lparr>creg := drop_bit 1 (creg s),
     breg := drop_bit 1 (breg s) OR (if creg s AND 1 = 0 then 0 else 0x80000000)\<rparr>"
  have "lshr_loop (Suc n) s = lshr_loop n ?t" by (simp add: Let_def)
  moreover obtain b c where "lshr_loop n ?t = ?t\<lparr>breg := b, creg := c\<rparr>"
      "join_words c b = drop_bit n (join_words (creg ?t) (breg ?t))" using Suc.IH by blast
  moreover have "join_words (creg ?t) (breg ?t) = drop_bit 1 (join_words (creg s) (breg s))"
    using shift_right_step[of "creg s" "breg s"] by simp
  ultimately show ?case by (intro exI[of _ b] exI[of _ c]) (simp add: add.commute)
qed

lemma lshl_loop_long:
  "\<exists>b c. lshl_loop n s = s\<lparr>breg := b, creg := c\<rparr> \<and> join_words c b = push_bit n (join_words (creg s) (breg s))"
proof (induction n arbitrary: s)
  case 0
  show ?case by (rule exI[of _ "breg s"], rule exI[of _ "creg s"]) simp
next
  case (Suc n)
  let ?t = "s\<lparr>breg := push_bit 1 (breg s),
     creg := push_bit 1 (creg s) OR (if breg s AND 0x80000000 = 0 then 0 else 1)\<rparr>"
  have "lshl_loop (Suc n) s = lshl_loop n ?t" by (simp add: Let_def)
  moreover obtain b c where "lshl_loop n ?t = ?t\<lparr>breg := b, creg := c\<rparr>"
      "join_words c b = push_bit n (join_words (creg ?t) (breg ?t))" using Suc.IH by blast
  moreover have "join_words (creg ?t) (breg ?t) = push_bit 1 (join_words (creg s) (breg s))"
    using shift_left_step[where c = "creg s" and b = "breg s"] by simp
  ultimately show ?case by (intro exI[of _ b] exI[of _ c]) (simp add: add.commute)
qed

text \<open>What the long shifts leave in the low (A) and high (B) register.\<close>

lemma long_shift_ge: "64 \<le> n \<Longrightarrow> drop_bit n (v :: UTWOWORD) = 0" "64 \<le> n \<Longrightarrow> push_bit n (v :: UTWOWORD) = 0"
  by (auto intro!: bit_word_eqI simp: bit_simps dest: bit_imp_le_length)

lemma ins_lshr_long:
  "\<exists>a b. ins_lshr s = Some (ECTX_CONTINUE, s\<lparr>areg := a, breg := b\<rparr>) \<and>
     join_words b a = drop_bit (unat (areg s)) (join_words (creg s) (breg s))"
proof (cases "unat (areg s) < 64")
  case True
  let ?V = "drop_bit (unat (areg s)) (join_words (creg s) (breg s))"
  have "ins_lshr s = Some (ECTX_CONTINUE,
      s\<lparr>areg := ucast (?V AND LONG_LO_MASK), breg := ucast (drop_bit WORD_BITS ?V)\<rparr>)"
    using True by (simp add: ins_lshr_def Let_def STACK2_RET_def STACK2_def TWOWORD_BITS_def)
  then show ?thesis using join_split[of ?V] by blast
next
  case False
  then show ?thesis unfolding ins_lshr_def Let_def STACK2_RET_def STACK2_def TWOWORD_BITS_def
    by (intro exI[of _ 0]) (simp add: long_shift_ge, simp add: join_words_def)
qed

lemma ins_lshl_long:
  "\<exists>a b. ins_lshl s = Some (ECTX_CONTINUE, s\<lparr>areg := a, breg := b\<rparr>) \<and>
     join_words b a = push_bit (unat (areg s)) (join_words (creg s) (breg s))"
proof (cases "unat (areg s) < 64")
  case True
  let ?V = "push_bit (unat (areg s)) (join_words (creg s) (breg s))"
  have "ins_lshl s = Some (ECTX_CONTINUE,
      s\<lparr>areg := ucast (?V AND LONG_LO_MASK), breg := ucast (drop_bit WORD_BITS ?V)\<rparr>)"
    using True by (simp add: ins_lshl_def Let_def STACK2_RET_def STACK2_def TWOWORD_BITS_def)
  then show ?thesis using join_split[of ?V] by blast
next
  case False
  then show ?thesis unfolding ins_lshl_def Let_def STACK2_RET_def STACK2_def TWOWORD_BITS_def
    by (intro exI[of _ 0]) (simp add: long_shift_ge, simp add: join_words_def)
qed

lemma shift_count_nonneg:
  assumes "0 \<le>s a"
  shows "shift_count a = (if unat a \<le> 64 then unat a else 64)"
proof -
  have "0 \<le> sint a" using assms by (simp add: word_sle_eq)
  then have "uint a < 2147483648" using bit_31_sint[of a] bit_31_uint[of a] by auto
  then have "sint a = uint a" using signed_wrap[of "uint a"] uint_nonneg[of a] by (simp add: sint_uint)
  moreover define k where "k = unat a"
  ultimately have "sint a = int k" by simp
  then show ?thesis unfolding k_def[symmetric] by (auto simp: shift_count_def word_sless_alt)
qed

lemma ins_lshr_narrow_long:
  "\<exists>b c a. ins_lshr_narrow s = Some (ECTX_CONTINUE, s\<lparr>areg := b, breg := c, creg := a\<rparr>) \<and>
     join_words c b = drop_bit (shift_count (areg s)) (join_words (creg s) (breg s))"
proof -
  let ?t = "if 64 <s areg s then s\<lparr>areg := 64\<rparr> else s"
  obtain b c where "lshr_loop (shift_count (areg s)) ?t = ?t\<lparr>breg := b, creg := c\<rparr>"
    "join_words c b = drop_bit (shift_count (areg s)) (join_words (creg ?t) (breg ?t))"
    using lshr_loop_long by blast
  then show ?thesis
    by (intro exI[of _ b] exI[of _ c]) (auto simp: ins_lshr_narrow_def Let_def STACK2_RET_def STACK2_def)
qed

lemma ins_lshl_narrow_long:
  "\<exists>b c a. ins_lshl_narrow s = Some (ECTX_CONTINUE, s\<lparr>areg := b, breg := c, creg := a\<rparr>) \<and>
     join_words c b = push_bit (shift_count (areg s)) (join_words (creg s) (breg s))"
proof -
  let ?t = "if 64 <s areg s then s\<lparr>areg := 64\<rparr> else s"
  obtain b c where "lshl_loop (shift_count (areg s)) ?t = ?t\<lparr>breg := b, creg := c\<rparr>"
    "join_words c b = push_bit (shift_count (areg s)) (join_words (creg ?t) (breg ?t))"
    using lshl_loop_long by blast
  then show ?thesis
    by (intro exI[of _ b] exI[of _ c]) (auto simp: ins_lshl_narrow_def Let_def STACK2_RET_def STACK2_def)
qed

text \<open>The two builds agree on registers A and B for every shift count that is not negative.\<close>

definition result_AB :: "'a result \<Rightarrow> ('a \<times> WORD \<times> WORD) option" where
  "result_AB r = map_option (\<lambda>(ret, s). (ret, areg s, breg s)) r"

lemma shift_count_saturates:
  assumes "0 \<le>s a"
  shows "drop_bit (shift_count a) (v :: UTWOWORD) = drop_bit (unat a) v"
    and "push_bit (shift_count a) v = push_bit (unat a) v"
  using shift_count_nonneg[OF assms] long_shift_ge[of "unat a" v] long_shift_ge[of 64 v] by auto

lemma long_shifts_agree:
  assumes "0 \<le>s areg s"
  shows "result_AB (ins_lshr_narrow s) = result_AB (ins_lshr s)"
    and "result_AB (ins_lshl_narrow s) = result_AB (ins_lshl s)"
proof -
  obtain a b b' c' a' where
    "ins_lshr s = Some (ECTX_CONTINUE, s\<lparr>areg := a, breg := b\<rparr>)"
    "join_words b a = drop_bit (unat (areg s)) (join_words (creg s) (breg s))"
    "ins_lshr_narrow s = Some (ECTX_CONTINUE, s\<lparr>areg := b', breg := c', creg := a'\<rparr>)"
    "join_words c' b' = drop_bit (unat (areg s)) (join_words (creg s) (breg s))"
    using ins_lshr_long[of s] ins_lshr_narrow_long[of s] shift_count_saturates(1)[OF assms] by metis
  then show "result_AB (ins_lshr_narrow s) = result_AB (ins_lshr s)"
    by (simp add: result_AB_def) (metis join_words_inject)
  obtain a b b' c' a' where
    "ins_lshl s = Some (ECTX_CONTINUE, s\<lparr>areg := a, breg := b\<rparr>)"
    "join_words b a = push_bit (unat (areg s)) (join_words (creg s) (breg s))"
    "ins_lshl_narrow s = Some (ECTX_CONTINUE, s\<lparr>areg := b', breg := c', creg := a'\<rparr>)"
    "join_words c' b' = push_bit (unat (areg s)) (join_words (creg s) (breg s))"
    using ins_lshl_long[of s] ins_lshl_narrow_long[of s] shift_count_saturates(2)[OF assms] by metis
  then show "result_AB (ins_lshl_narrow s) = result_AB (ins_lshl s)"
    by (simp add: result_AB_def) (metis join_words_inject)
qed

text \<open>Normalisation shifts the pair left until its top bit is set, and counts the places.\<close>

lemma norm_loop_step:
  "norm_loop s = (if bit (breg s) 31 then Some s
     else norm_loop (s\<lparr>breg := push_bit 1 (breg s) OR (if bit (areg s) 31 then 1 else 0),
        areg := push_bit 1 (areg s), creg := creg s + 1\<rparr>))"
  using and_msb_bit[of "breg s"] and_msb_bit[of "areg s"]
  by (subst norm_loop.simps) (simp add: MIN_INT_def Let_def)

lemma norm_loop_normalises:
  assumes "bit (join_words (breg s) (areg s)) (63 - n)" "n < 64"
    and "\<And>k. 63 - n < k \<Longrightarrow> \<not> bit (join_words (breg s) (areg s)) k"
  shows "\<exists>a b. norm_loop s = Some (s\<lparr>breg := b, areg := a, creg := creg s + of_nat n\<rparr>) \<and>
     join_words b a = push_bit n (join_words (breg s) (areg s))"
  using assms
proof (induction n arbitrary: s)
  case 0
  then have "bit (breg s) 31" by (simp add: bit_join_words)
  then show ?case by (subst norm_loop_step) (simp, intro exI[of _ "areg s"] exI[of _ "breg s"], simp)
next
  case (Suc n)
  let ?t = "s\<lparr>breg := push_bit 1 (breg s) OR (if bit (areg s) 31 then 1 else 0),
        areg := push_bit 1 (areg s), creg := creg s + 1\<rparr>"
  have "\<not> bit (join_words (breg s) (areg s)) 63" using Suc.prems(3)[of 63] by simp
  then have top: "\<not> bit (breg s) 31" by (simp add: bit_join_words)
  have J: "join_words (breg ?t) (areg ?t) = push_bit 1 (join_words (breg s) (areg s))"
    using shift_left_step[where c = "breg s" and b = "areg s"] and_msb_bit[of "areg s"] by (simp split: if_splits)
  have "bit (join_words (breg ?t) (areg ?t)) (63 - n)" 
    unfolding J bit_push_bit_iff using Suc.prems(1,2) by simp linarith
  moreover have "\<not> bit (join_words (breg ?t) (areg ?t)) k" if "63 - n < k" for k
  proof -
    have "63 - Suc n < k - 1" using that Suc.prems(2) by linarith
    then show ?thesis unfolding J bit_push_bit_iff using Suc.prems(3)[of "k - 1"] by auto
  qed
  ultimately obtain a b where "norm_loop ?t = Some (?t\<lparr>breg := b, areg := a, creg := creg ?t + of_nat n\<rparr>)"
    "join_words b a = push_bit n (join_words (breg ?t) (areg ?t))"
    using Suc.IH[of ?t] Suc.prems(2) by auto
  then show ?case using top unfolding J
    by (subst norm_loop_step) (auto simp: ac_simps)
qed

lemma highest_bit:
  assumes "(v :: UTWOWORD) \<noteq> 0"
  shows "\<exists>n < 64. bit v (63 - n) \<and> (\<forall>k. 63 - n < k \<longrightarrow> \<not> bit v k)"
proof -
  obtain k where "bit v k" using assms by (metis bit_eqI bit_0_eq bot_apply bot_bool_def)
  moreover have le: "\<forall>y. bit v y \<longrightarrow> y < 64" by (auto dest: bit_imp_le_length)
  ultimately obtain m where m: "bit v m" "\<forall>y. bit v y \<longrightarrow> y \<le> m"
    using ex_has_greatest_nat[of "bit v" k id 64] by auto
  have "m < 64" using m(1) le by blast
  moreover have "\<not> bit v k" if "m < k" for k using m(2) that by fastforce
  ultimately show ?thesis using m(1) by (intro exI[of _ "63 - m"]) simp
qed

section \<open>Properties\<close>

lemma SET_ERROR_FLAG_IF_cases:
  "SET_ERROR_FLAG_IF c flag rest s = (if c then Some (ECTX_ERROR, s\<lparr>eflags := eflags s OR flag\<rparr>) else rest s)"
  by (simp add: SET_ERROR_FLAG_IF_def set_error_flag_def ECTX_ERROR_def)

definition exact_or_overflow :: "int \<Rightarrow> (WORD \<Rightarrow> mach) \<Rightarrow> mach \<Rightarrow> (int \<times> mach) option \<Rightarrow> bool" where
  "exact_or_overflow v ok s out \<longleftrightarrow>
     out = (if - (2 ^ 31) \<le> v \<and> v < 2 ^ 31 then Some (ECTX_CONTINUE, ok (word_of_int v))
            else Some (ECTX_ERROR, s\<lparr>eflags := eflags s OR EFLAG_INTOV\<rparr>))"

lemma sint_eq_iff_fits: "sint (word_of_int v :: WORD) = v \<longleftrightarrow> - (2 ^ 31) \<le> v \<and> v < 2 ^ 31"
proof
  assume "- (2 ^ 31) \<le> v \<and> v < 2 ^ 31"
  then show "sint (word_of_int v :: WORD) = v"
    by (simp add: sint_sbintrunc' signed_take_bit_int_eq_self)
next
  assume "sint (word_of_int v :: WORD) = v"
  then show "- (2 ^ 31) \<le> v \<and> v < 2 ^ 31" using sint_range[of "word_of_int v :: WORD"] by simp
qed

lemma exact_or_overflowI:
  assumes "ovf \<longleftrightarrow> sint (r :: WORD) \<noteq> v" "r = word_of_int v"
    and "out = (if ovf then Some (ECTX_ERROR, s\<lparr>eflags := eflags s OR EFLAG_INTOV\<rparr>) else Some (ECTX_CONTINUE, ok r))"
  shows "exact_or_overflow v ok s out"
  using assms sint_eq_iff_fits[of v] by (auto simp: exact_or_overflow_def)

lemma word_of_int_sint_arith:
  "word_of_int (sint a + sint b) = (a + b :: WORD)" "word_of_int (sint a - sint b) = (a - b :: WORD)"
  "word_of_int (sint a + sint b + sint c) = (a + b + c :: WORD)"
  "word_of_int (sint a - sint b - sint c) = (a - b - c :: WORD)"
  by simp_all

text \<open>
  \<open>adc\<close>, \<open>add\<close> and \<open>sub\<close> deliver the signed result exactly when it is representable and
  raise the integer overflow error otherwise.
\<close>

theorem single_arithmetic_exact:
  "exact_or_overflow (sint (areg s) + sint (oreg s)) (\<lambda>r. s\<lparr>areg := r, oreg := 0\<rparr>) s (ins_adc s) \<and>
   exact_or_overflow (sint (breg s) + sint (areg s)) (\<lambda>r. s\<lparr>areg := r, breg := creg s\<rparr>) s (ins_add s) \<and>
   exact_or_overflow (sint (breg s) - sint (areg s)) (\<lambda>r. s\<lparr>areg := r, breg := creg s\<rparr>) s (ins_sub s)"
proof (intro conjI)
  show "exact_or_overflow (sint (areg s) + sint (oreg s)) (\<lambda>r. s\<lparr>areg := r, oreg := 0\<rparr>) s (ins_adc s)"
    by (rule exact_or_overflowI[OF add_overflows_no_carry])
      (simp_all add: word_of_int_sint_arith ins_adc_def Let_def SET_ERROR_FLAG_IF_cases CLEAR_OREG_def)
  show "exact_or_overflow (sint (breg s) + sint (areg s)) (\<lambda>r. s\<lparr>areg := r, breg := creg s\<rparr>) s (ins_add s)"
    by (rule exact_or_overflowI[OF add_overflows_no_carry])
      (simp_all add: word_of_int_sint_arith ins_add_def Let_def SET_ERROR_FLAG_IF_cases STACK2_RET_def STACK2_def)
  show "exact_or_overflow (sint (breg s) - sint (areg s)) (\<lambda>r. s\<lparr>areg := r, breg := creg s\<rparr>) s (ins_sub s)"
    by (rule exact_or_overflowI[OF sub_overflows_no_carry])
      (simp_all add: word_of_int_sint_arith ins_sub_def Let_def SET_ERROR_FLAG_IF_cases STACK2_RET_def STACK2_def)
qed

text \<open>
  \<open>ladd\<close> and \<open>lsub\<close>, with a carry or borrow in the low bit of C, deliver the signed result
  exactly when it is representable and raise the integer overflow error otherwise.
\<close>

theorem long_arithmetic_exact:
  "exact_or_overflow (sint (breg s) + sint (areg s) + sint (creg s AND 1)) (\<lambda>r. s\<lparr>areg := r\<rparr>) s (ins_ladd s) \<and>
   exact_or_overflow (sint (breg s) - sint (areg s) - sint (creg s AND 1)) (\<lambda>r. s\<lparr>areg := r\<rparr>) s (ins_lsub s)"
proof
  show "exact_or_overflow (sint (breg s) + sint (areg s) + sint (creg s AND 1)) (\<lambda>r. s\<lparr>areg := r\<rparr>) s (ins_ladd s)"
    by (rule exact_or_overflowI[OF add_overflows_iff])
      (simp_all add: word_of_int_sint_arith ins_ladd_def Let_def SET_ERROR_FLAG_IF_cases STACK1_RET_def STACK1_def)
  show "exact_or_overflow (sint (breg s) - sint (areg s) - sint (creg s AND 1)) (\<lambda>r. s\<lparr>areg := r\<rparr>) s (ins_lsub s)"
    by (rule exact_or_overflowI[OF sub_overflows_iff])
      (simp_all add: word_of_int_sint_arith ins_lsub_def Let_def SET_ERROR_FLAG_IF_cases STACK1_RET_def STACK1_def)
qed

lemma sint_of_int_fits: "- (2 ^ 31) \<le> v \<Longrightarrow> v < 2 ^ 31 \<Longrightarrow> sint (word_of_int v :: WORD) = v"
  by (simp only: sint_eq_iff_fits simp_thms)

lemma sint_eq_0: "sint (x :: WORD) = 0 \<longleftrightarrow> x = 0"
  using signed_word_eqI[of x 0] by auto

lemma signed_division_fits:
  assumes "\<not> div_overflows x y"
  shows "sint (word_of_int (sint x sdiv sint y) :: WORD) = sint x sdiv sint y"
    and "sint (word_of_int (sint x smod sint y) :: WORD) = sint x smod sint y"
proof -
  let ?q = "sint x sdiv sint y" and ?r = "sint x smod sint y"
  have y: "sint y \<noteq> 0" using assms by (simp add: div_overflows_def sint_eq_0)
  have q: "- \<bar>sint x\<bar> \<le> ?q" "?q \<le> \<bar>sint x\<bar>" using sdiv_int_range[of "sint x" "sint y"] by simp_all
  have "?q \<noteq> 2 ^ 31"
  proof
    assume big: "?q = 2 ^ 31"
    then have x: "sint x = - (2 ^ 31)" using q sint_range[of x] by simp
    then have "sint y = -1" using int_sdiv_negated_is_minus1[of "sint x" "sint y"] big by simp
    then have "y = -1" "x = MIN_INT"
      using x using signed_word_eqI[of y "-1"] signed_word_eqI[of x MIN_INT] by (simp_all add: MIN_INT_def)
    then show False using assms by (simp add: div_overflows_def)
  qed
  then show "sint (word_of_int ?q :: WORD) = ?q" using q sint_range[of x] by (intro sint_of_int_fits) auto
  show "sint (word_of_int ?r :: WORD) = ?r"
    using smod_int_range[OF y, of "sint x"] sint_range[of y] by (intro sint_of_int_fits) auto
qed

lemma smod_sgn:
  fixes x y :: int
  assumes "y \<noteq> 0"
  shows "x smod y = 0 \<or> sgn (x smod y) = sgn x"
proof -
  have "0 \<le> \<bar>x\<bar> mod \<bar>y\<bar>" using assms by (intro pos_mod_sign) simp
  then show ?thesis by (auto simp: signed_modulo_int_def sgn_mult)
qed

text \<open>
  \<open>div\<close> and \<open>rem\<close> truncate towards zero and fit together; a zero divisor and the one
  overflowing quotient raise the overflow error in both.
\<close>

theorem division_truncates:
  "if areg s = 0 \<or> areg s = -1 \<and> breg s = MIN_INT
   then ins_div s = Some (ECTX_ERROR, s\<lparr>eflags := eflags s OR EFLAG_INTOV\<rparr>) \<and> ins_rem s = ins_div s
   else \<exists>q r. ins_div s = Some (ECTX_CONTINUE, s\<lparr>areg := q, breg := creg s\<rparr>) \<and>
     ins_rem s = Some (ECTX_CONTINUE, s\<lparr>areg := r, breg := creg s\<rparr>) \<and>
     sint (breg s) = sint q * sint (areg s) + sint r \<and> \<bar>sint r\<bar> < \<bar>sint (areg s)\<bar> \<and>
     (r = 0 \<or> sgn (sint r) = sgn (sint (breg s)))"
proof (cases "div_overflows (breg s) (areg s)")
  case True
  then show ?thesis
    by (auto simp: ins_div_def ins_rem_def SET_ERROR_FLAG_IF_cases div_overflows_def)
next
  case False
  let ?q = "sint (breg s) sdiv sint (areg s)" and ?r = "sint (breg s) smod sint (areg s)"
  have nz: "sint (areg s) \<noteq> 0" using False by (simp add: div_overflows_def sint_eq_0)
  have r0: "?r = 0 \<or> sgn ?r = sgn (sint (breg s))"
    by (rule smod_sgn[OF nz])
  have r1: "\<bar>?r\<bar> < \<bar>sint (areg s)\<bar>" using smod_int_range[OF nz, of "sint (breg s)"] by auto
  have r2: "sint (breg s) = ?q * sint (areg s) + ?r" by (simp add: sdiv_mult_smod_eq)
  note r3 = signed_division_fits[OF False]
  have r4: "(word_of_int ?r :: WORD) = 0 \<longleftrightarrow> ?r = 0"
    using signed_division_fits(2)[OF False] by (metis sint_eq_0)
  have r5: "ins_div s = Some (ECTX_CONTINUE, s\<lparr>areg := word_of_int ?q, breg := creg s\<rparr>)"
    "ins_rem s = Some (ECTX_CONTINUE, s\<lparr>areg := word_of_int ?r, breg := creg s\<rparr>)"
    using False by (simp_all add: ins_div_def ins_rem_def SET_ERROR_FLAG_IF_cases STACK2_RET_def STACK2_def)
  have r6: "\<not> (areg s = 0 \<or> areg s = -1 \<and> breg s = MIN_INT)" using False by (simp add: div_overflows_def)
  show ?thesis unfolding if_not_P[OF r6]
    by (rule exI[of _ "word_of_int ?q"], rule exI[of _ "word_of_int ?r"]) (use r0 r1 r2 r3 r4 r5 in simp)
qed

lemma uint_low_bit: "uint ((c :: WORD) AND 1) = of_bool (odd c)"
  by (auto simp: and_one_eq even_iff_mod_2_eq_zero odd_iff_mod_2_eq_one)

text \<open>
  C34: \<open>lsum\<close> delivers the double-length sum of two words and a carry, except when the two words
  add to all ones and there is a carry: then the carry out is lost.
\<close>

theorem lsum_exact_iff:
  "\<exists>a b. ins_lsum s = Some (ECTX_CONTINUE, s\<lparr>areg := a, breg := b\<rparr>) \<and>
     (uint a + 4294967296 * uint b = uint (breg s) + uint (areg s) + uint (creg s AND 1) \<longleftrightarrow>
      \<not> (uint (breg s) + uint (areg s) = 4294967295 \<and> odd (creg s)))"
proof -
  let ?a = "breg s + areg s + (creg s AND 1)"
  let ?b = "of_bool (4294967296 \<le> uint (breg s) + uint (areg s)) :: WORD"
  have "ins_lsum s = Some (ECTX_CONTINUE, s\<lparr>areg := ?a, breg := ?b\<rparr>)"
    using lsum_carry[of "breg s" "areg s"]
    by (simp add: ins_lsum_def Let_def STACK2_RET_def STACK2_def WORD_BITS_def)
  moreover have "uint ?a + 4294967296 * uint ?b = uint (breg s) + uint (areg s) + uint (creg s AND 1) \<longleftrightarrow>
      \<not> (uint (breg s) + uint (areg s) = 4294967295 \<and> odd (creg s))"
    using uint_add_32[of "breg s + areg s" "creg s AND 1"] uint_add_32[of "breg s" "areg s"]
      uint_nonneg[of "areg s"] uint_nonneg[of "breg s"] uint_bounded[of "areg s"] uint_bounded[of "breg s"]
    by (auto simp: uint_low_bit split: if_splits)
  ultimately show ?thesis by blast
qed

text \<open>\<open>ldiff\<close> delivers the difference of two words and a borrow, with the borrow out.\<close>

theorem ldiff_exact:
  "\<exists>a b. ins_ldiff s = Some (ECTX_CONTINUE, s\<lparr>areg := a, breg := b\<rparr>) \<and>
     uint a - 4294967296 * uint b = uint (breg s) - uint (areg s) - uint (creg s AND 1)"
proof -
  let ?a = "breg s - areg s - (creg s AND 1)"
  let ?b = "of_bool (uint (breg s) < uint (areg s) + uint (creg s AND 1)) :: WORD"
  have "ins_ldiff s = Some (ECTX_CONTINUE, s\<lparr>areg := ?a, breg := ?b\<rparr>)"
    using ldiff_borrow[of "breg s" "areg s" "creg s"]
    by (simp add: ins_ldiff_def Let_def STACK2_RET_def STACK2_def WORD_BITS_def)
  moreover have "uint ?a - 4294967296 * uint ?b = uint (breg s) - uint (areg s) - uint (creg s AND 1)"
    using uint_sub_32[of "breg s - areg s" "creg s AND 1"] uint_sub_32[of "breg s" "areg s"]
      uint_nonneg[of "areg s"] uint_nonneg[of "breg s"] uint_bounded[of "areg s"] uint_bounded[of "breg s"]
    by (auto simp: uint_low_bit split: if_splits)
  ultimately show ?thesis by blast
qed

text \<open>
  C35: \<open>lmul\<close> delivers the exact double-length product plus carry, with a double word type and
  without one.
\<close>

theorem lmul_exact_and_portable:
  "\<exists>a b. ins_lmul s = Some (ECTX_CONTINUE, s\<lparr>areg := a, breg := b\<rparr>) \<and> ins_lmul_narrow s = ins_lmul s \<and>
     unat b * 4294967296 + unat a = unat (breg s) * unat (areg s) + unat (creg s)"
proof -
  let ?V = "ucast (breg s) * ucast (areg s) + ucast (creg s) :: UTWOWORD"
  have "ins_lmul s = Some (ECTX_CONTINUE,
      s\<lparr>areg := ucast (?V AND LONG_LO_MASK), breg := ucast (drop_bit WORD_BITS ?V)\<rparr>)"
    by (simp add: ins_lmul_def Let_def STACK2_RET_def STACK2_def)
  moreover have "unat (ucast (drop_bit WORD_BITS ?V) :: WORD) * 4294967296 + unat (ucast (?V AND LONG_LO_MASK) :: WORD) =
      unat ?V"
    unfolding unat_low_word unat_high_word by simp
  ultimately show ?thesis using ins_lmul_narrow_eq unat_mac by auto
qed

text \<open>
  \<open>lshr\<close> and \<open>lshl\<close> shift the long word in B (low) and C (high) by the unsigned number of
  places in A, into A (low) and B (high).
\<close>

theorem long_shifts_shift:
  "(\<exists>a b. ins_lshr s = Some (ECTX_CONTINUE, s\<lparr>areg := a, breg := b\<rparr>) \<and>
      join_words b a = drop_bit (unat (areg s)) (join_words (creg s) (breg s))) \<and>
   (\<exists>a b. ins_lshl s = Some (ECTX_CONTINUE, s\<lparr>areg := a, breg := b\<rparr>) \<and>
      join_words b a = push_bit (unat (areg s)) (join_words (creg s) (breg s)))"
  using ins_lshr_long[of s] ins_lshl_long[of s] by simp

text \<open>
  the shifting loops of the build without a double word type give the same result for a
  count that is not negative.
\<close>

theorem long_shifts_portable:
  assumes "0 \<le>s areg s"
  shows "result_AB (ins_lshr_narrow s) = result_AB (ins_lshr s) \<and>
     result_AB (ins_lshl_narrow s) = result_AB (ins_lshl s)"
  using long_shifts_agree[OF assms] by simp

theorem long_shifts_portable_witness:
  "result_AB (ins_lshr_narrow (blank\<lparr>areg := 5, creg := 0x123\<rparr>)) = result_AB (ins_lshr (blank\<lparr>areg := 5, creg := 0x123\<rparr>)) \<and>
   result_AB (ins_lshl_narrow (blank\<lparr>areg := 5, creg := 0x123\<rparr>)) = result_AB (ins_lshl (blank\<lparr>areg := 5, creg := 0x123\<rparr>))"
  by (rule long_shifts_portable) (simp add: word_sle_eq)

text \<open>
  \<open>norm\<close> always ends; it shifts the long word in A (low) and B (high) left until its top bit
  is set and leaves the number of places in C, 64 for zero.
\<close>

theorem norm_normalises:
  "\<exists>a b n. ins_norm s = Some (ECTX_CONTINUE, s\<lparr>areg := a, breg := b, creg := of_nat n\<rparr>) \<and> n \<le> 64 \<and>
     join_words b a = push_bit n (join_words (breg s) (areg s)) \<and>
     drop_bit (64 - n) (join_words (breg s) (areg s)) = 0 \<and>
     (if join_words (breg s) (areg s) = 0 then n = 64 else bit (join_words b a) 63)"
proof (cases "join_words (breg s) (areg s) = 0")
  case True
  then have z: "areg s = 0" "breg s = 0"
    using join_words_inject[of "breg s" "areg s" 0 0] by (simp_all add: join_words_def)
  have "ins_norm s = Some (ECTX_CONTINUE, s\<lparr>areg := 0, breg := 0, creg := of_nat 64\<rparr>)"
    using z by (simp add: ins_norm_def STACK_def WORD_BITS_def)
  moreover have "join_words 0 0 = 0" by (simp add: join_words_def)
  ultimately show ?thesis using True
    by (intro exI[of _ 0] exI[of _ 0] exI[of _ "64 :: nat"]) simp
next
  case False
  let ?v = "join_words (breg s) (areg s)" and ?s = "s\<lparr>creg := 0\<rparr>"
  obtain n where n: "n < 64" "bit ?v (63 - n)" "\<And>k. 63 - n < k \<Longrightarrow> \<not> bit ?v k"
    using highest_bit[OF False] by blast
  obtain a b where ab: "norm_loop ?s = Some (?s\<lparr>breg := b, areg := a, creg := creg ?s + of_nat n\<rparr>)"
    "join_words b a = push_bit n ?v"
    using norm_loop_normalises[of ?s n] n by auto
  have "\<not> (areg s = 0 \<and> breg s = 0)" using False by (auto simp: join_words_def)
  then have "ins_norm s = Some (ECTX_CONTINUE, s\<lparr>areg := a, breg := b, creg := of_nat n\<rparr>)"
    using ab(1) by (auto simp: ins_norm_def Let_def)
  moreover have "drop_bit (64 - n) ?v = 0"
    using n(1) by (intro bit_word_eqI) (simp add: bit_drop_bit_eq n(3))
  moreover have "bit (join_words b a) 63" using n(1,2) ab(2) by (simp add: bit_push_bit_iff)
  ultimately show ?thesis using ab(2) n(1) False
    by (intro exI[of _ a] exI[of _ b] exI[of _ n]) simp
qed

end
