(* ===== verification/TVM_LongDivision.thy ===== *)
theory TVM_LongDivision
  imports TVM_LongArith
begin

text \<open>
  Long division without a double word type (\<open>divlu\<close> of ins_sec.c): Knuth's division of two words
  by one in base 2^16. The correctness of a quotient digit is proved on naturals, carried to
  words, and the two digits are put together.
\<close>

section \<open>Long division without a double word type\<close>

text \<open>
  One digit of the schoolbook division of \<open>u * b + d\<close> by \<open>h * b + l\<close> in base \<open>b\<close>, on naturals:
  an estimate that is not too small and fits stays so when it is decremented, and is exact when
  the test fails or the remainder estimate reaches the base.
\<close>

lemma mult_le_cancel_digit:
  fixes x u d b :: nat
  assumes "x * b \<le> u * b + d" "d < b"
  shows "x \<le> u"
proof (rule ccontr)
  assume "\<not> x \<le> u"
  then have "Suc u * b \<le> x * b" by (intro mult_le_mono1) simp
  then show False using assms by simp
qed

lemma digit_first_estimate:
  fixes u h l d b :: nat
  assumes "0 < h" "d < b"
  shows "(u * b + d) div (h * b + l) \<le> u div h"
proof -
  let ?q = "(u * b + d) div (h * b + l)"
  have "?q * (h * b + l) \<le> u * b + d" by (rule div_times_less_eq_dividend)
  then have "(?q * h) * b \<le> u * b + d" by (simp add: algebra_simps)
  then have "?q * h \<le> u" using assms(2) by (rule mult_le_cancel_digit)
  then show ?thesis using assms(1) by (simp add: less_eq_div_iff_mult_less_eq)
qed

lemma digit_exact:
  fixes u h l d b q r :: nat
  assumes "q * h + r = u" "(u * b + d) div (h * b + l) \<le> q" "0 < h * b + l" "q * l \<le> r * b + d"
  shows "q = (u * b + d) div (h * b + l)"
proof -
  have "q * (h * b + l) = (q * h) * b + q * l" by (simp add: algebra_simps)
  also have "\<dots> \<le> (q * h) * b + r * b + d" using assms(4) by simp
  also have "\<dots> = u * b + d" by (simp add: assms(1)[symmetric] add_mult_distrib)
  finally have "q \<le> (u * b + d) div (h * b + l)" using assms(3) by (simp add: less_eq_div_iff_mult_less_eq)
  then show ?thesis using assms(2) by simp
qed

lemma digit_too_big:
  fixes u h l d b q r :: nat
  assumes "q * h + r = u" "b * r + d < q * l \<or> b \<le> q" "(u * b + d) div (h * b + l) < b" "0 < h * b + l"
  shows "(u * b + d) div (h * b + l) < q"
proof (cases "b \<le> q")
  case False
  have "u * b + d = (q * h) * b + (b * r + d)" by (simp add: assms(1)[symmetric] add_mult_distrib)
  also have "\<dots> < (q * h) * b + q * l" using assms(2) False by simp
  also have "\<dots> = q * (h * b + l)" by (simp add: algebra_simps)
  finally show ?thesis using assms(4) by (simp add: div_less_iff_less_mult)
qed (use assms(3) in simp)

lemma digit_big_remainder:
  fixes u h l d b q r :: nat
  assumes "q * h + r = u" "u < h * b + l" "l < b" "b \<le> r"
  shows "q * l \<le> r * b + d"
proof (cases "l = 0")
  case False
  have "q * h < h * b" using assms by linarith
  then have "q < b" by (metis mult.commute mult_less_cancel1)
  then have "q * l \<le> b * b" using assms(3) by (intro mult_mono) auto
  also have "\<dots> \<le> r * b + d" using assms(4) by (simp add: trans_le_add1)
  finally show ?thesis .
qed simp

lemma again_test:
  fixes q vn0 un rhat :: WORD
  assumes "unat vn0 < 65536" "unat un < 65536" "unat rhat < 65536"
  shows "(q \<ge> 65536 \<or> q * vn0 > 65536 * rhat + un) \<longleftrightarrow>
     (65536 * unat rhat + unat un < unat q * unat vn0 \<or> 65536 \<le> unat q)"
proof (cases "unat q < 65536")
  case True
  have "unat (65536 * rhat) = 65536 * unat rhat" using assms(3) unat_mult_lem[of 65536 rhat] by simp
  then have "unat (65536 * rhat + un) = 65536 * unat rhat + unat un"
    using assms unat_add_small[of "65536 * rhat" un] by simp
  then show ?thesis using unat_mult_small[OF True assms(1)] True
    by (auto simp: word_less_nat_alt word_le_nat_alt)
qed (simp add: word_le_nat_alt)

lemma again_exact:
  fixes vn1 vn0 un :: WORD
  defines "V \<equiv> unat vn1 * 65536 + unat vn0"
  assumes small: "0 < unat vn1" "unat vn1 < 65536" "unat vn0 < 65536" "unat un < 65536" "u < V"
  shows "unat q * unat vn1 + unat rhat = u \<Longrightarrow> (u * 65536 + unat un) div V \<le> unat q \<Longrightarrow> unat rhat < 65536 \<Longrightarrow>
    \<exists>q'. again vn1 vn0 un q rhat = Some q' \<and> unat q' = (u * 65536 + unat un) div V"
proof (induction "65536 - unat rhat" arbitrary: q rhat rule: less_induct)
  case less
  let ?Q = "(u * 65536 + unat un) div V"
  have V: "0 < V" using small by (simp add: V_def)
  have "u * 65536 + unat un < V * 65536"
    using mult_le_mono1[of "Suc u" V 65536] small(4,5) by simp
  then have Q: "?Q < 65536" using V by (simp add: div_less_iff_less_mult mult.commute)
  show ?case
  proof (cases "65536 * unat rhat + unat un < unat q * unat vn0 \<or> 65536 \<le> unat q")
    case False
    then have "unat q = ?Q"
      using digit_exact[of "unat q" "unat vn1" "unat rhat" u 65536 "unat un" "unat vn0"] less.prems V
      by (simp add: V_def mult.commute)
    moreover have "again vn1 vn0 un q rhat = Some q"
      using False again_test[OF small(3,4) less.prems(3), of q] by (subst again.simps) (simp add: Let_def)
    ultimately show ?thesis by simp
  next
    case True
    have big: "?Q < unat q"
      using digit_too_big[OF less.prems(1), of 65536 "unat un" "unat vn0"] True Q V by (simp add: V_def)
    then have "q \<noteq> 0" by auto
    then have q1: "unat (q - 1) = unat q - 1" by (simp add: unat_minus_one)
    have r1: "unat (rhat + vn1) = unat rhat + unat vn1" using less.prems(3) small(2) by (intro unat_add_small) simp
    have inv: "unat (q - 1) * unat vn1 + unat (rhat + vn1) = u"
      using big less.prems(1) unfolding q1 r1 by (cases "unat q") simp_all
    have step: "again vn1 vn0 un q rhat =
        (if rhat + vn1 < 65536 then again vn1 vn0 un (q - 1) (rhat + vn1) else Some (q - 1))"
      using True again_test[OF small(3,4) less.prems(3), of q] by (subst again.simps) (simp add: Let_def)
    show ?thesis
    proof (cases "unat (rhat + vn1) < 65536")
      case True
      then show ?thesis using less.hyps[of "rhat + vn1" "q - 1"] step inv big q1 r1 small(1) less.prems(3)
        by (simp add: word_less_nat_alt)
    next
      case False
      then have "unat (q - 1) * unat vn0 \<le> unat (rhat + vn1) * 65536 + unat un"
        using small(3,5) by (intro digit_big_remainder[OF inv]) (simp_all add: V_def)
      then have "unat (q - 1) = ?Q"
        using digit_exact[OF inv, of 65536 "unat un" "unat vn0"] big q1 V by (simp add: V_def)
      then show ?thesis using step False by (simp add: word_less_nat_alt)
    qed
  qed
qed

lemma ldiv_digit_exact:
  fixes vn1 vn0 un un32 :: WORD
  defines "V \<equiv> unat vn1 * 65536 + unat vn0"
  assumes "32768 \<le> unat vn1" "unat vn1 < 65536" "unat vn0 < 65536" "unat un < 65536" "unat un32 < V"
  shows "\<exists>q. ldiv_digit vn1 vn0 un32 un = Some q \<and> unat q = (unat un32 * 65536 + unat un) div V"
proof -
  let ?q = "un32 div vn1"
  have q: "unat ?q = unat un32 div unat vn1" by (simp add: unat_div)
  have r: "un32 - ?q * vn1 = un32 mod vn1" by (simp add: minus_div_mult_eq_mod)
  have r': "unat (un32 mod vn1) = unat un32 mod unat vn1" by (simp add: unat_mod_distrib)
  have "unat un32 mod unat vn1 < 65536" using assms(2,3) mod_less_divisor[of "unat vn1" "unat un32"] by linarith
  moreover have "(unat un32 * 65536 + unat un) div V \<le> unat ?q"
    using digit_first_estimate[of "unat vn1" "unat un" 65536 "unat un32" "unat vn0"] assms(2,5) by (simp add: V_def q)
  ultimately have "\<exists>q'. again vn1 vn0 un ?q (un32 - ?q * vn1) = Some q' \<and>
     unat q' = (unat un32 * 65536 + unat un) div V"
    unfolding r V_def using assms(2-6)
    by (intro again_exact) (simp_all add: q r' V_def)
  moreover have "vn1 \<noteq> 0" using assms(2) by auto
  ultimately show ?thesis by (simp add: ldiv_digit_def Let_def)
qed

lemma unat_push_bit: "unat (x :: WORD) * 2 ^ k < 4294967296 \<Longrightarrow> unat (push_bit k x) = unat x * 2 ^ k"
  unfolding unsigned_push_bit_eq by (simp add: push_bit_eq_mult[where 'a = nat] take_bit_nat_eq_self)

lemma nlz_step:
  assumes "unat x = X * 2 ^ n" "2 ^ (32 - 2 * k) \<le> unat x" "k \<le> 16" "Suc (unat t) = 2 ^ (32 - k)"
  shows "\<exists>n' x'. (if x \<le> t then (n + k, push_bit k x) else (n, x)) = (n', x') \<and>
     unat x' = X * 2 ^ n' \<and> 2 ^ (32 - k) \<le> unat (x' :: WORD)"
proof (cases "x \<le> t")
  case True
  then have "unat x < 2 ^ (32 - k)" using assms(4) by (simp add: word_le_nat_alt)
  then have "unat x * 2 ^ k < 2 ^ (32 - k) * 2 ^ k" by simp
  also have "(2 :: nat) ^ (32 - k) * 2 ^ k = 2 ^ 32" using assms(3) by (simp add: power_add[symmetric])
  finally have "unat (push_bit k x) = unat x * 2 ^ k" by (intro unat_push_bit) simp
  moreover have "2 ^ (32 - 2 * k) * 2 ^ k \<le> unat x * 2 ^ k" using assms(2) by simp
  moreover have "(2 :: nat) ^ (32 - 2 * k) * 2 ^ k = 2 ^ (32 - k)" using assms(3) by (simp add: power_add[symmetric])
  ultimately show ?thesis using True assms(1) by (simp add: power_add)
next
  case False
  then show ?thesis using assms(1,4) by (simp add: word_le_nat_alt)
qed

lemma nlz_normalises:
  assumes "x \<noteq> 0"
  shows "2147483648 \<le> unat x * 2 ^ nlz x" "unat x * 2 ^ nlz x < 4294967296"
proof -
  have "0 < unat x" using assms by (simp add: unat_gt_0)
  then obtain n1 x1 where 1: "(if x \<le> 0x0000FFFF then (0 + 16, push_bit 16 x) else (0, x)) = (n1, x1)"
      "unat x1 = unat x * 2 ^ n1" "2 ^ 16 \<le> unat x1"
    using nlz_step[of x "unat x" 0 16 "0xFFFF"] by auto
  obtain n2 x2 where 2: "(if x1 \<le> 0x00FFFFFF then (n1 + 8, push_bit 8 x1) else (n1, x1)) = (n2, x2)"
      "unat x2 = unat x * 2 ^ n2" "2 ^ 24 \<le> unat x2"
    using nlz_step[OF 1(2), of 8 "0x00FFFFFF"] 1(3) by auto
  obtain n3 x3 where 3: "(if x2 \<le> 0x0FFFFFFF then (n2 + 4, push_bit 4 x2) else (n2, x2)) = (n3, x3)"
      "unat x3 = unat x * 2 ^ n3" "2 ^ 28 \<le> unat x3"
    using nlz_step[OF 2(2), of 4 "0x0FFFFFFF"] 2(3) by auto
  obtain n4 x4 where 4: "(if x3 \<le> 0x3FFFFFFF then (n3 + 2, push_bit 2 x3) else (n3, x3)) = (n4, x4)"
      "unat x4 = unat x * 2 ^ n4" "2 ^ 30 \<le> unat x4"
    using nlz_step[OF 3(2), of 2 "0x3FFFFFFF"] 3(3) by auto
  have "nlz x = (if x4 \<le> 0x7FFFFFFF then n4 + 1 else n4)"
    using assms unfolding nlz_def Let_def 1(1)[unfolded add_0] split by (simp add: 1(1)[simplified] 2(1) 3(1) 4(1) del: One_nat_def)
  moreover have "x4 \<le> 0x7FFFFFFF \<longleftrightarrow> unat x4 < 2147483648" by (auto simp: word_le_nat_alt)
  ultimately show "2147483648 \<le> unat x * 2 ^ nlz x" "unat x * 2 ^ nlz x < 4294967296"
    using 4(2,3) unat_bound[of x4] by (auto simp: mult.assoc[symmetric])
qed

lemma nlz_bound: "x \<noteq> 0 \<Longrightarrow> nlz x < 32"
proof (rule ccontr)
  assume "x \<noteq> 0" "\<not> nlz x < 32"
  then have "(2 :: nat) ^ 32 \<le> 2 ^ nlz x" by (intro power_increasing) auto
  moreover have "0 < unat x" using \<open>x \<noteq> 0\<close> by (simp add: unat_gt_0)
  ultimately have "4294967296 \<le> unat x * 2 ^ nlz x" by (cases "unat x") auto
  then show False using nlz_normalises(2)[OF \<open>x \<noteq> 0\<close>] by simp
qed

lemma unat_join_words: "unat (join_words hi lo) = unat hi * 4294967296 + unat lo"
proof -
  have "unat (ucast (drop_bit WORD_BITS (join_words hi lo)) :: WORD) * 4294967296 +
      unat (ucast (join_words hi lo AND LONG_LO_MASK) :: WORD) = unat (join_words hi lo)"
    unfolding unat_low_word unat_high_word by simp
  then show ?thesis by (simp add: split_join)
qed

text \<open>The shift of the dividend by \<open>sh\<close> places, over the gap between its two words.\<close>

lemma sign_fill: "sh < 32 \<Longrightarrow> bit (signed_drop_bit 31 (- of_nat sh :: WORD)) n \<longleftrightarrow> n < 32 \<and> 0 < sh"
proof -
  assume sh: "sh < 32"
  have "bit (- of_nat sh :: WORD) 31 \<longleftrightarrow> 0 < sh"
  proof (cases sh)
    case (Suc m)
    then have "uint (of_nat m :: WORD) = int m" using sh by (simp add: unsigned_of_nat take_bit_nat_eq_self)
    then have "\<not> bit (of_nat m :: WORD) 31" using Suc sh by (simp add: bit_31_uint)
    moreover have "(- of_nat sh :: WORD) = NOT (of_nat m)" using Suc by (simp add: not_eq_complement)
    ultimately show ?thesis using Suc by (simp add: bit_not_iff)
  qed simp
  then show "bit (signed_drop_bit 31 (- of_nat sh :: WORD)) n \<longleftrightarrow> n < 32 \<and> 0 < sh"
    by (cases n) (auto simp: bit_signed_drop_bit_iff dest: bit_imp_le_length)
qed


lemma join_shifted:
  fixes u1 u0 :: WORD
  assumes sh: "sh < 32"
  shows "join_words (push_bit sh u1 OR (drop_bit (32 - sh) u0 AND signed_drop_bit 31 (- of_nat sh))) (push_bit sh u0) =
    push_bit sh (join_words u1 u0)"
proof (rule bit_word_eqI)
  fix n assume "n < LENGTH(64)"
  then consider "n < 32" | "32 \<le> n" "n < 64" by fastforce
  then show "bit (join_words (push_bit sh u1 OR (drop_bit (32 - sh) u0 AND signed_drop_bit 31 (- of_nat sh))) (push_bit sh u0)) n
     = bit (push_bit sh (join_words u1 u0)) n"
  proof cases
    case 1
    then show ?thesis by (auto simp: bit_join_words bit_push_bit_iff)
  next
    case 2
    have "bit u0 (32 - sh + (n - 32)) \<longleftrightarrow> n - sh < 32 \<and> bit u0 (n - sh)"
      using 2 sh by (auto dest: bit_imp_le_length simp: add.commute)
    moreover have "bit u1 (n - 32 - sh) \<longleftrightarrow> bit u1 (n - sh - 32)" by (simp add: add.commute)
    ultimately show ?thesis using 2 sh
      by (auto simp: bit_join_words bit_push_bit_iff bit_or_iff bit_and_iff bit_drop_bit_eq sign_fill not_less
          dest: bit_imp_le_length)
  qed
qed

lemma unat_push_bit_64: "unat (x :: UTWOWORD) * 2 ^ k < 2 ^ 64 \<Longrightarrow> unat (push_bit k x) = unat x * 2 ^ k"
  unfolding unsigned_push_bit_eq by (simp add: push_bit_eq_mult[where 'a = nat] take_bit_nat_eq_self)

lemma remainder_of_nat:
  assumes "A = q * V + r"
  shows "(of_nat A - of_nat q * of_nat V :: WORD) = of_nat r"
  using assms by simp

text \<open>The normalised operands of a division whose quotient fits.\<close>

lemma ldiv_normalised:
  fixes u1 u0 v :: WORD
  assumes "u1 < v"
  defines "sh \<equiv> nlz v"
  defines "v' \<equiv> push_bit sh v" and "un10 \<equiv> push_bit sh u0"
    and "un32 \<equiv> push_bit sh u1 OR (drop_bit (32 - sh) u0 AND signed_drop_bit 31 (- of_nat sh))"
  shows "unat v' = unat v * 2 ^ sh" "2147483648 \<le> unat v'" "unat un32 < unat v'"
    and "unat un32 * 4294967296 + unat un10 = (unat u1 * 4294967296 + unat u0) * 2 ^ sh"
proof -
  have v: "v \<noteq> 0" using assms(1) by auto
  note n = nlz_normalises[OF v, folded sh_def] nlz_bound[OF v, folded sh_def]
  show v': "unat v' = unat v * 2 ^ sh" unfolding v'_def by (rule unat_push_bit[OF n(2)])
  then show "2147483648 \<le> unat v'" using n(1) by simp
  let ?J = "unat u1 * 4294967296 + unat u0"
  have "Suc (unat u1) \<le> unat v" using assms(1) by (simp add: word_less_nat_alt)
  then have "Suc (unat u1) * 4294967296 \<le> unat v * 4294967296" by (rule mult_le_mono1)
  then have J: "?J < unat v * 4294967296" using unat_bound[of u0] by simp
  then have W: "?J * 2 ^ sh < unat v' * 4294967296" unfolding v' by simp
  have "join_words un32 un10 = push_bit sh (join_words u1 u0)"
    unfolding un32_def un10_def by (rule join_shifted[OF n(3)])
  moreover have "unat (push_bit sh (join_words u1 u0)) = ?J * 2 ^ sh"
    using W unat_bound[of v'] by (subst unat_push_bit_64) (simp_all add: unat_join_words)
  ultimately show eq: "unat un32 * 4294967296 + unat un10 = ?J * 2 ^ sh" by (metis unat_join_words)
  have "unat un32 * 4294967296 < unat v' * 4294967296" using W eq by linarith
  then show "unat un32 < unat v'" by simp
qed

text \<open>Two digits of a quotient put together.\<close>

lemma two_digits:
  fixes u d1 d0 V :: nat
  assumes "0 < V"
  defines "A \<equiv> u * 65536 + d1" and "W \<equiv> (u * 65536 + d1) * 65536 + d0"
  shows "W div V = (A div V) * 65536 + ((A mod V) * 65536 + d0) div V"
    and "W mod V = ((A mod V) * 65536 + d0) mod V"
proof -
  have "W = (A div V) * 65536 * V + ((A mod V) * 65536 + d0)"
  proof -
    have "(x * V + y) * 65536 + d0 = x * 65536 * V + (y * 65536 + d0)" for x y by (simp add: algebra_simps)
    from this[of "A div V" "A mod V"] show ?thesis unfolding W_def A_def[symmetric] by simp
  qed
  then show "W div V = (A div V) * 65536 + ((A mod V) * 65536 + d0) div V"
    "W mod V = ((A mod V) * 65536 + d0) mod V" using assms(1) by simp_all
qed

lemma unat_drop_bit': "unat (drop_bit k (x :: WORD)) = unat x div 2 ^ k"
  unfolding unat_drop_bit_eq by (rule drop_bit_eq_div)

lemma ins_ldiv_narrow_quotient:
  assumes "creg s < areg s"
  shows "ins_ldiv_narrow s = Some (ECTX_CONTINUE, s
     \<lparr>areg := of_nat ((unat (creg s) * 4294967296 + unat (breg s)) div unat (areg s)),
      breg := of_nat ((unat (creg s) * 4294967296 + unat (breg s)) mod unat (areg s))\<rparr>)"
proof -
  define J where "J = unat (creg s) * 4294967296 + unat (breg s)"
  define sh where "sh = nlz (areg s)"
  define v' where "v' = push_bit sh (areg s)"
  define un10 where "un10 = push_bit sh (breg s)"
  define un32 where "un32 = push_bit sh (creg s) OR (drop_bit (32 - sh) (breg s) AND signed_drop_bit 31 (- of_nat sh))"
  note n = ldiv_normalised(1,2)[OF assms, folded sh_def, folded v'_def]
    ldiv_normalised(3,4)[OF assms, of "breg s", folded sh_def, folded v'_def un10_def un32_def, folded J_def]
  define V where "V = unat v'"
  have hl: "unat (drop_bit 16 v') * 65536 + unat (v' AND 0xFFFF) = V" "unat (drop_bit 16 v') < 65536"
      "32768 \<le> unat (drop_bit 16 v')" "unat (v' AND 0xFFFF) < 65536"
    using n(2) unat_bound[of v'] unfolding V_def unat_hi16 unat_lo16 by simp_all
  have dd: "unat un10 = unat (drop_bit 16 un10) * 65536 + unat (un10 AND 0xFFFF)"
      "unat (drop_bit 16 un10) < 65536" "unat (un10 AND 0xFFFF) < 65536"
    using unat_bound[of un10] unfolding unat_hi16 unat_lo16 by simp_all
  have Vpos: "0 < V" using n(2) by (simp add: V_def)
  let ?A = "unat un32 * 65536 + unat (drop_bit 16 un10)"
  obtain q1 where q1: "ldiv_digit (drop_bit 16 v') (v' AND 0xFFFF) un32 (drop_bit 16 un10) = Some q1" "unat q1 = ?A div V"
    using ldiv_digit_exact[OF hl(3,2,4) dd(2), of un32] n(3) unfolding hl(1) V_def by auto
  define un21 where "un21 = un32 * 65536 + drop_bit 16 un10 - q1 * v'"
  have "un21 = of_nat (?A mod V)"
    using remainder_of_nat[of ?A "?A div V" V "?A mod V"] q1(2)[symmetric] by (simp add: un21_def V_def)
  moreover have "?A mod V < V" using Vpos by simp
  ultimately have un21: "unat un21 = ?A mod V" "unat un21 < V"
    using unat_bound[of v'] by (simp_all add: unsigned_of_nat take_bit_nat_eq_self V_def)
  let ?B = "unat un21 * 65536 + unat (un10 AND 0xFFFF)"
  obtain q0 where q0: "ldiv_digit (drop_bit 16 v') (v' AND 0xFFFF) un21 (un10 AND 0xFFFF) = Some q0" "unat q0 = ?B div V"
    using ldiv_digit_exact[OF hl(3,2,4) dd(3), of un21] un21(2) unfolding hl(1) V_def by auto
  define rem where "rem = un21 * 65536 + (un10 AND 0xFFFF) - q0 * v'"
  have "rem = of_nat (?B mod V)"
    using remainder_of_nat[of ?B "?B div V" V "?B mod V"] q0(2)[symmetric] by (simp add: rem_def V_def)
  moreover have "?B mod V < V" using Vpos by simp
  ultimately have rem: "unat rem = ?B mod V"
    using unat_bound[of v'] by (simp add: unsigned_of_nat take_bit_nat_eq_self V_def)
  have W: "?A * 65536 + unat (un10 AND 0xFFFF) = J * 2 ^ sh"
    using n(4) dd(1) by (simp add: algebra_simps)
  note two = two_digits[OF Vpos, of "unat un32" "unat (drop_bit 16 un10)" "unat (un10 AND 0xFFFF)", unfolded W]
  have VJ: "V = unat (areg s) * 2 ^ sh" using n(1) by (simp add: V_def)
  have "unat q1 * 65536 + unat q0 = J div unat (areg s)"
    using two(1) un21(1) q1(2) q0(2) unfolding VJ by simp
  moreover have of_nat_parts: "of_nat (unat q1 * 65536 + unat q0) = q1 * 65536 + q0" by simp
  ultimately have Q: "q1 * 65536 + q0 = of_nat (J div unat (areg s))"
    using of_nat_parts by metis
  have "unat rem = (J mod unat (areg s)) * 2 ^ sh"
    using two(2) rem un21(1) unfolding VJ by (simp only: mult_mod_left)
  then have "unat (drop_bit sh rem) = J mod unat (areg s)" unfolding unat_drop_bit' by simp
  moreover have unat_parts: "of_nat (unat (drop_bit sh rem)) = drop_bit sh rem" by simp
  ultimately have R: "drop_bit sh rem = of_nat (J mod unat (areg s))" by metis
  have "ins_ldiv_narrow s = Some (ECTX_CONTINUE, s\<lparr>areg := q1 * 65536 + q0, breg := drop_bit sh rem\<rparr>)"
    using assms q1(1) q0(1)
    unfolding ins_ldiv_narrow_def Let_def SET_ERROR_FLAG_IF_cases
    unfolding sh_def[symmetric] v'_def[symmetric] un10_def[symmetric] un32_def[symmetric] un21_def[symmetric]
    by (auto simp add: un21_def[symmetric] rem_def STACK2_RET_def STACK2_def)
  then show ?thesis unfolding Q R J_def .
qed

lemma ins_ldiv_quotient:
  assumes "creg s < areg s"
  shows "ins_ldiv s = Some (ECTX_CONTINUE, s
     \<lparr>areg := of_nat ((unat (creg s) * 4294967296 + unat (breg s)) div unat (areg s)),
      breg := of_nat ((unat (creg s) * 4294967296 + unat (breg s)) mod unat (areg s))\<rparr>)"
proof -
  have nz: "areg s \<noteq> 0" using assms by auto
  have u: "unat (ucast (areg s) :: UTWOWORD) = unat (areg s)"
    using unat_bound[of "areg s"] by (subst unsigned_ucast_eq) (simp add: take_bit_nat_eq_self)
  have w: "(ucast (x :: UTWOWORD) :: WORD) = of_nat (unat x)" for x by simp
  show ?thesis using nz
    unfolding ins_ldiv_def Let_def w unat_div unat_mod_distrib u unat_join_words
    by (simp add: STACK2_RET_def STACK2_def u)
qed

text \<open>
  C18: when the quotient fits, \<open>ldiv\<close> divides the long word in B (low) and C (high) by A, and the
  half-word division of the build without a double word type agrees with it.
\<close>

theorem ldiv_exact_and_portable:
  assumes "creg s < areg s"
  shows "\<exists>q r. ins_ldiv s = Some (ECTX_CONTINUE, s\<lparr>areg := q, breg := r\<rparr>) \<and> ins_ldiv_narrow s = ins_ldiv s \<and>
     unat q * unat (areg s) + unat r = unat (creg s) * 4294967296 + unat (breg s) \<and> r < areg s"
proof -
  let ?J = "unat (creg s) * 4294967296 + unat (breg s)" and ?a = "unat (areg s)"
  have a: "0 < ?a" using assms by (simp add: word_less_nat_alt)
  have "Suc (unat (creg s)) * 4294967296 \<le> ?a * 4294967296"
    using assms by (intro mult_le_mono1) (simp add: word_less_nat_alt)
  then have "?J < 4294967296 * ?a" using unat_bound[of "breg s"] by simp
  then have q: "?J div ?a < 4294967296" using a by (simp add: div_less_iff_less_mult)
  have r: "?J mod ?a < ?a" using a by simp
  have uq: "unat (of_nat (?J div ?a) :: WORD) = ?J div ?a" using q by (simp add: unsigned_of_nat take_bit_nat_eq_self)
  have ur: "unat (of_nat (?J mod ?a) :: WORD) = ?J mod ?a"
    using r unat_bound[of "areg s"] by (simp add: unsigned_of_nat take_bit_nat_eq_self)
  show ?thesis
    by (rule exI[of _ "of_nat (?J div ?a)"], rule exI[of _ "of_nat (?J mod ?a)"])
      (simp only: ins_ldiv_quotient[OF assms] ins_ldiv_narrow_quotient[OF assms] uq ur word_less_nat_alt r div_mult_mod_eq simp_thms)
qed

theorem ldiv_exact_and_portable_witness:
  "\<exists>q r. ins_ldiv (blank\<lparr>areg := 10, breg := 7, creg := 3\<rparr>) =
     Some (ECTX_CONTINUE, blank\<lparr>creg := 3, areg := q, breg := r\<rparr>) \<and>
     ins_ldiv_narrow (blank\<lparr>areg := 10, breg := 7, creg := 3\<rparr>) = ins_ldiv (blank\<lparr>areg := 10, breg := 7, creg := 3\<rparr>) \<and>
     unat q * 10 + unat r = 3 * 4294967296 + 7 \<and> r < 10"
  using ldiv_exact_and_portable[of "blank\<lparr>areg := 10, breg := 7, creg := 3\<rparr>"] by simp

end
