(* ===== verification/TVM_FloatSupport.thy ===== *)
theory TVM_FloatSupport
  imports TVM_LongDivision
begin

text \<open>
  The integer instructions of the T4 that support software floating point (the part of
  ins_float.c that TVM_EMULATE_T4 selects). The T8 floating point unit is not modelled.
\<close>

definition FP_INFINITY :: WORD where [tvm_consts]: "FP_INFINITY = 0x7F800000"

definition ins_unpacksn :: instruction where
  "ins_unpacksn s =
     (let exponent = drop_bit 23 (areg s) AND 0xFF;
          mantissa = push_bit 8 (areg s AND 0x7FFFFF);
          (type, exponent, mantissa) =
            (if exponent = 0
             then if mantissa = 0 then (0, exponent, mantissa) else (1, 1, mantissa)
             else if exponent = 0xFF
             then if mantissa = 0 then (2, exponent, mantissa) else (3, exponent, mantissa)
             else (1, exponent, mantissa OR 0x80000000))
      in STACK_RET mantissa exponent (4 * breg s + type) s)"

text \<open>
  The C code widens the signed words \<open>mantissa\<close> and \<open>guard\<close> to an unsigned double word:
  both are sign-extended.
\<close>

definition ins_postnormsn :: instruction where
  "ins_postnormsn s =
     (let guard = areg s;
          exponent = WORKSPACE_GET s (wptr s) WS_TEMP - creg s;
          mantissa = breg s
      in if exponent \<le>s - 32 then STACK_RET 0 0 0 s
         else if exponent \<le>s 0
         then (let x = scast mantissa :: UTWOWORD;
                   x = drop_bit (nat (1 - sint exponent)) (push_bit 32 x OR scast guard)
               in STACK_RET (ucast (x AND 0xFFFFFFFF)) (ucast (drop_bit 32 x)) 0 s)
         else STACK_RET guard mantissa exponent s)"

definition ins_roundsn :: instruction where
  "ins_roundsn s =
     (let f = (if 0xFF \<le>s creg s then FP_INFINITY
               else (let f = push_bit 23 (creg s AND 0xFF) OR (drop_bit 8 (breg s) AND 0x7FFFFF)
                     in if breg s AND 0x80 = 0 then f
                        else if areg s OR (breg s AND 0x7F) OR (f AND 1) = 0 then f
                        else f + 1))
      in STACK1_RET f s)"

definition ins_ldinf :: instruction where
  "ins_ldinf s = STACK_RET FP_INFINITY (areg s) (breg s) s"

definition ins_fmul :: instruction where
  "ins_fmul s =
     (let tmp_long = scast (areg s) * scast (breg s) :: 64 word;
          hi_word = ucast (drop_bit 32 tmp_long AND 0xffffffff) :: WORD;
          lo_word = ucast (tmp_long AND 0xffffffff) :: WORD;
          hi_word = push_bit 1 hi_word;
          hi_word = (if lo_word AND 0x80000000 \<noteq> 0 then hi_word OR 1 else hi_word);
          lo_word = push_bit 1 lo_word;
          tmpint_c = (if 0 \<le>s lo_word then hi_word
                      else if lo_word \<noteq> 0x80000000 then hi_word + 1
                      else if hi_word AND 1 \<noteq> 0 then hi_word + 1
                      else hi_word)
      in STACK2_RET tmpint_c (creg s) s)"

end
