(* ===== verification/TVM_Dispatch.thy ===== *)
theory TVM_Dispatch
  imports TVM_MobileIO TVM_FloatSupport
begin

text \<open>
  Dispatch through the jump tables (ins_pri.c, interpreter.c). The tables are generated from
  the opcode comment above each instruction in the sources: a table lists its opcodes in order,
  and an opcode in its range that no source claims (or whose source is configured out: the T8
  floating point unit, RMoX) is \<open>ins_not_implemented\<close>.
\<close>

section \<open>Jump tables\<close>

definition secondary_ops :: "env \<Rightarrow> (WORD \<times> instruction) list" where
  "secondary_ops e =
     [(0x00, ins_rev), (0x01, ins_lb), (0x02, ins_bsub), (0x03, ins_endp), (0x04, ins_diff),
      (0x05, ins_add), (0x06, ins_gcall), (0x07, ins_in e), (0x08, ins_prod), (0x09, ins_gt),
      (0x0A, ins_wsub), (0x0B, ins_out e), (0x0C, ins_sub), (0x0D, ins_startp),
      (0x0E, ins_outbyte e), (0x0F, ins_outword e), (0x10, ins_seterr), (0x11, ins_mreleasep e),
      (0x13, ins_csub0), (0x14, ins_extvrfy e), (0x15, ins_stopp), (0x16, ins_ladd),
      (0x19, ins_norm), (0x1A, ins_ldiv), (0x1B, ins_ldpi), (0x1D, ins_xdble), (0x1F, ins_rem),
      (0x20, ins_ret), (0x21, ins_lend), (0x22, ins_ldtimer), (0x23, ins_boolinvert),
      (0x24, ins_widenshort), (0x25, ins_fficall e), (0x26, ins_lend3), (0x27, ins_lendb),
      (0x28, ins_reschedule), (0x2B, ins_tin), (0x2C, ins_div), (0x2E, ins_dist),
      (0x2F, ins_disc), (0x30, ins_diss), (0x31, ins_lmul), (0x32, ins_not), (0x33, ins_xor),
      (0x35, ins_lshr), (0x36, ins_lshl), (0x37, ins_lsum), (0x38, ins_lsub), (0x39, ins_runp),
      (0x3B, ins_sb), (0x3C, ins_gajw), (0x40, ins_shr), (0x41, ins_shl), (0x42, ins_mint),
      (0x43, ins_alt), (0x44, ins_altwt), (0x45, ins_altend), (0x46, ins_and), (0x47, ins_enbt),
      (0x48, ins_enbc), (0x49, ins_enbs), (0x4A, ins_move), (0x4B, ins_or), (0x4C, ins_csngl),
      (0x4D, ins_ccnt1), (0x4E, ins_talt), (0x4F, ins_ldiff), (0x51, ins_taltwt),
      (0x52, ins_sum), (0x53, ins_mul), (0x55, ins_stoperr), (0x56, ins_cword), (0x5A, ins_dup),
      (0x60, ins_extin e), (0x61, ins_extout e), (0x63, ins_unpacksn), (0x6C, ins_postnormsn),
      (0x6D, ins_roundsn), (0x71, ins_ldinf), (0x72, ins_fmul), (0x79, ins_pop),
      (0x7A, ins_sem_init), (0x7B, ins_sem_claim), (0x7C, ins_sem_release), (0x81, ins_wsubdb),
      (0xA2, ins_getpri), (0xA5, ins_setpri), (0xAD, ins_savecreg), (0xAE, ins_restorecreg),
      (0xB8, ins_xbword), (0xB9, ins_lbx), (0xBA, ins_cb), (0xBB, ins_cbu), (0xC1, ins_ssub),
      (0xC7, ins_cir), (0xC8, ins_ss), (0xCA, ins_ls), (0xCC, ins_ciru),
      (0xE0, ins_checknotnull), (0xE2, ins_malloc), (0xE3, ins_mrelease e), (0xE8, ins_xable e),
      (0xE9, ins_xin e), (0xEC, ins_xend), (0xF8, ins_xsword), (0xF9, ins_lsx), (0xFA, ins_cs),
      (0xFB, ins_csu), (0xFD, ins_null), (0xFE, ins_shutdown)]"

definition extended_secondary_ops :: "env \<Rightarrow> (WORD \<times> instruction) list" where
  "extended_secondary_ops e =
     [(0x22F, ins_proc_alloc), (0x230, ins_proc_param), (0x231, ins_proc_mt_copy),
      (0x232, ins_proc_mt_move), (0x233, ins_proc_start), (0x234, ins_proc_end e),
      (0x235, ins_getaff), (0x236, ins_setaff), (0x237, ins_getpas), (0x238, ins_mt_alloc),
      (0x239, ins_mt_release e), (0x23A, ins_mt_clone), (0x23B, ins_mt_in e),
      (0x23C, ins_mt_out e), (0x23D, ins_mt_xchg e), (0x23E, ins_mt_lock),
      (0x23F, ins_mt_unlock), (0x240, ins_mt_enroll), (0x241, ins_mt_resign),
      (0x242, ins_mt_sync), (0x243, ins_mt_xin e), (0x244, ins_mt_xout), (0x245, ins_mt_xxchg),
      (0x246, ins_mt_dclone), (0x247, ins_mt_bind e), (0x24B, ins_ext_mt_in e),
      (0x24C, ins_ext_mt_out e), (0x24D, ins_mt_resize e)]"


definition secondaries_max :: WORD where [tvm_consts]: "secondaries_max = 0xFE"
definition extended_secondaries_min :: WORD where [tvm_consts]: "extended_secondaries_min = 0x22F"
definition extended_secondaries_max :: WORD where [tvm_consts]: "extended_secondaries_max = 0x24D"

definition table_lookup :: "(WORD \<times> instruction) list \<Rightarrow> WORD \<Rightarrow> instruction" where
  "table_lookup t ins = (case map_of t ins of Some f \<Rightarrow> f | None \<Rightarrow> ins_not_implemented)"

text \<open>The bounds are unsigned ints: a negative operand exceeds them.\<close>

definition ins_opr :: "env \<Rightarrow> instruction" where
  "ins_opr e s =
     (let ins = oreg s
      in if ins \<le> secondaries_max then table_lookup (secondary_ops e) ins (CLEAR_OREG s)
         else if ins \<ge> extended_secondaries_min \<and> ins \<le> extended_secondaries_max
         then table_lookup (extended_secondary_ops e) ins (CLEAR_OREG s)
         else Some (ECTX_INS_INVALID, s))"

definition primaries :: "env \<Rightarrow> instruction list" where
  "primaries e =
     [ins_j, ins_ldlp, ins_pfix, ins_ldnl, ins_ldc, ins_ldnlp, ins_nfix, ins_ldl,
      ins_adc, ins_call, ins_cj, ins_ajw, ins_eqc, ins_stl, ins_stnl, ins_opr e]"

section \<open>Decode and dispatch (interpreter.c)\<close>

definition decode_next :: "mach \<Rightarrow> BYTE \<times> mach" where
  "decode_next s =
     (let instr = get_byte s (iptr s);
          s = s\<lparr>iptr := byteptr_plus (iptr s) 1\<rparr>;
          s = s\<lparr>oreg := oreg s OR ucast (instr AND 0x0f)\<rparr>
      in (instr, s))"

definition do_dispatch :: "env \<Rightarrow> BYTE \<Rightarrow> instruction" where
  "do_dispatch e instr s = (primaries e ! unat (drop_bit 4 instr)) s"

definition tvm_decode_instruction :: "mach \<Rightarrow> BYTE \<times> mach" where
  "tvm_decode_instruction s = decode_next s"

definition tvm_dispatch_instruction :: "env \<Rightarrow> BYTE \<Rightarrow> instruction" where
  "tvm_dispatch_instruction e instr s = do_dispatch e instr s"

text \<open>The loop of \<open>tvm_dispatch\<close>; it need not end.\<close>

partial_function (option) dispatch_loop :: "env \<Rightarrow> UWORD \<Rightarrow> instruction" where
  "dispatch_loop e cycles s =
     (let (instr, s) = decode_next s
      in Option.bind (do_dispatch e instr s) (\<lambda>(ret, s).
           let cycles = cycles - 2
           in if cycles \<noteq> 0 \<and> ret = 0 then dispatch_loop e cycles s else Some (ret, s)))"

definition tvm_dispatch :: "env \<Rightarrow> UWORD \<Rightarrow> instruction" where
  "tvm_dispatch e cycles s =
     (case dispatch_loop e cycles s of
        None \<Rightarrow> None
      | Some (ret, s) \<Rightarrow> Some (ret, s\<lparr>state := ret\<rparr>))"

definition run_pre_init :: "env \<Rightarrow> instruction" where
  "run_pre_init e s =
     (let s = s\<lparr>state := ECTX_RUNNING\<rparr>;
          next_if_idle = (\<lambda>s.
            if wptr s = NOT_PROCESS_P
            then (case run_next_on_queue s of
                    None \<Rightarrow> None
                  | Some (ret, s) \<Rightarrow> if ret \<noteq> 0 then Some (ret, s\<lparr>state := ret\<rparr>) else Some (ECTX_CONTINUE, s))
            else Some (ECTX_CONTINUE, s))
      in case run_hook e of
           Some hook \<Rightarrow>
             (case hook s of
                None \<Rightarrow> None
              | Some (ret, s) \<Rightarrow> if ret \<noteq> 0 then Some (ret, s\<lparr>state := ret\<rparr>) else next_if_idle s)
         | None \<Rightarrow> next_if_idle s)"

definition tvm_run :: "env \<Rightarrow> instruction" where
  "tvm_run e s =
     (case run_pre_init e s of
        None \<Rightarrow> None
      | Some (ret, s) \<Rightarrow> if ret \<noteq> 0 then Some (ret, s) else tvm_dispatch e 1 s)"

definition tvm_run_count :: "env \<Rightarrow> UWORD \<Rightarrow> instruction" where
  "tvm_run_count e count s =
     (case run_pre_init e s of
        None \<Rightarrow> None
      | Some (ret, s) \<Rightarrow>
          if ret \<noteq> 0 then Some (ret, s)
          else (case tvm_dispatch e (push_bit 1 count) s of
                  None \<Rightarrow> None
                | Some (ret, s) \<Rightarrow> if ret \<noteq> 0 then Some (ret, s) else Some (ECTX_TIME_SLICE, s)))"

end
