(* ===== verification/TVM_Interpreter.thy ===== *)
theory TVM_Interpreter
  imports TVM_Dispatch
begin

text \<open>
  Execution contexts from outside (interpreter.c): the list of contexts of a machine, reset,
  memory layout, installation of a top-level process, and disconnecting its channels.
\<close>

section \<open>The contexts of a machine (tvm.h)\<close>

text \<open>
  \<open>tvm_t\<close> has the ends of a list linked through the \<open>next\<close> fields of the contexts; \<open>owner\<close> is
  their \<open>tvm\<close> field. Contexts and machines are known by address, null is 0.
\<close>

record tvm_t =
  head :: WORD
  tail :: WORD
  next_ectx :: "WORD \<Rightarrow> WORD"
  owner :: "WORD \<Rightarrow> WORD"

definition tvm_init :: "tvm_t \<Rightarrow> int \<times> tvm_t" where
  "tvm_init t = (0, t\<lparr>head := 0, tail := 0\<rparr>)"

definition tvm_ectx_reset :: "mach \<Rightarrow> mach" where
  "tvm_ectx_reset s =
     s\<lparr>state := ECTX_INIT, eflags := 0, sflags := 0,
       oreg := 0, areg := 0, breg := 0, creg := 0,
       wptr := NOT_PROCESS_P, fptr := NOT_PROCESS_P, bptr := NOT_PROCESS_P, tptr := NOT_PROCESS_P\<rparr>"

text \<open>The list part of \<open>tvm_ectx_init\<close>, and its effect on the context itself.\<close>

definition link_ectx :: "WORD \<Rightarrow> WORD \<Rightarrow> tvm_t \<Rightarrow> tvm_t" where
  "link_ectx tvm ectx t =
     (let t = t\<lparr>owner := (owner t)(ectx := tvm)\<rparr>;
          t = (if head t = 0 then t\<lparr>head := ectx\<rparr>
               else t\<lparr>next_ectx := (next_ectx t)(tail t := ectx)\<rparr>);
          t = t\<lparr>tail := ectx\<rparr>
      in t\<lparr>next_ectx := (next_ectx t)(ectx := 0)\<rparr>)"

definition tvm_ectx_init :: "WORD \<Rightarrow> tvm_t \<Rightarrow> mach \<Rightarrow> tvm_t \<times> mach" where
  "tvm_ectx_init tvm t s = (link_ectx tvm (self s) t, (tvm_ectx_reset s)\<lparr>pri := 0\<rparr>)"

text \<open>The search for the predecessor dereferences null when the context is not in the list.\<close>

partial_function (option) find_previous :: "WORD \<Rightarrow> WORD \<Rightarrow> tvm_t \<Rightarrow> WORD option" where
  "find_previous ectx p t =
     (if p = 0 then None
      else if next_ectx t p \<noteq> ectx then find_previous ectx (next_ectx t p) t
      else Some p)"

definition tvm_ectx_release :: "WORD \<Rightarrow> tvm_t \<Rightarrow> tvm_t option" where
  "tvm_ectx_release ectx t =
     map_option (\<lambda>t. t\<lparr>owner := (owner t)(ectx := 0), next_ectx := (next_ectx t)(ectx := 0)\<rparr>)
       (if ectx = head t then Some (t\<lparr>head := next_ectx t ectx\<rparr>)
        else (case find_previous ectx (head t) t of
                None \<Rightarrow> None
              | Some p \<Rightarrow> Some (t\<lparr>next_ectx := (next_ectx t)(p := next_ectx t ectx)\<rparr>)))"

section \<open>Memory size and layout\<close>

definition WS_PAD :: WORD where [tvm_consts]: "WS_PAD = 4"
definition VS_PAD :: WORD where [tvm_consts]: "VS_PAD = 1"
definition TVM_ECTX_TLP_ARGS :: int where [tvm_consts]: "TVM_ECTX_TLP_ARGS = 8"

definition calc_frame_size :: "int \<Rightarrow> WORD \<Rightarrow> bool \<Rightarrow> int" where
  "calc_frame_size argc vs pad =
     (let frame_size = 1 + argc;
          frame_size = frame_size + (if vs \<noteq> 0 then 1 else 0)
      in if pad \<and> frame_size < 4 then 4 else frame_size)"

definition tvm_ectx_memory_size :: "int \<Rightarrow> WORD \<Rightarrow> WORD \<Rightarrow> WORD" where
  "tvm_ectx_memory_size argc ws_size vs_size =
     (let frame_size = calc_frame_size argc vs_size True
      in of_int frame_size + 1 + ws_size + vs_size + WS_PAD + VS_PAD)"

text \<open>
  The result is the workspace pointer, the vector space pointer and the number the function
  returns: the native \<open>wordptr_minus\<close> of two pointers is a C pointer difference, in words.
\<close>

definition tvm_ectx_layout ::
    "WORDPTR \<Rightarrow> int \<Rightarrow> WORD \<Rightarrow> WORD \<Rightarrow> WORDPTR \<times> WORDPTR \<times> WORD" where
  "tvm_ectx_layout base argc ws_size vs_size =
     (let frame_size = calc_frame_size argc vs_size True;
          ws = wordptr_plus base (of_int frame_size + ws_size + 1 + WS_PAD);
          vs = (if vs_size \<noteq> 0 then ws else 0)
      in (ws, vs, word_of_int (sint (ws - base) sdiv 4) + vs_size))"

section \<open>Installing a top-level process\<close>

text \<open>The loop over the arguments; a format or argument past the end of its array is undefined.\<close>

fun install_args :: "char list \<Rightarrow> WORD list \<Rightarrow> nat \<Rightarrow> nat \<Rightarrow> WORDPTR \<Rightarrow> mach \<Rightarrow> (int \<times> WORDPTR) result" where
  "install_args fmt argv i 0 fb s = Some ((0, fb), s)"
| "install_args fmt argv i (Suc n) fb s =
     (if i < length fmt
      then (let arg = fmt ! i;
                s = s\<lparr>tlp_fmt := (tlp_fmt s)[i := arg]\<rparr>
            in if arg = CHR ''F''
               then (case mt_alloc (MT_MAKE_BARRIER MT_BARRIER_FORKING) 0 s of
                       None \<Rightarrow> None
                     | Some ((ret, fb), s) \<Rightarrow>
                         if ret \<noteq> 0 then Some ((ret, fb), s)
                         else install_args fmt argv (Suc i) n fb (s\<lparr>tlp_argv := (tlp_argv s)[i := fb]\<rparr>))
               else if i < length argv
               then install_args fmt argv (Suc i) n fb (s\<lparr>tlp_argv := (tlp_argv s)[i := argv ! i]\<rparr>)
               else None)
      else None)"

text \<open>One word pushed on the initial stack frame, and the loop that pushes the arguments.\<close>

definition push_frame :: "WORD \<Rightarrow> mach \<Rightarrow> mach" where
  "push_frame v s =
     (let s = s\<lparr>wptr := wordptr_minus (wptr s) 1\<rparr> in put_word (wptr s) v s)"

fun push_args :: "nat \<Rightarrow> mach \<Rightarrow> mach" where
  "push_args 0 s = s"
| "push_args (Suc i) s =
     push_args i (if tlp_fmt s ! i \<noteq> CHR ''F'' then push_frame (tlp_argv s ! i) s else s)"

definition build_frame :: "BYTEPTR \<Rightarrow> WORDPTR \<Rightarrow> WORDPTR \<Rightarrow> WORDPTR \<Rightarrow> int \<Rightarrow> mach \<Rightarrow> mach" where
  "build_frame code ws vs fb argc s =
     (let s = s\<lparr>wptr := ws\<rparr>;
          s = s\<lparr>iptr := code\<rparr>;
          s = s\<lparr>wptr := wordptr_minus (wptr s) 1\<rparr>;
          s = put_byte (byteptr_plus (wptr s) 0) 0x2F s;
          s = put_byte (byteptr_plus (wptr s) 1) 0xFE s;
          frame_size = calc_frame_size argc vs False;
          s = (if frame_size < 4 then s\<lparr>wptr := wordptr_minus (wptr s) (of_int (4 - frame_size))\<rparr> else s);
          frame_size = (if frame_size < 4 then 4 else frame_size);
          s = (if fb \<noteq> 0 then push_frame fb s else s);
          s = (if vs \<noteq> 0 then push_frame vs s else s);
          s = push_args (nat (tlp_argc s)) s;
          s = s\<lparr>wptr := wordptr_minus (wptr s) 1\<rparr>
      in put_word (wptr s) (wordptr_plus (wptr s) (of_int frame_size)) s)"

definition tvm_ectx_install_tlp ::
    "BYTEPTR \<Rightarrow> WORDPTR \<Rightarrow> WORDPTR \<Rightarrow> char list \<Rightarrow> int \<Rightarrow> WORD list \<Rightarrow> instruction" where
  "tvm_ectx_install_tlp code ws vs fmt argc argv s =
     (if argc > TVM_ECTX_TLP_ARGS then Some (-1, s)
      else (case install_args fmt argv 0 (nat argc) 0 (s\<lparr>tlp_argc := argc\<rparr>) of
              None \<Rightarrow> None
            | Some ((ret, fb), s) \<Rightarrow>
                if ret \<noteq> 0 then Some (ret, s) else Some (0, build_frame code ws vs fb argc s)))"

section \<open>Disconnecting\<close>

text \<open>Running a function for another context, which may be the current one.\<close>

definition in_ectx :: "WORD \<Rightarrow> (mach \<Rightarrow> 'a result) \<Rightarrow> mach \<Rightarrow> 'a result" where
  "in_ectx dst f s =
     (if dst = self s then f s
      else (case peers s dst of
              None \<Rightarrow> None
            | Some c \<Rightarrow>
                (case f (as_ectx dst c s) of
                   None \<Rightarrow> None
                 | Some (r, t) \<Rightarrow>
                     Some (r, as_ectx (self s) (ectx.truncate s)
                            (t\<lparr>peers := (peers t)(dst \<mapsto> ectx.truncate t)\<rparr>)))))"

definition disconnect_alting :: "WORDPTR \<Rightarrow> mach \<Rightarrow> mach option" where
  "disconnect_alting ws s =
     (let alt_state = WORKSPACE_GET s ws WS_STATE;
          ectx = WORKSPACE_GET s ws WS_ECTX
      in if alt_state = WAITING_P
         then (case in_ectx ectx (\<lambda>s. Some (add_to_queue_external None ws s)) s of
                 None \<Rightarrow> None
               | Some (ret, s) \<Rightarrow> Some (WORKSPACE_SET ws WS_STATE DISABLING_P s))
         else if alt_state = ENABLING_P then Some (WORKSPACE_SET ws WS_STATE DISABLING_P s)
         else Some s)"

definition disconnect_mobile_output :: "env \<Rightarrow> WORDPTR \<Rightarrow> mach \<Rightarrow> mach option" where
  "disconnect_mobile_output e src s =
     (let ptr = get_word s src
      in if ptr \<noteq> NULL_P
         then (case mt_io_update (Local ptr) s of
                 None \<Rightarrow> None
               | Some ((ret, move), s) \<Rightarrow>
                   (let s = (if move = MT_TRUE then put_word src NULL_P s else s)
                    in map_option snd (mt_release e ptr s)))
         else Some s)"

definition disconnect_waiting :: "env \<Rightarrow> WORDPTR \<Rightarrow> mach \<Rightarrow> mach option" where
  "disconnect_waiting e ws s =
     (let ectx = WORKSPACE_GET s ws WS_ECTX;
          data_ptr = WORKSPACE_GET s ws WS_POINTER;
          data_len = WORKSPACE_GET s ws WS_PENDING
      in map_option snd (in_ectx ectx (\<lambda>s.
           case (if 0 <s data_len then Some (zero_bytes (unat data_len) data_ptr s)
                 else if data_len = MIN_INT then Some (put_word data_ptr NULL_P s)
                 else if data_len = MIN_INT + 1 then disconnect_mobile_output e data_ptr s
                 else Some s) of
             None \<Rightarrow> None
           | Some s \<Rightarrow> Some (add_to_queue_external None ws s)) s))"

definition disconnect_channel :: "env \<Rightarrow> WORDPTR \<Rightarrow> mach \<Rightarrow> mach option" where
  "disconnect_channel e ptr s =
     (let chan_value = get_word s ptr;
          ws = chan_value AND NOT 1
      in map_option (put_word ptr (NOT_PROCESS_P OR 1))
           (if ws \<noteq> NOT_PROCESS_P
            then if chan_value AND 1 \<noteq> 0 then disconnect_alting ws s
                 else disconnect_waiting e ws s
            else Some s))"

fun disconnect_channels :: "env \<Rightarrow> WORDPTR \<Rightarrow> WORD \<Rightarrow> nat \<Rightarrow> mach \<Rightarrow> mach option" where
  "disconnect_channels e ptr j 0 s = Some s"
| "disconnect_channels e ptr j (Suc n) s =
     Option.bind (disconnect_channel e (wordptr_plus ptr j) s) (disconnect_channels e ptr (j + 1) n)"

definition disconnect_arg :: "env \<Rightarrow> char \<Rightarrow> WORD \<Rightarrow> mach \<Rightarrow> mach option" where
  "disconnect_arg e fmt arg s =
     (if fmt = CHR ''?'' \<or> fmt = CHR ''!'' then disconnect_channel e arg s
      else if fmt = CHR ''C'' \<or> fmt = CHR ''S''
      then if arg \<noteq> NULL_P
           then disconnect_channels e arg 0 (unat (MT_CB_CHANNELS (read_mt_type s arg))) s
           else Some s
      else Some s)"

fun disconnect_args :: "env \<Rightarrow> nat \<Rightarrow> nat \<Rightarrow> mach \<Rightarrow> mach option" where
  "disconnect_args e i 0 s = Some s"
| "disconnect_args e i (Suc n) s =
     Option.bind (disconnect_arg e (tlp_fmt s ! i) (tlp_argv s ! i) s) (disconnect_args e (Suc i) n)"

definition tvm_ectx_disconnect :: "env \<Rightarrow> mach \<Rightarrow> mach option" where
  "tvm_ectx_disconnect e s = disconnect_args e 0 (nat (tlp_argc s)) s"

section \<open>Waiting on a context\<close>

definition in_range :: "WORDPTR \<Rightarrow> WORDPTR \<Rightarrow> WORDPTR \<Rightarrow> bool" where
  "in_range lo hi p \<longleftrightarrow> p \<ge> lo \<and> p \<le> hi"

fun waiting_channels :: "mach \<Rightarrow> WORDPTR \<Rightarrow> WORDPTR \<Rightarrow> WORDPTR \<Rightarrow> WORD \<Rightarrow> nat \<Rightarrow> bool" where
  "waiting_channels s lo hi ptr j 0 = False"
| "waiting_channels s lo hi ptr j (Suc n) =
     (if in_range lo hi (read_offset s ptr j) then True else waiting_channels s lo hi ptr (j + 1) n)"

definition waiting_arg :: "mach \<Rightarrow> WORDPTR \<Rightarrow> WORDPTR \<Rightarrow> char \<Rightarrow> WORD \<Rightarrow> bool" where
  "waiting_arg s lo hi fmt arg \<longleftrightarrow>
     (if fmt = CHR ''?'' \<or> fmt = CHR ''!'' then in_range lo hi (get_word s arg)
      else if fmt = CHR ''C'' \<or> fmt = CHR ''S''
      then arg \<noteq> NULL_P \<and> waiting_channels s lo hi arg 0 (unat (MT_CB_CHANNELS (read_mt_type s arg)))
      else False)"

fun waiting_args :: "mach \<Rightarrow> WORDPTR \<Rightarrow> WORDPTR \<Rightarrow> nat \<Rightarrow> nat \<Rightarrow> bool" where
  "waiting_args s lo hi i 0 = False"
| "waiting_args s lo hi i (Suc n) =
     (if waiting_arg s lo hi (tlp_fmt s ! i) (tlp_argv s ! i) then True
      else waiting_args s lo hi (Suc i) n)"

definition tvm_ectx_waiting_on :: "WORDPTR \<Rightarrow> WORD \<Rightarrow> mach \<Rightarrow> int" where
  "tvm_ectx_waiting_on ws_base ws_len s =
     (let ws_end = wordptr_plus ws_base ws_len;
          (ws_base, ws_end) = (if ws_base > ws_end then (ws_end, ws_base) else (ws_base, ws_end))
      in if waiting_args s ws_base ws_end 0 (nat (tlp_argc s)) then 1 else 0)"

end
