(* ===== verification/TVM_TEncode.thy ===== *)
theory TVM_TEncode
  imports TVM_Memory
begin

text \<open>
  The decoder of TEncode streams and Transterpreter bytecode files (tencode.c, tvm_tbc.h) on a
  32-bit little-endian host. The decoder builds its structures in place, over the headers of
  the elements it has read, so buffer and structures live in one \<open>memory\<close>; structure fields
  are words at their C offsets. Out-parameters are passed in and returned.
\<close>

section \<open>Elements\<close>

record tenc_element_t =
  el_id :: "BYTE list"
  el_length :: UWORD
  el_data :: WORD  \<comment> \<open>the union: a number or a pointer to bytes\<close>
  el_next :: WORD

definition tag :: "string \<Rightarrow> BYTE list" where "tag str = map of_char str"

definition tenc_decode_int :: "memory \<Rightarrow> WORD \<Rightarrow> WORD" where
  "tenc_decode_int m src = SwapFourBytes (read_word m src)"

text \<open>\<open>bytes\<close> is a C int, but the arithmetic on it and on \<open>*length\<close> wraps alike.\<close>

definition tenc_decode_element ::
    "memory \<Rightarrow> WORD \<Rightarrow> UWORD \<Rightarrow> tenc_element_t \<Rightarrow> int \<times> UWORD \<times> tenc_element_t" where
  "tenc_decode_element m src len el =
     (if len < 8 then (-1, len, el)
      else (let el = el\<lparr>el_id := [m src, m (src + 1), m (src + 2), m (src + 3)]\<rparr>;
                el = el\<lparr>el_length := tenc_decode_int m (src + 4)\<rparr>;
                el = el\<lparr>el_next := src + 8\<rparr>;
                len = len - 8
            in if el_id el ! 3 = of_char CHR ''I'' \<or> el_id el ! 3 = of_char CHR ''U''
               then (0, len, el\<lparr>el_data := el_length el, el_length := 0\<rparr>)
               else if len < el_length el then (-1, len, el)
               else (let bytes = el_length el;
                         bytes = (if bytes AND 3 \<noteq> 0 then bytes + (4 - (bytes AND 3)) else bytes);
                         el = el\<lparr>el_data := el_next el\<rparr>;
                         el = el\<lparr>el_next := el_next el + bytes\<rparr>
                     in (0, len - bytes, el))))"

definition ids_match :: "BYTE list \<Rightarrow> BYTE list \<Rightarrow> bool" where
  "ids_match a b \<longleftrightarrow> a ! 0 = b ! 0 \<and> a ! 1 = b ! 1 \<and> a ! 2 = b ! 2 \<and> a ! 3 = b ! 3"

partial_function (option) tenc_walk_to_element ::
    "memory \<Rightarrow> WORD \<Rightarrow> UWORD \<Rightarrow> BYTE list \<Rightarrow> tenc_element_t \<Rightarrow> (int \<times> UWORD \<times> tenc_element_t) option" where
  "tenc_walk_to_element m data len ident el =
     (if len > 0
      then (let (ret, len, el) = tenc_decode_element m data len el
            in if ret < 0 then Some (ret, len, el)
               else if ids_match (el_id el) ident then Some (0, len, el)
               else tenc_walk_to_element m (el_next el) len ident el)
      else Some (-1, len, el))"

definition no_element :: tenc_element_t where
  "no_element = \<lparr>el_id = [0, 0, 0, 0], el_length = 0, el_data = 0, el_next = 0\<rparr>"

text \<open>
  The loaders return the code, the data pointer and length they advance, and the value to
  store, \<open>None\<close> when they store nothing.
\<close>

definition load_uint ::
    "memory \<Rightarrow> WORD \<Rightarrow> UWORD \<Rightarrow> BYTE list \<Rightarrow> (int \<times> WORD \<times> UWORD \<times> UWORD option) option" where
  "load_uint m data len ident =
     (case tenc_walk_to_element m data len ident no_element of
        None \<Rightarrow> None
      | Some (ret, len, el) \<Rightarrow>
          if ret < 0 then Some (ret, data, len, None)
          else Some (0, el_next el, len, Some (el_data el)))"

definition load_int ::
    "memory \<Rightarrow> WORD \<Rightarrow> UWORD \<Rightarrow> BYTE list \<Rightarrow> (int \<times> WORD \<times> UWORD \<times> WORD option) option" where
  "load_int m data len ident = load_uint m data len ident"

definition load_str ::
    "memory \<Rightarrow> WORD \<Rightarrow> UWORD \<Rightarrow> BYTE list \<Rightarrow> (int \<times> WORD \<times> UWORD \<times> WORD option) option" where
  "load_str m data len ident =
     (case tenc_walk_to_element m data len ident no_element of
        None \<Rightarrow> None
      | Some (ret, len, el) \<Rightarrow>
          if ret < 0 then Some (ret, data, len, None)
          else if el_length el < 1 then Some (-1, data, len, None)
          else Some (0, el_next el, len, Some (el_data el)))"

section \<open>Lists of strings\<close>

text \<open>\<open>tenc_str_t\<close>: next at 0, str at 4.\<close>

partial_function (option) decode_strs_loop ::
    "WORD \<Rightarrow> UWORD \<Rightarrow> BYTE list \<Rightarrow> WORD \<Rightarrow> WORD \<Rightarrow> memory \<Rightarrow> (WORD \<times> memory) option" where
  "decode_strs_loop data len ident hd_ptr tl_ptr m =
     (if len > 0
      then (let curr = data
            in Option.bind (load_str m data len ident) (\<lambda>(ret, data, len, str).
                 case str of
                   None \<Rightarrow> Some (hd_ptr, m)
                 | Some str \<Rightarrow>
                     (let m = write_word m curr 0;
                          m = write_word m (curr + 4) str
                      in if tl_ptr = 0 then decode_strs_loop data len ident curr curr m
                         else decode_strs_loop data len ident hd_ptr curr (write_word m tl_ptr curr))))
      else Some (hd_ptr, m))"

definition decode_strs :: "WORD \<Rightarrow> UWORD \<Rightarrow> BYTE list \<Rightarrow> memory \<Rightarrow> (WORD \<times> memory) option" where
  "decode_strs data len ident m = decode_strs_loop data len ident 0 0 m"

section \<open>Top-level process and foreign functions\<close>

text \<open>\<open>tbc_tlp_t\<close>: fmt at 0, symbol at 4. The result is the structure, or null.\<close>

definition decode_tlp :: "WORD \<Rightarrow> WORD \<Rightarrow> tenc_element_t \<Rightarrow> memory \<Rightarrow> (WORD \<times> memory) option" where
  "decode_tlp hd_ptr tlp el m =
     (let data = el_data el; len = el_length el;
          tlp = (if tlp = 0 then hd_ptr else tlp)
      in case load_str m data len (tag ''fmtS'') of
           None \<Rightarrow> None
         | Some (ret, data, len, None) \<Rightarrow> Some (0, m)
         | Some (ret, data, len, Some fmt) \<Rightarrow>
             (let m = write_word m tlp fmt
              in case load_str m data len (tag ''symS'') of
                   None \<Rightarrow> None
                 | Some (ret, data, len, None) \<Rightarrow> Some (0, m)
                 | Some (ret, data, len, Some symb) \<Rightarrow> Some (tlp, write_word m (tlp + 4) symb)))"

text \<open>
  \<open>tbc_ffi_t\<close>: libraries at 0, n_symbols at 4, symbols at 8, map at 12; \<open>tbc_ffi_entry_t\<close>:
  symbol at 0, library at 4. \<open>None\<close> inside means the C returned null.
\<close>

partial_function (option) ffi_map_loop ::
    "WORD \<Rightarrow> WORD \<Rightarrow> WORD \<Rightarrow> UWORD \<Rightarrow> memory \<Rightarrow> (WORD option \<times> memory) option" where
  "ffi_map_loop ffi symb data len m =
     (if symb \<noteq> 0 \<and> len > 0
      then Option.bind (load_int m data len (tag ''idxI'')) (\<lambda>(ret, data, len, idx).
             case idx of
               None \<Rightarrow> Some (None, m)
             | Some lib_idx \<Rightarrow>
                 (let n = read_word m (ffi + 4);
                      entry = read_word m (ffi + 12) + n * 8;
                      m = write_word m entry (read_word m (symb + 4));
                      m = write_word m (read_word m (ffi + 12) + read_word m (ffi + 4) * 8 + 4) lib_idx;
                      m = write_word m (ffi + 4) (read_word m (ffi + 4) + 1)
                  in ffi_map_loop ffi (read_word m symb) data len m))
      else Some (Some symb, m))"

definition decode_ffi :: "WORD \<Rightarrow> tenc_element_t \<Rightarrow> memory \<Rightarrow> (WORD \<times> memory) option" where
  "decode_ffi hd_ptr ffi_el m =
     (let ffi = hd_ptr; data = el_data ffi_el; len = el_length ffi_el
      in case tenc_walk_to_element m data len (tag ''libL'') no_element of
           None \<Rightarrow> None
         | Some (ret, len, el) \<Rightarrow>
     (if ret < 0 then Some (0, m)
      else case decode_strs (el_data el) (el_length el) (tag ''libS'') m of
           None \<Rightarrow> None
         | Some (libs, m) \<Rightarrow>
     (let m = write_word m ffi libs
      in case tenc_walk_to_element m (el_next el) len (tag ''symL'') el of
           None \<Rightarrow> None
         | Some (ret, len, el) \<Rightarrow>
     (if ret < 0 then Some (0, m)
      else case decode_strs (el_data el) (el_length el) (tag ''symS'') m of
           None \<Rightarrow> None
         | Some (syms, m) \<Rightarrow>
     (let m = write_word m (ffi + 8) syms
      in case tenc_walk_to_element m (el_next el) len (tag ''mapL'') el of
           None \<Rightarrow> None
         | Some (ret, len, el) \<Rightarrow>
     (if ret < 0 then Some (0, m)
      else (let m = write_word m (ffi + 4) 0;
                m = write_word m (ffi + 12) (el_data el - 8)
            in case ffi_map_loop ffi (read_word m (ffi + 8)) (el_data el) (el_length el) m of
                 None \<Rightarrow> None
               | Some (None, m) \<Rightarrow> Some (0, m)
               | Some (Some symb, m) \<Rightarrow> if symb \<noteq> 0 then Some (0, m) else Some (ffi, m))))))))"

section \<open>Debugging information\<close>

fun swap_ints :: "nat \<Rightarrow> WORD \<Rightarrow> memory \<Rightarrow> memory" where
  "swap_ints 0 data m = m"
| "swap_ints (Suc n) data m = swap_ints n (data + 4) (write_word m data (tenc_decode_int m data))"

text \<open>\<open>tbc_dbg_t\<close>: files at 0, n_lnd at 4, lnd at 8.\<close>

definition decode_debug :: "WORD \<Rightarrow> tenc_element_t \<Rightarrow> memory \<Rightarrow> (WORD \<times> memory) option" where
  "decode_debug hd_ptr dbg_el m =
     (let dbg = hd_ptr; data = el_data dbg_el; len = el_length dbg_el
      in case tenc_walk_to_element m data len (tag ''fn L'') no_element of
           None \<Rightarrow> None
         | Some (ret, len, el) \<Rightarrow>
     (if ret < 0 then Some (0, m)
      else case decode_strs (el_data el) (el_length el) (tag ''fn S'') m of
           None \<Rightarrow> None
         | Some (files, m) \<Rightarrow>
     (let m = write_word m dbg files
      in case tenc_walk_to_element m (el_next el) len (tag ''lndB'') el of
           None \<Rightarrow> None
         | Some (ret, len, el) \<Rightarrow>
     (if ret < 0 then Some (0, m)
      else (let m = write_word m (dbg + 8) (el_data el);
                m = write_word m (dbg + 4) (el_length el div 12)
            in Some (dbg, swap_ints (unat (el_length el div 4)) (el_data el) m))))))"

section \<open>Symbols\<close>

text \<open>
  \<open>tbc_sym_t\<close>: offset at 0, ws at 4, vs at 8, name at 12, definition at 16, next at 20.
  \<open>optional_symbol_fields\<close> is the part that may be missing.
\<close>

definition optional_symbol_fields :: "WORD \<Rightarrow> WORD \<Rightarrow> UWORD \<Rightarrow> memory \<Rightarrow> memory option" where
  "optional_symbol_fields symb s_data s_len m =
     (if s_len > 0
      then (case load_str m s_data s_len (tag ''defS'') of
              None \<Rightarrow> None
            | Some (ret, s_data, s_len, None) \<Rightarrow> Some m
            | Some (ret, s_data, s_len, Some d) \<Rightarrow>
                (let m = write_word m (symb + 16) d
                 in case load_uint m s_data s_len (tag ''ws U'') of
                      None \<Rightarrow> None
                    | Some (ret, s_data, s_len, None) \<Rightarrow> Some m
                    | Some (ret, s_data, s_len, Some w) \<Rightarrow>
                        (let m = write_word m (symb + 4) w
                         in case load_uint m s_data s_len (tag ''vs U'') of
                              None \<Rightarrow> None
                            | Some (ret, s_data, s_len, None) \<Rightarrow> Some m
                            | Some (ret, s_data, s_len, Some v) \<Rightarrow> Some (write_word m (symb + 8) v))))
      else Some m)"

definition decode_symbol :: "WORD \<Rightarrow> tenc_element_t \<Rightarrow> memory \<Rightarrow> (bool \<times> memory) option" where
  "decode_symbol symb el m =
     (case load_uint m (el_data el) (el_length el) (tag ''offU'') of
        None \<Rightarrow> None
      | Some (ret, s_data, s_len, None) \<Rightarrow> Some (False, m)
      | Some (ret, s_data, s_len, Some off) \<Rightarrow>
          (let m = write_word m symb off
           in case load_str m s_data s_len (tag ''symS'') of
                None \<Rightarrow> None
              | Some (ret, s_data, s_len, None) \<Rightarrow> Some (False, m)
              | Some (ret, s_data, s_len, Some name) \<Rightarrow>
                  (let m = write_word m (symb + 12) name;
                       m = write_word m (symb + 4) 0;
                       m = write_word m (symb + 8) 0;
                       m = write_word m (symb + 16) 0;
                       m = write_word m (symb + 20) 0
                   in map_option (\<lambda>m. (True, m)) (optional_symbol_fields symb s_data s_len m))))"

partial_function (option) decode_symbols_loop ::
    "WORD \<Rightarrow> UWORD \<Rightarrow> WORD \<Rightarrow> WORD \<Rightarrow> tenc_element_t \<Rightarrow> memory \<Rightarrow> (WORD \<times> memory) option" where
  "decode_symbols_loop data len hd_ptr symb el m =
     (if len > 0
      then Option.bind (tenc_walk_to_element m data len (tag ''symL'') el) (\<lambda>(ret, len, el).
             if ret < 0 then Some (0, m)
             else (let m = (if hd_ptr = 0 then m else write_word m (symb + 20) data);
                       hd_ptr = (if hd_ptr = 0 then data else hd_ptr);
                       symb = data
                   in Option.bind (decode_symbol symb el m) (\<lambda>(ok, m).
                        if ok then decode_symbols_loop (el_next el) len hd_ptr symb el m
                        else Some (0, m))))
      else Some (hd_ptr, m))"

definition decode_symbols :: "tenc_element_t \<Rightarrow> memory \<Rightarrow> (WORD \<times> memory) option" where
  "decode_symbols stb_el m = decode_symbols_loop (el_data stb_el) (el_length stb_el) 0 0 no_element m"

section \<open>File and line of a bytecode offset\<close>

text \<open>The scan of the line table; the locals start unassigned.\<close>

partial_function (option) lnd_loop ::
    "memory \<Rightarrow> WORD \<Rightarrow> UWORD \<Rightarrow> UWORD \<Rightarrow> (UWORD \<times> UWORD) option \<Rightarrow> (UWORD \<times> UWORD) option option" where
  "lnd_loop m data len off found =
     (if len \<ge> 12
      then (let bc_off = tenc_decode_int m data
            in if bc_off > off then Some found
               else lnd_loop m (data + 12) (len - 12) off
                      (Some (tenc_decode_int m (data + 4), tenc_decode_int m (data + 8))))
      else Some found)"

text \<open>The loop tests \<open>file_off >= 0\<close> on an unsigned: the test is always true.\<close>

partial_function (option) file_loop :: "memory \<Rightarrow> WORD \<Rightarrow> UWORD \<Rightarrow> int option" where
  "file_loop m data len =
     Option.bind (load_str m data len (tag ''fn S'')) (\<lambda>(ret, data, len, str).
       if ret < 0 then Some ret else file_loop m data len)"

text \<open>The result is the code, \<open>*file\<close> and \<open>*line\<close>, which are set on entry and after the loop.\<close>

definition tbc_debug_file_and_line ::
    "memory \<Rightarrow> WORD \<Rightarrow> UWORD \<Rightarrow> UWORD \<Rightarrow> (int \<times> WORD \<times> UWORD) option" where
  "tbc_debug_file_and_line m data len off =
     (case tenc_walk_to_element m data len (tag ''dbgL'') no_element of
        None \<Rightarrow> None
      | Some (ret, len, el) \<Rightarrow>
     (if ret < 0 then Some (ret, 0, 0)
      else let len = el_length el
      in case tenc_walk_to_element m (el_data el) len (tag ''fn L'') no_element of
        None \<Rightarrow> None
      | Some (ret, len, files) \<Rightarrow>
     (if ret < 0 then Some (-1, 0, 0)
      else case tenc_walk_to_element m (el_next files) len (tag ''lndB'') el of
        None \<Rightarrow> None
      | Some (ret, len, el) \<Rightarrow>
     (if ret < 0 then Some (-1, 0, 0)
      else case lnd_loop m (el_data el) (el_length el) off None of
        None \<Rightarrow> None
      | Some found \<Rightarrow>
          map_option (\<lambda>ret. (ret, 0, 0)) (file_loop m (el_data files) (el_length files))))))"

section \<open>Bytecode files\<close>

text \<open>
  \<open>tbc_t\<close>: endian at 0, ws at 4, vs at 8, bytecode_len at 12, bytecode at 16, tlp at 20, ffi at
  24, symbols at 28, debug at 32.
\<close>

partial_function (option) tbc_elements ::
    "bool \<Rightarrow> WORD \<Rightarrow> WORD \<Rightarrow> UWORD \<Rightarrow> tenc_element_t \<Rightarrow> memory \<Rightarrow> memory option" where
  "tbc_elements in_place tbc data len el m =
     (if len > 0
      then (let (ret, len, el) = tenc_decode_element m data len el
            in if ret < 0 then Some m
               else Option.bind
                      (if ids_match (el_id el) (tag ''tlpL'')
                       then map_option (\<lambda>(p, m). write_word m (tbc + 20) p)
                              (decode_tlp data (read_word m (tbc + 20)) el m)
                       else if in_place \<and> ids_match (el_id el) (tag ''ffiL'')
                       then map_option (\<lambda>(p, m). write_word m (tbc + 24) p) (decode_ffi data el m)
                       else if in_place \<and> ids_match (el_id el) (tag ''stbL'')
                       then map_option (\<lambda>(p, m). write_word m (tbc + 28) p) (decode_symbols el m)
                       else if in_place \<and> ids_match (el_id el) (tag ''dbgL'')
                       then map_option (\<lambda>(p, m). write_word m (tbc + 32) p) (decode_debug data el m)
                       else Some m)
                      (\<lambda>m. tbc_elements in_place tbc (el_next el) len el m))
      else Some m)"

text \<open>The code, \<open>*ptr\<close> and the memory.\<close>

definition tbc_decode :: "WORD \<Rightarrow> UWORD \<Rightarrow> WORD \<Rightarrow> memory \<Rightarrow> (int \<times> WORD \<times> memory) option" where
  "tbc_decode data len ptr m =
     (let in_place = (ptr = 0); tbc = (if ptr \<noteq> 0 then ptr else data)
      in case load_uint m data len (tag ''endU'') of
        None \<Rightarrow> None
      | Some (ret, data, len, None) \<Rightarrow> Some (ret, ptr, m)
      | Some (ret, data, len, Some v) \<Rightarrow>
     (let m = write_word m tbc v
      in case load_uint m data len (tag ''ws U'') of
        None \<Rightarrow> None
      | Some (ret, data, len, None) \<Rightarrow> Some (ret, ptr, m)
      | Some (ret, data, len, Some v) \<Rightarrow>
     (let m = write_word m (tbc + 4) v
      in case load_uint m data len (tag ''vs U'') of
        None \<Rightarrow> None
      | Some (ret, data, len, None) \<Rightarrow> Some (ret, ptr, m)
      | Some (ret, data, len, Some v) \<Rightarrow>
     (let m = write_word m (tbc + 8) v
      in case tenc_walk_to_element m data len (tag ''bc B'') no_element of
        None \<Rightarrow> None
      | Some (ret, len, el) \<Rightarrow>
     (if ret < 0 then Some (ret, ptr, m)
      else (let m = write_word m (tbc + 12) (el_length el);
                m = write_word m (tbc + 16) (el_data el);
                data = el_next el;
                m = (if in_place
                     then write_word (write_word (write_word (write_word m (tbc + 20) 0) (tbc + 28) 0)
                            (tbc + 24) 0) (tbc + 32) 0
                     else if read_word m (tbc + 20) \<noteq> 0
                     then write_word (write_word m (read_word m (tbc + 20)) 0)
                            (read_word m (tbc + 20) + 4) 0
                     else m)
            in map_option (\<lambda>m. (0, tbc, m)) (tbc_elements in_place tbc data len el m)))))))"

end
