(* ===== verification/TVM_Stream.thy ===== *)
theory TVM_Stream
  imports TVM_TEncode
begin

text \<open>
  Correctness of the TEncode decoder: on a well-formed stream (\<open>element\<close>, \<open>bytes_of\<close>) decoding and
  walking give back the elements; what happens to truncated elements; the debug lookup.
\<close>

section \<open>Well-formed streams\<close>

text \<open>
  An element is a number or a block of bytes under a four-byte identifier. A number is stored in
  place of the length; a block is preceded by its length and padded to a multiple of four.
\<close>

datatype element = Number "BYTE list" WORD | Block "BYTE list" "BYTE list"

fun ident :: "element \<Rightarrow> BYTE list" where
  "ident (Number i n) = i"
| "ident (Block i bs) = i"

definition numeric :: "BYTE list \<Rightarrow> bool" where
  "numeric i \<longleftrightarrow> i ! 3 = of_char CHR ''I'' \<or> i ! 3 = of_char CHR ''U''"

fun well_formed :: "element \<Rightarrow> bool" where
  "well_formed (Number i n) \<longleftrightarrow> length i = 4 \<and> numeric i"
| "well_formed (Block i bs) \<longleftrightarrow> length i = 4 \<and> \<not> numeric i"

definition be_bytes :: "WORD \<Rightarrow> BYTE list" where
  "be_bytes n = [ucast (drop_bit 24 n), ucast (drop_bit 16 n), ucast (drop_bit 8 n), ucast n]"

definition padding :: "nat \<Rightarrow> nat" where
  "padding n = (4 - n mod 4) mod 4"

fun bytes_of :: "element \<Rightarrow> BYTE list" where
  "bytes_of (Number i n) = i @ be_bytes n"
| "bytes_of (Block i bs) = i @ be_bytes (of_nat (length bs)) @ bs @ replicate (padding (length bs)) 0"

definition stream :: "element list \<Rightarrow> BYTE list" where
  "stream es = concat (map bytes_of es)"

definition holds :: "memory \<Rightarrow> WORD \<Rightarrow> BYTE list \<Rightarrow> bool" where
  "holds m a bs \<longleftrightarrow> (\<forall>i < length bs. m (a + of_nat i) = bs ! i)"

text \<open>What the decoder stores for an element at an address.\<close>

fun decoded_at :: "element \<Rightarrow> WORD \<Rightarrow> tenc_element_t" where
  "decoded_at (Number i n) a = \<lparr>el_id = i, el_length = 0, el_data = n, el_next = a + 8\<rparr>"
| "decoded_at (Block i bs) a =
     \<lparr>el_id = i, el_length = of_nat (length bs), el_data = a + 8,
      el_next = a + 8 + of_nat (length bs + padding (length bs))\<rparr>"

lemma holds_append: "holds m a (bs @ cs) \<longleftrightarrow> holds m a bs \<and> holds m (a + of_nat (length bs)) cs"
proof -
  have "(\<forall>i < length (bs @ cs). Q i) \<longleftrightarrow> (\<forall>i < length bs. Q i) \<and> (\<forall>i < length cs. Q (length bs + i))" for Q
    by (auto simp: nat_add_left_cancel_less) (metis add_diff_inverse_nat add_less_cancel_left)
  then show ?thesis by (simp add: holds_def nth_append add.assoc)
qed

lemma holds_four: "holds m a [b0, b1, b2, b3] \<longleftrightarrow> m a = b0 \<and> m (a + 1) = b1 \<and> m (a + 2) = b2 \<and> m (a + 3) = b3"
  by (auto simp: holds_def less_Suc_eq numeral_eq_Suc)

lemma decode_int_be_bytes: "holds m a (be_bytes n) \<Longrightarrow> tenc_decode_int m a = n"
proof -
  assume "holds m a (be_bytes n)"
  then have m: "m a = ucast (drop_bit 24 n)" "m (a + 1) = ucast (drop_bit 16 n)" "m (a + 2) = ucast (drop_bit 8 n)" "m (a + 3) = ucast n"
    by (simp_all add: be_bytes_def holds_four)
  have "read_word m a = SwapFourBytes n"
  proof (rule bit_word_eqI)
    fix k assume "k < LENGTH(32)"
    then consider "k < 8" | "8 \<le> k" "k < 16" | "16 \<le> k" "k < 24" | "24 \<le> k" "k < 32" by fastforce
    then show "bit (read_word m a) k \<longleftrightarrow> bit (SwapFourBytes n) k"
      unfolding read_word_def m by cases (auto simp: SwapFourBytes_bit bit_simps add.commute)
  qed
  then show ?thesis by (simp add: tenc_decode_int_def SwapFourBytes_involutive)
qed

lemma four_list: "length i = 4 \<Longrightarrow> holds m a i \<Longrightarrow> [m a, m (a + 1), m (a + 2), m (a + 3)] = i"
  by (auto simp: numeral_eq_Suc length_Suc_conv holds_def less_Suc_eq)

lemma padded_length:
  "if (of_nat n :: WORD) AND 3 = 0 then of_nat (padding n) = (0 :: WORD) else (of_nat n :: WORD) AND 3 = 4 - of_nat (padding n)"
proof -
  have and3: "(of_nat n :: WORD) AND 3 = of_nat (n mod 4)"
    by (simp add: and_3_mod word_unat_eq_iff unat_mod unsigned_of_nat take_bit_eq_mod mod_mod_cancel)
  have "n mod 4 < 2 ^ 32" by (rule less_trans[OF mod_less_divisor]) simp_all
  then have z: "(of_nat (n mod 4) :: WORD) = 0 \<longleftrightarrow> n mod 4 = 0" by (simp add: word_unat_eq_iff unsigned_of_nat take_bit_nat_eq_self)
  show ?thesis
  proof (cases "n mod 4 = 0")
    case True
    then show ?thesis by (simp add: and3 padding_def)
  next
    case False
    then have "padding n = 4 - n mod 4" by (simp add: padding_def)
    then have "(of_nat (padding n) :: WORD) = 4 - of_nat (n mod 4)" by (simp add: of_nat_diff)
    then show ?thesis using False z by (simp add: and3)
  qed
qed

lemma length_bytes_of: "well_formed e \<Longrightarrow> length (bytes_of e) = (case e of Number i n \<Rightarrow> 8 | Block i bs \<Rightarrow> 8 + (length bs + padding (length bs)))"
  by (cases e) (simp_all add: be_bytes_def)

lemma next_element: "well_formed e \<Longrightarrow> el_next (decoded_at e a) = a + of_nat (length (bytes_of e))"
  by (cases e) (simp_all add: be_bytes_def)

lemma decode_element_reads:
  assumes wf: "well_formed e" and h: "holds m a (bytes_of e)" and n: "length (bytes_of e) + r < 2 ^ 32"
  shows "tenc_decode_element m a (of_nat (length (bytes_of e) + r)) el = (0, of_nat r, decoded_at e a)"
proof -
  let ?len = "of_nat (length (bytes_of e) + r) :: WORD"
  have ul: "unat ?len = length (bytes_of e) + r"
    using n by (simp only: unsigned_of_nat) (simp add: take_bit_nat_eq_self)
  have "8 \<le> length (bytes_of e)" using length_bytes_of[OF wf] by (cases e) simp_all
  then have len8: "\<not> ?len < 8" using ul by (simp only: word_less_nat_alt) simp
  obtain i where i: "length i = 4" "i = ident e" "holds m a i" "ident e = i"
    using wf h by (cases e) (auto simp: holds_append)
  have id: "[m a, m (a + 1), m (a + 2), m (a + 3)] = i" using four_list i by blast
  show ?thesis
  proof (cases e)
    case (Number j k)
    then have "tenc_decode_int m (a + 4) = k" "numeric i"
      using h wf i by (auto simp: holds_append intro!: decode_int_be_bytes)
    moreover have "?len - 8 = of_nat r" using Number wf by (simp add: be_bytes_def)
    ultimately show ?thesis using len8 Number i(2) id
      by (simp only: tenc_decode_element_def Let_def if_False) (simp add: numeric_def)
  next
    case (Block j bs)
    let ?n = "length bs"
    have l: "length (bytes_of e) = 8 + (?n + padding ?n)" using length_bytes_of[OF wf] Block by simp
    have "tenc_decode_int m (a + 4) = of_nat ?n" "\<not> numeric i"
      using h wf i Block by (auto simp: holds_append intro!: decode_int_be_bytes)
    moreover have "?len - 8 = of_nat (?n + padding ?n + r)" using l by simp
    moreover have "unat (of_nat (?n + padding ?n + r) :: WORD) = ?n + padding ?n + r" "unat (of_nat ?n :: WORD) = ?n"
      using n l by (simp_all only: unsigned_of_nat) (simp_all add: take_bit_nat_eq_self)
    then have "\<not> (of_nat (?n + padding ?n + r) :: WORD) < of_nat ?n" by (simp only: word_less_nat_alt)
    ultimately show ?thesis using len8 Block i(2) id padded_length[of ?n]
      by (cases el; cases "(of_nat ?n :: WORD) AND 3 = 0")
        (simp_all only: tenc_decode_element_def Let_def if_False, simp_all add: numeric_def)
  qed
qed

section \<open>Walking a stream\<close>

fun find_element :: "BYTE list \<Rightarrow> element list \<Rightarrow> (nat \<times> element \<times> element list) option" where
  "find_element i [] = None"
| "find_element i (e # es) =
     (if ident e = i then Some (0, e, es)
      else map_option (\<lambda>(n, x, rest). (length (bytes_of e) + n, x, rest)) (find_element i es))"

lemma ids_match_four: "length i = 4 \<Longrightarrow> length j = 4 \<Longrightarrow> ids_match i j \<longleftrightarrow> i = j"
  by (auto simp: ids_match_def list_eq_iff_nth_eq less_Suc_eq numeral_eq_Suc)

lemma decoded_ident: "el_id (decoded_at e a) = ident e"
  by (cases e) simp_all

lemma well_formed_ident: "well_formed e \<Longrightarrow> length (ident e) = 4"
  by (cases e) simp_all

text \<open>
  C33: on a well-formed stream the walk ends, and finds the first element with the given
  identifier: its number, or the address and length of its bytes, with the rest of the stream
  as the remaining length; without such an element it fails at the end of the stream.
\<close>

theorem walk_finds_first:
  assumes "\<forall>e \<in> set es. well_formed e" "holds m a (stream es)" "length (stream es) < 2 ^ 32" "length i = 4"
  shows "case find_element i es of
      None \<Rightarrow> \<exists>x. tenc_walk_to_element m a (of_nat (length (stream es))) i el = Some (-1, 0, x)
    | Some (n, e, rest) \<Rightarrow>
        tenc_walk_to_element m a (of_nat (length (stream es))) i el =
          Some (0, of_nat (length (stream rest)), decoded_at e (a + of_nat n)) \<and>
        holds m (a + of_nat n) (bytes_of e) \<and> ident e = i"
  using assms
proof (induction es arbitrary: a el)
  case Nil
  show ?case by (subst tenc_walk_to_element.simps) (simp add: stream_def)
next
  case (Cons e es)
  let ?r = "length (stream es)"
  have wf: "well_formed e" and h: "holds m a (bytes_of e)" "holds m (a + of_nat (length (bytes_of e))) (stream es)"
    and n: "length (bytes_of e) + ?r < 2 ^ 32"
    using Cons.prems by (simp_all add: stream_def holds_append)
  let ?len = "of_nat (length (bytes_of e) + ?r) :: WORD"
  have dec: "tenc_decode_element m a ?len el = (0, of_nat ?r, decoded_at e a)"
    by (rule decode_element_reads[OF wf h(1) n])
  have "8 \<le> length (bytes_of e)" using length_bytes_of[OF wf] by (cases e) simp_all
  then have "unat ?len \<noteq> 0" using n by (simp only: unsigned_of_nat) (auto simp add: take_bit_nat_eq_self)
  then have pos: "?len > 0" by (simp only: word_less_nat_alt unat_0) 
  have len: "of_nat (length (stream (e # es))) = ?len" by (simp add: stream_def)
  show ?case
  proof (cases "ident e = i")
    case True
    then have "tenc_walk_to_element m a ?len i el = Some (0, of_nat ?r, decoded_at e a)"
      using pos dec by (subst tenc_walk_to_element.simps) (simp add: decoded_ident ids_match_def del: of_nat_add)
    then show ?thesis using True h(1) len by simp
  next
    case False
    then have step: "tenc_walk_to_element m a ?len i el =
        tenc_walk_to_element m (a + of_nat (length (bytes_of e))) (of_nat ?r) i (decoded_at e a)"
      using pos dec well_formed_ident[OF wf] Cons.prems(4)
      by (subst tenc_walk_to_element.simps) (simp add: decoded_ident ids_match_four next_element[OF wf] del: of_nat_add)
    have "?r < 2 ^ 32" using n by simp
    from Cons.IH[OF _ h(2) this Cons.prems(4), of "decoded_at e a"] show ?thesis
      using Cons.prems(1) False step len by (auto split: option.splits simp: add.assoc)
  qed
qed

theorem walk_finds_first_witness:
  "\<exists>m. tenc_walk_to_element m 0x100 (of_nat (length (stream [Number (tag ''vs U'') 7, Block (tag ''bc B'') [1, 2, 3]])))
      (tag ''bc B'') no_element =
     Some (0, 0, decoded_at (Block (tag ''bc B'') [1, 2, 3]) 0x108)"
proof -
  let ?es = "[Number (tag ''vs U'') 7, Block (tag ''bc B'') [1, 2, 3]]"
  let ?m = "\<lambda>x. stream ?es ! unat (x - 0x100)"
  have l: "length (stream ?es) = 20"
    by (simp add: stream_def be_bytes_def tag_def padding_def)
  have "holds ?m 0x100 (stream ?es)"
    unfolding holds_def l by (auto simp: unsigned_of_nat take_bit_nat_eq_self)
  moreover have "\<forall>e \<in> set ?es. well_formed e" by (simp add: tag_def numeric_def)
  ultimately show ?thesis
    using walk_finds_first[of ?es ?m "0x100" "tag ''bc B''" no_element] l
    by (intro exI[of _ ?m]) (simp add: tag_def be_bytes_def stream_def padding_def)
qed

lemma remaining_wraps:
  fixes l n b :: WORD
  assumes "n \<le> l" "unat l \<le> 2 ^ 32 - 9" "b = of_nat (unat n + p)" "p \<le> 3"
  shows "l - b \<le> l \<longleftrightarrow> unat n + p \<le> unat l"
proof -
  have nl: "unat n \<le> unat l" using assms(1) by (simp add: word_le_nat_alt)
  then have b: "unat b = unat n + p"
    using assms(2-4) by (simp only: assms(3) unsigned_of_nat) (simp add: take_bit_nat_eq_self)
  have "l - b \<le> l \<longleftrightarrow> b \<le> l"
    using b nl assms(2,4) by (cases "b \<le> l") (auto simp: word_le_nat_alt unat_sub_if' unat_bound)
  then show ?thesis using b by (simp add: word_le_nat_alt)
qed



lemma file_loop_fails: "file_loop m data len = Some ret \<Longrightarrow> ret < 0"
proof (induction data len ret rule: file_loop.raw_induct[rotated, consumes 1])
  case (1 loop m data len ret)
  then show ?case by (auto simp: Option.bind_eq_Some_conv split: if_splits)
qed

text \<open>\<open>tbc_debug_file_and_line\<close> never finds a file and line: if it returns, it returns an error.\<close>

theorem debug_lookup_never_succeeds:
  "case tbc_debug_file_and_line m data len off of None \<Rightarrow> True | Some (ret, file, line) \<Rightarrow> ret < 0 \<and> file = 0 \<and> line = 0"
  by (auto simp: tbc_debug_file_and_line_def Let_def dest: file_loop_fails split: option.splits)

end
