(* ===== verification/TVM_Execution.thy ===== *)
theory TVM_Execution
  imports TVM_Dispatch
begin

text \<open>
  Correctness of decode and dispatch: prefix sequences build operands of any size, operation
  codes reach the function the tables give for them, and the dispatch loop is the execution of a
  number of instructions (\<open>execute_n\<close>) that stops at the first code other than zero.
\<close>

section \<open>Executing a number of instructions\<close>

text \<open>
  The abstract account of the interpreter: one instruction is a decode and a dispatch, and
  execution stops at the first instruction that returns a code other than \<open>ECTX_CONTINUE\<close>.
\<close>

definition execute :: "env \<Rightarrow> instruction" where
  "execute e s = (case decode_next s of (instr, t) \<Rightarrow> do_dispatch e instr t)"

fun execute_n :: "env \<Rightarrow> nat \<Rightarrow> instruction" where
  "execute_n e 0 s = Some (ECTX_CONTINUE, s)"
| "execute_n e (Suc n) s =
     Option.bind (execute e s) (\<lambda>(ret, s). if ret = ECTX_CONTINUE then execute_n e n s else Some (ret, s))"

lemma dispatch_loop_execute:
  "dispatch_loop e cycles s = Option.bind (execute e s)
     (\<lambda>(ret, s). if cycles \<noteq> 2 \<and> ret = ECTX_CONTINUE then dispatch_loop e (cycles - 2) s else Some (ret, s))"
  by (subst dispatch_loop.simps) (simp add: execute_def ECTX_CONTINUE_def Let_def split: prod.split option.split)

lemma dispatch_loop_even:
  "0 < n \<Longrightarrow> n \<le> 2 ^ 31 \<Longrightarrow> dispatch_loop e (of_nat (2 * n)) s = execute_n e n s"
proof (induction n arbitrary: s)
  case (Suc n)
  show ?case
  proof (cases "n = 0")
    case True
    then show ?thesis
      by (subst dispatch_loop_execute) (auto simp: ECTX_CONTINUE_def split: option.split prod.split Option.bind_split)
  next
    case False
    have "(of_nat (2 * n) :: WORD) \<noteq> 0"
      using Suc.prems False word_of_nat_eq_0_iff[where 'a = 32, of "2 * n"] by (auto dest: dvd_imp_le)
    then have "(of_nat (2 * Suc n) :: WORD) \<noteq> 2" by simp
    moreover have "(of_nat (2 * Suc n) :: WORD) - 2 = of_nat (2 * n)" by simp
    ultimately show ?thesis using Suc False
      by (subst dispatch_loop_execute) (auto split: option.split Option.bind_split)
  qed
qed simp

lemma dispatch_loop_odd_stops:
  "dispatch_loop e cycles s = Some y \<Longrightarrow> odd cycles \<Longrightarrow> fst y \<noteq> ECTX_CONTINUE \<and> (\<exists>n. execute_n e n s = Some y)"
proof (induction e cycles s y rule: dispatch_loop.raw_induct[rotated, consumes 1])
  case (1 loop e cycles s y)
  obtain ret t where ex: "execute e s = Some (ret, t)"
    using 1(2) by (auto simp: execute_def Option.bind_eq_Some_conv Let_def split: prod.splits)
  have odd: "odd (cycles - 2)" "cycles \<noteq> 2" using 1(3) by auto
  have y: "(if ret = ECTX_CONTINUE then loop e (cycles - 2) t else Some (ret, t)) = Some y"
    using 1(2) ex odd by (auto simp: execute_def ECTX_CONTINUE_def Let_def split: prod.splits if_splits)
  show ?case
  proof (cases "ret = ECTX_CONTINUE")
    case True
    then have "loop e (cycles - 2) t = Some y" using y by simp
    then obtain n where "fst y \<noteq> ECTX_CONTINUE" "execute_n e n t = Some y" using 1(1) odd by blast
    then have "execute_n e (Suc n) s = Some y" using ex True by simp
    then show ?thesis using \<open>fst y \<noteq> ECTX_CONTINUE\<close> by blast
  next
    case False
    then have "execute_n e (Suc 0) s = Some y" "fst y = ret" using ex y by auto
    then show ?thesis using False by blast
  qed
qed

lemma dispatch_loop_odd_reaches:
  "odd cycles \<Longrightarrow> execute_n e n s = Some (ret, t) \<Longrightarrow> ret \<noteq> ECTX_CONTINUE \<Longrightarrow> dispatch_loop e cycles s = Some (ret, t)"
proof (induction n arbitrary: s cycles)
  case (Suc n)
  have "odd (cycles - 2)" "cycles \<noteq> 2" using Suc.prems(1) by auto
  then show ?case using Suc
    by (subst dispatch_loop_execute) (auto simp: Option.bind_eq_Some_conv split: if_splits)
qed simp

section \<open>Operands of any size\<close>

text \<open>
  The bytes that stand for the instruction with function code \<open>f\<close> and operand \<open>v\<close> in a program:
  \<open>pfix\<close> (2) and \<open>nfix\<close> (6) instructions that build up all but the lowest four bits.
\<close>

function encode :: "nat \<Rightarrow> int \<Rightarrow> BYTE list" where
  "encode f v =
     (if 0 \<le> v \<and> v < 16 then []
      else if 0 \<le> v then encode 2 (v div 16) else encode 6 ((- v - 1) div 16)) @
     [of_nat f * 16 + of_int (v mod 16)]"
  by auto
termination by (relation "measure (\<lambda>(f, v). nat \<bar>v\<bar>)") auto

declare encode.simps [simp del]

definition code_at :: "mach \<Rightarrow> BYTEPTR \<Rightarrow> BYTE list \<Rightarrow> bool" where
  "code_at s p bs \<longleftrightarrow> (\<forall>i < length bs. get_byte s (p + of_nat i) = bs ! i)"

lemma code_at_append: "code_at s p (as @ bs) \<longleftrightarrow> code_at s p as \<and> code_at s (p + of_nat (length as)) bs"
proof -
  have "(\<forall>i < length (as @ bs). Q i) \<longleftrightarrow> (\<forall>i < length as. Q i) \<and> (\<forall>i < length bs. Q (length as + i))" for Q
    by (auto simp: nat_add_left_cancel_less) (metis add_diff_inverse_nat add_less_cancel_left)
  then show ?thesis by (simp add: code_at_def nth_append add.assoc)
qed

lemma ucast_of_nat: "(ucast (w :: BYTE) :: WORD) = of_nat (unat w)"
  by simp

lemma encode_byte:
  assumes "f < 16" "0 \<le> r" "r < (16 :: int)"
  defines "b \<equiv> of_nat f * 16 + of_int r :: BYTE"
  shows "unat (drop_bit 4 b) = f" "ucast (b AND 0x0f) = (of_int r :: WORD)"
proof -
  have b: "b = of_nat (f * 16 + nat r)" using assms(2) by (simp add: b_def)
  have "f * 16 + nat r < 256" using assms(1,3) by simp
  then have u: "unat b = f * 16 + nat r"
    unfolding b unsigned_of_nat by (simp add: take_bit_nat_eq_self)
  show "unat (drop_bit 4 b) = f" 
    unfolding unat_drop_bit_eq u using assms(2,3) by (simp add: drop_bit_eq_div)
  have m: "b AND 0x0f = take_bit 4 b" by (simp add: take_bit_eq_mask mask_eq_exp_minus_1)
  have "unat (b AND 0x0f) = nat r" unfolding m unsigned_take_bit_eq using assms(3) u by (simp add: take_bit_eq_mod)
  then show "ucast (b AND 0x0f) = (of_int r :: WORD)"
    using assms(2) ucast_of_nat[of "b AND 0x0f"] by simp
qed


text \<open>The last byte of an encoded instruction, executed with the operand register built up so far.\<close>

lemma execute_last_byte:
  assumes "f < 16" "get_byte s (iptr s) = of_nat f * 16 + of_int (v mod 16)"
    and "oreg s = (of_int (16 * (v div 16)) :: WORD)"
  shows "execute e s = (primaries e ! f) (s\<lparr>iptr := iptr s + 1, oreg := of_int v\<rparr>)"
proof -
  have "oreg s OR of_int (v mod 16) = of_int v"
  proof -
    have "oreg s = push_bit 4 (of_int (v div 16))" using assms(3) by (simp add: push_bit_eq_mult mult.commute)
    moreover have "of_int (v mod 16) = (of_int (take_bit 4 v) :: WORD)" by (simp add: take_bit_eq_mod)
    moreover have "of_int (v div 16) = (of_int (drop_bit 4 v) :: WORD)" by (simp add: drop_bit_eq_div)
    moreover have "push_bit 4 (of_int (drop_bit 4 v)) OR of_int (take_bit 4 v) = (of_int v :: WORD)"
      by (rule bit_word_eqI) (auto simp: bit_or_iff bit_push_bit_iff bit_take_bit_iff bit_of_int_iff bit_drop_bit_eq)
    ultimately show ?thesis by simp
  qed
  then show ?thesis
    using encode_byte[OF assms(1), of "v mod 16"] assms(2)
    by (simp add: execute_def decode_next_def do_dispatch_def Let_def byteptr_plus_def)
qed

lemma not_of_int: "NOT (of_int ((- v - 1) div 16)) = (of_int (v div 16) :: WORD)"
proof -
  have "- v - 1 = - 1 - v" by simp
  then have "(- v - 1) div 16 = - 1 - v div 16"
    using div_minus_minus[of "v" "-16"] by (simp add: zdiv_zminus1_eq_if zdiv_zminus2_eq_if)
  then show ?thesis by (simp add: not_eq_complement)
qed

lemma encode_executes:
  assumes "f < 16" "code_at s (iptr s) (encode f v)" "oreg s = 0"
  shows "execute_n e (length (encode f v) + k) s =
     Option.bind ((primaries e ! f) (s\<lparr>iptr := iptr s + of_nat (length (encode f v)), oreg := of_int v\<rparr>))
       (\<lambda>(ret, t). if ret = ECTX_CONTINUE then execute_n e k t else Some (ret, t))"
  using assms
proof (induction f v arbitrary: s k rule: encode.induct)
  case (1 f v)
  let ?b = "of_nat f * 16 + of_int (v mod 16) :: BYTE"
  consider "0 \<le> v" "v < 16" | "16 \<le> v" | "v < 0" by linarith
  then show ?case
  proof cases
    case 1
    then have "encode f v = [?b]" by (subst encode.simps) simp
    moreover have "v div 16 = 0" using 1 by simp
    ultimately show ?thesis using "1.prems" execute_last_byte[of f s v e] by (simp add: code_at_def)
  next
    case 2
    let ?p = "encode 2 (v div 16)"
    have e: "encode f v = ?p @ [?b]" using 2 by (subst encode.simps) simp
    have c: "code_at s (iptr s) ?p" "get_byte s (iptr s + of_nat (length ?p)) = ?b"
      using "1.prems"(2) by (simp_all add: e code_at_append) (simp add: code_at_def)
    have "execute_n e (length ?p + Suc k) s =
        execute_n e (Suc k) (s\<lparr>iptr := iptr s + of_nat (length ?p), oreg := of_int (16 * (v div 16))\<rparr>)"
      using "1.IH"(1)[OF _ _ _ c(1) "1.prems"(3), of "Suc k"] 2
      by (simp add: primaries_def ins_pfix_def push_bit_eq_mult mult.commute del: execute_n.simps)
    then show ?thesis
      using execute_last_byte[OF "1.prems"(1), of "s\<lparr>iptr := iptr s + of_nat (length ?p), oreg := of_int (16 * (v div 16))\<rparr>" v e] c(2)
      by (simp add: e get_byte_def ac_simps)
  next
    case 3
    let ?p = "encode 6 ((- v - 1) div 16)"
    have e: "encode f v = ?p @ [?b]" using 3 by (subst encode.simps) simp
    have c: "code_at s (iptr s) ?p" "get_byte s (iptr s + of_nat (length ?p)) = ?b"
      using "1.prems"(2) by (simp_all add: e code_at_append) (simp add: code_at_def)
    have "execute_n e (length ?p + Suc k) s =
        execute_n e (Suc k) (s\<lparr>iptr := iptr s + of_nat (length ?p), oreg := of_int (16 * (v div 16))\<rparr>)"
      using "1.IH"(2)[OF _ _ _ c(1) "1.prems"(3), of "Suc k"] 3 not_of_int[of v]
      by (simp add: primaries_def ins_nfix_def push_bit_eq_mult mult.commute del: execute_n.simps)
    then show ?thesis
      using execute_last_byte[OF "1.prems"(1), of "s\<lparr>iptr := iptr s + of_nat (length ?p), oreg := of_int (16 * (v div 16))\<rparr>" v e] c(2)
      by (simp add: e get_byte_def ac_simps)
  qed
qed


text \<open>
  C30: a prefix sequence followed by an instruction executes the instruction with the encoded
  operand, for every integer operand (as its two's complement word).
\<close>

theorem operand_of_any_size:
  assumes "f < 16" "code_at s (iptr s) (encode f v)" "oreg s = 0"
  shows "execute_n e (length (encode f v)) s =
     (primaries e ! f) (s\<lparr>iptr := iptr s + of_nat (length (encode f v)), oreg := of_int v\<rparr>)"
  using encode_executes[OF assms, of e 0] by (simp cong: if_cong split: Option.bind_split) 

lemma encode_minus_300: "encode 4 (- 300) = [0x21, 0x62, 0x44]"
  by (simp add: encode.simps)

theorem operand_of_any_size_witness:
  "\<forall>e. execute_n e (length (encode 4 (- 300))) (blank\<lparr>mem := (\<lambda>a. 0)(0 := 0x21, 1 := 0x62, 2 := 0x44)\<rparr>) =
     Some (ECTX_CONTINUE, blank\<lparr>mem := (\<lambda>a. 0)(0 := 0x21, 1 := 0x62, 2 := 0x44), iptr := 3, areg := - 300\<rparr>)"
proof
  fix e
  let ?s = "blank\<lparr>mem := (\<lambda>a. 0)(0 := 0x21, 1 := 0x62, 2 := 0x44)\<rparr>"
  have "code_at ?s (iptr ?s) (encode 4 (- 300))"
    by (auto simp: encode_minus_300 code_at_def less_Suc_eq numeral_3_eq_3 get_byte_def read_byte_def)
  then show "execute_n e (length (encode 4 (- 300))) ?s = Some (ECTX_CONTINUE, blank\<lparr>mem := (\<lambda>a. 0)(0 := 0x21, 1 := 0x62, 2 := 0x44), iptr := 3, areg := - 300\<rparr>)"
    using operand_of_any_size[of 4 ?s "- 300" e]
    by (simp add: encode_minus_300 primaries_def ins_ldc_def STACK_RET_def STACK_def CLEAR_OREG_def blank_def del: execute_n.simps)
qed

lemma tables_distinct: "distinct (map fst (secondary_ops e))" "distinct (map fst (extended_secondary_ops e))"
  by (simp_all add: secondary_ops_def extended_secondary_ops_def)

lemma secondary_ops_range: "(ins, f) \<in> set (secondary_ops e) \<Longrightarrow> ins \<le> secondaries_max"
proof -
  have "\<forall>x \<in> set (map fst (secondary_ops e)). x \<le> secondaries_max"
    by (simp add: secondary_ops_def secondaries_max_def)
  then show "(ins, f) \<in> set (secondary_ops e) \<Longrightarrow> ins \<le> secondaries_max" by force
qed

lemma extended_secondary_ops_range:
  "(ins, f) \<in> set (extended_secondary_ops e) \<Longrightarrow>
   \<not> ins \<le> secondaries_max \<and> extended_secondaries_min \<le> ins \<and> ins \<le> extended_secondaries_max"
proof -
  have "\<forall>x \<in> set (map fst (extended_secondary_ops e)).
      \<not> x \<le> secondaries_max \<and> extended_secondaries_min \<le> x \<and> x \<le> extended_secondaries_max"
    by (simp add: extended_secondary_ops_def secondaries_max_def extended_secondaries_min_def extended_secondaries_max_def)
  then show "(ins, f) \<in> set (extended_secondary_ops e) \<Longrightarrow> ?thesis" by force
qed

lemma ins_opr_listed:
  "(oreg s, f) \<in> set (secondary_ops e) \<union> set (extended_secondary_ops e) \<Longrightarrow> ins_opr e s = f (CLEAR_OREG s)"
  using secondary_ops_range[of "oreg s" f e] extended_secondary_ops_range[of "oreg s" f e]
  by (auto simp: ins_opr_def table_lookup_def Let_def map_of_is_SomeI tables_distinct)

text \<open>
  C28: every operation code of the two tables performs the function the table gives for it, and
  enters it with a cleared operand register.
\<close>

theorem opcode_performs_its_instruction:
  assumes "(ins, f) \<in> set (secondary_ops e) \<union> set (extended_secondary_ops e)"
    and "code_at s (iptr s) (encode 15 (uint ins))" "oreg s = 0"
  shows "execute_n e (length (encode 15 (uint ins))) s =
     f (s\<lparr>iptr := iptr s + of_nat (length (encode 15 (uint ins)))\<rparr>)"
proof -
  let ?s = "s\<lparr>iptr := iptr s + of_nat (length (encode 15 (uint ins))), oreg := of_int (uint ins)\<rparr>"
  have "oreg ?s = ins" by simp
  then have "ins_opr e ?s = f (CLEAR_OREG ?s)" using assms(1) ins_opr_listed[of ?s f e] by simp
  moreover have "CLEAR_OREG ?s = s\<lparr>iptr := iptr s + of_nat (length (encode 15 (uint ins)))\<rparr>"
    using assms(3) by (simp add: CLEAR_OREG_def)
  ultimately show ?thesis
    using operand_of_any_size[of 15 s "uint ins" e] assms(2,3) by (simp add: primaries_def)
qed

lemma encode_mt_clone: "encode 15 570 = [0x22, 0x23, 0xFA]"
  by (simp add: encode.simps)

theorem opcode_performs_its_instruction_witness:
  "\<forall>e. execute_n e (length (encode 15 (uint (0x23A :: WORD)))) (blank\<lparr>mem := (\<lambda>a. 0)(0 := 0x22, 1 := 0x23, 2 := 0xFA)\<rparr>) =
     ins_mt_clone (blank\<lparr>mem := (\<lambda>a. 0)(0 := 0x22, 1 := 0x23, 2 := 0xFA), iptr := 3\<rparr>)"
proof
  fix e
  let ?s = "blank\<lparr>mem := (\<lambda>a. 0)(0 := 0x22, 1 := 0x23, 2 := 0xFA)\<rparr>"
  have "code_at ?s (iptr ?s) (encode 15 (uint (0x23A :: WORD)))"
    by (auto simp: encode_mt_clone code_at_def less_Suc_eq numeral_3_eq_3 get_byte_def read_byte_def)
  moreover have "(0x23A, ins_mt_clone) \<in> set (secondary_ops e) \<union> set (extended_secondary_ops e)"
    by (simp add: extended_secondary_ops_def)
  ultimately show "execute_n e (length (encode 15 (uint (0x23A :: WORD)))) ?s =
      ins_mt_clone (blank\<lparr>mem := (\<lambda>a. 0)(0 := 0x22, 1 := 0x23, 2 := 0xFA), iptr := 3\<rparr>)"
    using opcode_performs_its_instruction[of "0x23A" ins_mt_clone e ?s]
    by (simp add: encode_mt_clone blank_def del: execute_n.simps)
qed

text \<open>
  \<open>opr\<close> decides every operation code: those of the two tables perform their function, the
  others in the ranges of the tables are not supported, and all others, the negative ones among
  them, are invalid.
\<close>

theorem opr_decides:
  "ins_opr e s =
     (case map_of (secondary_ops e @ extended_secondary_ops e) (oreg s) of
        Some f \<Rightarrow> f (CLEAR_OREG s)
      | None \<Rightarrow> Some (if oreg s \<le> 0xFE \<or> 0x22F \<le> oreg s \<and> oreg s \<le> 0x24D
                     then (ECTX_INS_UNSUPPORTED, CLEAR_OREG s) else (ECTX_INS_INVALID, s)))"
proof (cases "map_of (secondary_ops e @ extended_secondary_ops e) (oreg s)")
  case None
  then have "map_of (secondary_ops e) (oreg s) = None" "map_of (extended_secondary_ops e) (oreg s) = None"
    by (auto simp: map_add_None)
  then show ?thesis using None
    by (simp add: ins_opr_def table_lookup_def ins_not_implemented_def Let_def map_add_def secondaries_max_def
        extended_secondaries_min_def extended_secondaries_max_def)
next
  case (Some f)
  then have "(oreg s, f) \<in> set (secondary_ops e) \<union> set (extended_secondary_ops e)"
    by (auto dest: map_of_SomeD)
  then show ?thesis using Some ins_opr_listed by simp
qed

section \<open>Runs\<close>

text \<open>
  The dispatcher counts cycles, two for an instruction: an odd number never gets to zero, and an
  even one gives half as many instructions, except that zero gives the largest number.
\<close>

definition instructions_of :: "UWORD \<Rightarrow> nat" where
  "instructions_of count = (if unat count mod 2 ^ 31 = 0 then 2 ^ 31 else unat count mod 2 ^ 31)"

lemma double_wrap: "c = a + m * b \<Longrightarrow> 2 * m = 0 \<Longrightarrow> 2 * c = 2 * a" for c a m b :: WORD
  by (simp only: distrib_left mult.assoc[symmetric] mult_zero_left add_0_right)

lemma dispatch_loop_count: "dispatch_loop e (push_bit 1 count) s = execute_n e (instructions_of count) s"
proof -
  have z: "(4294967296 :: WORD) = 0" by simp
  have "(of_nat (2 * instructions_of count) :: WORD) = push_bit 1 count"
  proof (cases "unat count mod 2 ^ 31 = 0")
    case True
    then obtain k where "unat count = 2 ^ 31 * k" by (auto simp: mod_eq_0_iff_dvd dvd_def)
    then have "of_nat (unat count) = (of_nat (2 ^ 31 * k) :: WORD)" by simp
    then have "2 * count = 2 * (2 ^ 31 * of_nat k)" by simp
    then have "count * 2 = 4294967296 * of_nat k" by (simp add: mult.commute)
    then have "count * 2 = 0" unfolding z by simp
    then show ?thesis using True z by (simp add: instructions_of_def push_bit_eq_mult)
  next
    case False
    have "count = of_nat (unat count mod 2 ^ 31 + 2 ^ 31 * (unat count div 2 ^ 31))" by simp
    also have "\<dots> = of_nat (unat count mod 2 ^ 31) + 2 ^ 31 * of_nat (unat count div 2 ^ 31)"
      unfolding of_nat_add of_nat_mult by simp
    finally have "count = of_nat (unat count mod 2 ^ 31) + 2 ^ 31 * of_nat (unat count div 2 ^ 31)" .
    from double_wrap[OF this] have "2 * count = 2 * of_nat (unat count mod 2 ^ 31)" by simp
    then show ?thesis using False by (simp add: instructions_of_def push_bit_eq_mult mult.commute)
  qed
  moreover have "0 < instructions_of count" "instructions_of count \<le> 2 ^ 31"
    using mod_less_divisor[of "2 ^ 31" "unat count"] by (auto simp: instructions_of_def)
  ultimately show ?thesis using dispatch_loop_even[of "instructions_of count" e s] by simp
qed

text \<open>
  C32: \<open>tvm_run_count\<close> executes at most the given number of instructions, stops early at the
  first that returns a code other than zero and returns it, and else reports the end of the
  time slice. The number is taken modulo half the word, and zero stands for the largest.
\<close>

theorem run_count_time_slice:
  "tvm_run_count e count s =
     Option.bind (run_pre_init e s) (\<lambda>(ret, t).
       if ret \<noteq> 0 then Some (ret, t)
       else Option.bind (execute_n e (instructions_of count) t) (\<lambda>(ret, u).
              Some (if ret = 0 then ECTX_TIME_SLICE else ret, u\<lparr>state := ret\<rparr>)))"
  using dispatch_loop_count[of e count]
  by (auto simp: tvm_run_count_def tvm_dispatch_def split: option.split Option.bind_split)

text \<open>
  C31: \<open>tvm_run\<close> returns exactly when some instruction returns a code other than zero (or there
  was nothing to run), with the code of the first such instruction.
\<close>

theorem run_until_stop:
  "tvm_run e s = Some (ret, t) \<longleftrightarrow>
     (\<exists>u. run_pre_init e s = Some (ret, t) \<and> ret \<noteq> 0 \<or>
          run_pre_init e s = Some (0, u) \<and> ret \<noteq> 0 \<and>
          (\<exists>n v. execute_n e n u = Some (ret, v) \<and> t = v\<lparr>state := ret\<rparr>))"
proof (cases "run_pre_init e s")
  case None
  then show ?thesis by (simp add: tvm_run_def)
next
  case (Some a)
  obtain r u where a: "a = (r, u)" by (cases a)
  have "tvm_dispatch e 1 u = Some (ret, t) \<longleftrightarrow> ret \<noteq> 0 \<and> (\<exists>n v. execute_n e n u = Some (ret, v) \<and> t = v\<lparr>state := ret\<rparr>)"
  proof
    assume "tvm_dispatch e 1 u = Some (ret, t)"
    then obtain v where v: "dispatch_loop e 1 u = Some (ret, v)" "t = v\<lparr>state := ret\<rparr>"
      by (auto simp: tvm_dispatch_def split: option.splits)
    then show "ret \<noteq> 0 \<and> (\<exists>n v. execute_n e n u = Some (ret, v) \<and> t = v\<lparr>state := ret\<rparr>)"
      using dispatch_loop_odd_stops[OF v(1)] by (auto simp: ECTX_CONTINUE_def)
  next
    assume "ret \<noteq> 0 \<and> (\<exists>n v. execute_n e n u = Some (ret, v) \<and> t = v\<lparr>state := ret\<rparr>)"
    then obtain n v where v: "ret \<noteq> 0" "execute_n e n u = Some (ret, v)" "t = v\<lparr>state := ret\<rparr>" by blast
    then show "tvm_dispatch e 1 u = Some (ret, t)"
      using dispatch_loop_odd_reaches[OF _ v(2), of 1] by (simp add: tvm_dispatch_def ECTX_CONTINUE_def)
  qed
  then show ?thesis using Some a by (auto simp: tvm_run_def)
qed

end
