(* ===== verification/TVM_Frame.thy ===== *)
theory TVM_Frame
  imports TVM_TimerQueue
begin

text \<open>
  Regions of memory: the bytes of a buffer and the words of a workspace, what an operation may
  write (\<open>same_outside\<close>), and what that leaves alone, among it the run queue.
\<close>

section \<open>Regions of memory\<close>

definition bytes_at :: "WORD \<Rightarrow> nat \<Rightarrow> WORD set" where
  "bytes_at p n = (\<lambda>i. p + of_nat i) ` {..<n}"

definition slots :: "WORDPTR \<Rightarrow> WORD set" where
  "slots w = (\<Union>k \<in> {0, 1, 2, 3, 4, 5, 6}. bytes_at (wordptr_minus w k) 4)"

lemma bytes_at_4: "bytes_at p 4 = {p, p + 1, p + 2, p + 3}"
  by (auto simp: bytes_at_def numeral_eq_Suc lessThan_Suc add.commute)

lemma slot_in_slots: "k < 7 \<Longrightarrow> bytes_at (wordptr_minus w k) 4 \<subseteq> slots w"
  using less_7_word[of k] unfolding slots_def by blast

lemma words_apart: "aligned p \<Longrightarrow> aligned q \<Longrightarrow> p \<noteq> q \<Longrightarrow> bytes_at p 4 \<inter> bytes_at q 4 = {}"
proof -
  assume a: "aligned p" "aligned q" "p \<noteq> q"
  have "of_nat i < (4 :: WORD)" if "i < 4" for i :: nat
    using that by (simp add: word_less_nat_alt unsigned_of_nat take_bit_nat_eq_self)
  then have "p + of_nat i \<noteq> q + of_nat j" if "i < 4" "j < 4" for i j :: nat
    using aligned_off_neq[OF a] that by blast
  then show ?thesis unfolding bytes_at_def by auto
qed

lemma slots_disjoint:
  assumes "ws_disjoint W" "w \<in> W" "w' \<in> W" "w \<noteq> w'"
  shows "slots w \<inter> slots w' = {}"
proof -
  have "bytes_at (wordptr_minus w j) 4 \<inter> bytes_at (wordptr_minus w' k) 4 = {}"
    if "j \<in> {0, 1, 2, 3, 4, 5, 6}" "k \<in> {0, 1, 2, 3, 4, 5, 6}" for j k
    using assms that by (intro words_apart aligned_slot) (auto simp: ws_disjoint_def)
  then show ?thesis unfolding slots_def by blast
qed

section \<open>What an operation may write\<close>

definition same_outside :: "WORD set \<Rightarrow> mach \<Rightarrow> mach \<Rightarrow> bool" where
  "same_outside A s t \<longleftrightarrow> (\<forall>a. a \<notin> A \<longrightarrow> mem t a = mem s a)"

lemma same_outside_refl [simp, intro]: "mem t = mem s \<Longrightarrow> same_outside A s t"
  by (simp add: same_outside_def)

lemma same_outside_trans: "same_outside A s t \<Longrightarrow> same_outside B t u \<Longrightarrow> A \<subseteq> C \<Longrightarrow> B \<subseteq> C \<Longrightarrow> same_outside C s u"
  unfolding same_outside_def by (metis subsetD)

lemma same_outside_mono: "same_outside A s t \<Longrightarrow> A \<subseteq> B \<Longrightarrow> same_outside B s t"
  unfolding same_outside_def by blast

lemma same_outside_step: "same_outside C s t \<Longrightarrow> same_outside A t u \<Longrightarrow> A \<subseteq> C \<Longrightarrow> same_outside C s u"
  by (rule same_outside_trans[of C s t A]) auto

lemma same_outside_put_word: "same_outside (bytes_at p 4) s (put_word p v s)"
  by (simp add: same_outside_def bytes_at_4 put_word_def write_word_def)

lemma same_outside_WORKSPACE_SET: "k < 7 \<Longrightarrow> same_outside (slots w) s (WORKSPACE_SET w k v s)"
  unfolding WORKSPACE_SET_def by (rule same_outside_mono[OF same_outside_put_word slot_in_slots])

lemma same_outside_memcpy: "same_outside (bytes_at d (unat n)) s (memcpy d src n s)"
  unfolding same_outside_def memcpy_def memcpy_is_byte_copy bytes_at_def
  by (auto intro!: copy_bytes_outside)

lemma same_outside_get_word:
  "same_outside A s t \<Longrightarrow> bytes_at p 4 \<inter> A = {} \<Longrightarrow> get_word t p = get_word s p"
  by (auto simp: same_outside_def bytes_at_4 get_word_def read_word_def)

lemma same_outside_WORKSPACE_GET:
  "same_outside A s t \<Longrightarrow> slots w \<inter> A = {} \<Longrightarrow> k < 7 \<Longrightarrow> WORKSPACE_GET t w k = WORKSPACE_GET s w k"
  unfolding WORKSPACE_GET_def using slot_in_slots[of k w] by (auto intro: same_outside_get_word)

lemma same_outside_run_queue:
  "same_outside A s t \<Longrightarrow> \<forall>x \<in> set xs. slots x \<inter> A = {} \<Longrightarrow> fptr t = fptr s \<Longrightarrow> bptr t = bptr s \<Longrightarrow>
   run_queue t xs \<longleftrightarrow> run_queue s xs"
  by (rule run_queue_cong) (simp_all add: same_outside_WORKSPACE_GET)

lemma same_outside_add_to_queue:
  "run_queue s rs \<Longrightarrow> same_outside (slots x \<union> (\<Union>r \<in> set rs. slots r)) s (add_to_queue x s)"
proof (cases "fptr s = NOT_PROCESS_P")
  case True
  then show ?thesis
    using same_outside_WORKSPACE_SET[of WS_LINK x s NOT_PROCESS_P]
    by (simp add: add_to_queue_def Let_def same_outside_def)
next
  case False
  assume "run_queue s rs"
  then have "bptr s \<in> set rs" using False by (rule run_queue_last_in)
  then have "slots (bptr s) \<subseteq> (\<Union>r \<in> set rs. slots r)" by blast
  then have "same_outside (slots x \<union> (\<Union>r \<in> set rs. slots r)) s
      (WORKSPACE_SET (bptr s) WS_LINK x (WORKSPACE_SET x WS_LINK NOT_PROCESS_P s))"
    by (intro same_outside_trans[OF same_outside_WORKSPACE_SET same_outside_WORKSPACE_SET]) auto
  then show ?thesis using False by (simp add: add_to_queue_def Let_def same_outside_def)
qed


text \<open>One more write after an operation that stays within a region.\<close>

lemma same_outside_writes [intro]:
  "same_outside C s t \<Longrightarrow> bytes_at p 4 \<subseteq> C \<Longrightarrow> same_outside C s (put_word p v t)"
  "same_outside C s t \<Longrightarrow> k < 7 \<Longrightarrow> slots w \<subseteq> C \<Longrightarrow> same_outside C s (WORKSPACE_SET w k v t)"
  by (auto intro: same_outside_step same_outside_put_word same_outside_WORKSPACE_SET)

end
