(* ===== verification/TVM_Synchronise.thy ===== *)
theory TVM_Synchronise
  imports TVM_Frame TVM_Semaphore TVM_Barrier
begin

text \<open>
  Correctness of semaphores and barriers: both keep a linked queue of waiting processes
  (\<open>wait_queue\<close>), and their operations refine those of an abstract semaphore (\<open>semaphore\<close>) and of
  the counts and arrivals of a barrier (\<open>barrier_is\<close>).
\<close>

section \<open>Queues of waiting processes\<close>

text \<open>
  The words \<open>f\<close> and \<open>b\<close> are the front and back of a queue of processes that wait, linked as the
  run queue is; \<open>clear\<close> says that a region of memory is apart from the workspaces.
\<close>

definition clear :: "WORD set \<Rightarrow> WORDPTR set \<Rightarrow> bool" where
  "clear D W \<longleftrightarrow> ws_disjoint W \<and> D \<inter> (\<Union>w \<in> W. slots w) = {}"

definition wait_queue :: "mach \<Rightarrow> WORDPTR \<Rightarrow> WORDPTR \<Rightarrow> WORDPTR list \<Rightarrow> bool" where
  "wait_queue s f b ws \<longleftrightarrow>
     distinct ws \<and> (\<forall>w \<in> set ws. process w \<and> WORKSPACE_GET s w WS_ECTX = self s) \<and>
     (if ws = [] then get_word s f = NOT_PROCESS_P
      else get_word s f = hd ws \<and> get_word s b = last ws \<and> linked s WS_LINK ws)"

lemma clear_slots: "clear D W \<Longrightarrow> w \<in> W \<Longrightarrow> slots w \<inter> D = {}"
  unfolding clear_def by blast

lemma clear_sub: "clear D W \<Longrightarrow> E \<subseteq> D \<Longrightarrow> V \<subseteq> W \<Longrightarrow> clear E V"
  unfolding clear_def using ws_disjoint_subset by blast

lemma wait_queue_cong:
  assumes "self t = self s" "get_word t f = get_word s f" "ws \<noteq> [] \<Longrightarrow> get_word t b = get_word s b"
    and "\<forall>w \<in> set ws. WORKSPACE_GET t w WS_LINK = WORKSPACE_GET s w WS_LINK \<and>
      WORKSPACE_GET t w WS_ECTX = WORKSPACE_GET s w WS_ECTX"
  shows "wait_queue t f b ws \<longleftrightarrow> wait_queue s f b ws"
proof -
  have "linked t WS_LINK ws = linked s WS_LINK ws"
    using assms(4) by (intro linked_cong) (auto dest: in_set_butlastD)
  then show ?thesis using assms by (cases ws) (auto simp: wait_queue_def)
qed

lemma same_outside_wait_queue:
  "same_outside A s t \<Longrightarrow> self t = self s \<Longrightarrow> bytes_at f 4 \<inter> A = {} \<Longrightarrow> bytes_at b 4 \<inter> A = {} \<Longrightarrow>
   \<forall>w \<in> set ws. slots w \<inter> A = {} \<Longrightarrow> wait_queue t f b ws \<longleftrightarrow> wait_queue s f b ws"
  by (intro wait_queue_cong) (simp_all add: same_outside_get_word same_outside_WORKSPACE_GET)

text \<open>Joining at the back, as both the semaphore and the barrier do it.\<close>

definition join_queue :: "WORDPTR \<Rightarrow> WORDPTR \<Rightarrow> WORDPTR list \<Rightarrow> WORDPTR \<Rightarrow> mach \<Rightarrow> mach" where
  "join_queue f b ws p s =
     put_word b p (if ws = [] then put_word f p s else WORKSPACE_SET (last ws) WS_LINK p s)"

lemma join_queue_sel [simp]:
  "self (join_queue f b ws p s) = self s" "fptr (join_queue f b ws p s) = fptr s"
  "bptr (join_queue f b ws p s) = bptr s" "sflags (join_queue f b ws p s) = sflags s"
  "tptr (join_queue f b ws p s) = tptr s" "wptr (join_queue f b ws p s) = wptr s"
  "iptr (join_queue f b ws p s) = iptr s"
  by (simp_all add: join_queue_def)

lemma same_outside_join_queue:
  "same_outside (bytes_at f 4 \<union> bytes_at b 4 \<union> (\<Union>w \<in> set ws. slots w)) s (join_queue f b ws p s)"
  unfolding join_queue_def by (cases "ws = []") (auto intro!: same_outside_writes)

lemma ectx_slot [simp]: "WS_ECTX \<noteq> WS_LINK" "WS_LINK \<noteq> WS_ECTX" "WS_ECTX \<noteq> WS_IPTR" "WS_IPTR \<noteq> WS_ECTX"
  by (simp_all add: tvm_consts)

lemma wait_queue_join:
  assumes q: "wait_queue s f b ws" and D: "clear (bytes_at f 4 \<union> bytes_at b 4) (insert p (set ws))"
    and al: "aligned f" "aligned b" "f \<noteq> b" and p: "p \<notin> set ws" "WORKSPACE_GET s p WS_ECTX = self s"
  shows "wait_queue (join_queue f b ws p s) f b (ws @ [p])"
    and "k < 7 \<Longrightarrow> WORKSPACE_GET (join_queue f b ws p s) p k = WORKSPACE_GET s p k"
proof -
  let ?W = "insert p (set ws)" and ?t = "join_queue f b ws p s"
  have W: "ws_disjoint ?W" and pr: "process p" using D by (auto simp: clear_def ws_disjoint_def process_def)
  have "slots p \<inter> slots w = {}" if "w \<in> set ws" for w using slots_disjoint[OF W, of p w] that p by auto
  moreover have "slots p \<inter> (bytes_at f 4 \<union> bytes_at b 4) = {}" using clear_slots[OF D, of p] by auto
  ultimately have pk: "WORKSPACE_GET ?t p k = WORKSPACE_GET s p k" if "k < 7" for k
    by (intro same_outside_WORKSPACE_GET[OF same_outside_join_queue]) (use that in auto)
  then show "k < 7 \<Longrightarrow> WORKSPACE_GET ?t p k = WORKSPACE_GET s p k" .
  have w: "slots w \<inter> bytes_at f 4 = {}" "slots w \<inter> bytes_at b 4 = {}" if "w \<in> ?W" for w
    using clear_slots[OF D that] by auto
  have getw: "WORKSPACE_GET ?t w k = (if ws \<noteq> [] \<and> w = last ws \<and> k = WS_LINK then p else WORKSPACE_GET s w k)"
    if "w \<in> ?W" "k < 7" for w k
  proof (cases "ws = []")
    case True
    then show ?thesis using w[OF that(1)] that(2)
      by (simp add: join_queue_def same_outside_WORKSPACE_GET[OF same_outside_put_word])
  next
    case False
    have "WORKSPACE_GET ?t w k = WORKSPACE_GET (WORKSPACE_SET (last ws) WS_LINK p s) w k"
      unfolding join_queue_def using False w[OF that(1)] that(2)
      by (simp add: same_outside_WORKSPACE_GET[OF same_outside_put_word])
    then show ?thesis using False that by (simp add: WS_get_set[OF W])
  qed
  have fb: "get_word ?t b = p" by (simp add: join_queue_def)
  have ff: "get_word ?t f = (if ws = [] then p else get_word s f)"
  proof (cases "ws = []")
    case True
    then show ?thesis using al by (simp add: join_queue_def get_put_word)
  next
    case False
    then have "bytes_at f 4 \<inter> slots (last ws) = {}" using w(1)[of "last ws"] by auto
    then show ?thesis using al False
      by (simp add: join_queue_def get_put_word same_outside_get_word[OF same_outside_WORKSPACE_SET])
  qed
  have "linked ?t WS_LINK (ws @ [p])" if "ws \<noteq> []"
  proof -
    have "linked ?t WS_LINK ws = linked s WS_LINK ws"
    proof (rule linked_cong)
      fix x assume "x \<in> set (butlast ws)"
      then have "x \<in> ?W" "x \<noteq> last ws" 
        using q that distinct_last[of ws] by (auto simp: wait_queue_def dest: in_set_butlastD)
      then show "WORKSPACE_GET ?t x WS_LINK = WORKSPACE_GET s x WS_LINK" by (simp add: getw)
    qed
    moreover have "WORKSPACE_GET ?t (last ws) WS_LINK = p" using that by (subst getw) auto
    ultimately show ?thesis using q that by (simp add: wait_queue_def linked_snoc)
  qed
  then show "wait_queue ?t f b (ws @ [p])"
    using q p pr fb ff getw by (auto simp: wait_queue_def hd_append)
qed


section \<open>Semaphores\<close>

text \<open>The abstract semaphore: free, or held with a queue of processes that wait for it.\<close>

datatype semaphore = Free | Held "WORDPTR list"

definition sem_words :: "WORDPTR \<Rightarrow> WORD set" where
  "sem_words sem = bytes_at sem 4 \<union> bytes_at (wordptr_plus sem 1) 4"

definition sem_is :: "mach \<Rightarrow> WORDPTR \<Rightarrow> semaphore \<Rightarrow> bool" where
  "sem_is s sem v \<longleftrightarrow> aligned sem \<and>
     (case v of
        Free \<Rightarrow> get_word s sem = NOT_PROCESS_P OR 1
      | Held ws \<Rightarrow> wait_queue s sem (wordptr_plus sem 1) ws \<and>
          (ws \<noteq> [] \<longrightarrow> WORKSPACE_GET s (last ws) WS_LINK = NOT_PROCESS_P))"

fun claimed :: "WORDPTR \<Rightarrow> semaphore \<Rightarrow> semaphore" where
  "claimed p Free = Held []"
| "claimed p (Held ws) = Held (ws @ [p])"

fun released :: "semaphore \<Rightarrow> semaphore" where
  "released Free = Free"
| "released (Held []) = Free"
| "released (Held (w # ws)) = Held ws"

fun waiting_for :: "semaphore \<Rightarrow> WORDPTR list" where
  "waiting_for Free = []"
| "waiting_for (Held ws) = ws"

text \<open>What runs after a process has given up the processor: the head of the run queue, if any.\<close>

definition next_runs :: "mach \<Rightarrow> WORDPTR list \<Rightarrow> int \<Rightarrow> mach \<Rightarrow> bool" where
  "next_runs s rs ret t \<longleftrightarrow>
     (case rs of
        [] \<Rightarrow> ret = (if tptr s = NOT_PROCESS_P then ECTX_EMPTY else ECTX_SLEEP) \<and> wptr t = NOT_PROCESS_P \<and> run_queue t []
      | r # rs' \<Rightarrow> ret = ECTX_CONTINUE \<and> wptr t = r \<and> iptr t = WORKSPACE_GET s r WS_IPTR \<and> run_queue t rs')"

lemma dispatch_next_runs:
  assumes "run_queue s rs" "sflags s = 0"
  shows "\<exists>ret t. run_next_on_queue s = Some (ret, t) \<and> next_runs s rs ret t \<and> mem t = mem s \<and> self t = self s"
proof (cases rs)
  case Nil
  then show ?thesis using dispatch_front_empty[of s] assms
    by (auto simp: run_next_on_queue_def next_runs_def run_queue_def)
next
  case (Cons r rs')
  then obtain t where t: "dispatch_front s = Some (ECTX_CONTINUE, t)" "run_queue t rs'" "wptr t = r"
     "iptr t = WORKSPACE_GET s r WS_IPTR" "mem t = mem s"
    using dispatch_front_run_queue[of s r rs'] assms by auto
  moreover have "self t = self s" using t(1) by (auto simp: dispatch_front_def Let_def split: if_splits)
  ultimately show ?thesis using assms(2) Cons by (auto simp: run_next_on_queue_def next_runs_def)
qed

lemma next_runs_via:
  "next_runs t rs ret u \<Longrightarrow> tptr t = tptr s \<Longrightarrow> \<forall>r \<in> set rs. WORKSPACE_GET t r WS_IPTR = WORKSPACE_GET s r WS_IPTR \<Longrightarrow>
   next_runs s rs ret u"
  by (cases rs) (auto simp: next_runs_def)

lemma wait_queue_mem:
  "mem t = mem s \<Longrightarrow> self t = self s \<Longrightarrow> wait_queue t f b ws = wait_queue s f b ws"
  by (rule wait_queue_cong) (simp_all add: get_word_def WORKSPACE_GET_def)

lemma not_process_or_1: "NOT_PROCESS_P OR 1 = (1 :: WORD)" by (simp add: tvm_consts)

lemma aligned_not_1: "aligned p \<Longrightarrow> p \<noteq> 1" by (auto simp: aligned_def)

lemma sem_init_free:
  "aligned sem \<Longrightarrow> sem_is (tvm_sem_init sem s) sem Free"
  by (simp add: sem_is_def tvm_sem_init_def Let_def get_put_word align_simps wordptr_plus_def)

text \<open>The state of a process that is about to wait.\<close>

definition parked :: "mach \<Rightarrow> WORD \<Rightarrow> mach" where
  "parked s link = WORKSPACE_SET (wptr s) WS_IPTR (iptr s) (WORKSPACE_SET (wptr s) WS_ECTX (self s)
     (WORKSPACE_SET (wptr s) WS_LINK link s))"

lemma parked_sel [simp]:
  "self (parked s l) = self s" "fptr (parked s l) = fptr s" "bptr (parked s l) = bptr s"
  "sflags (parked s l) = sflags s" "tptr (parked s l) = tptr s" "wptr (parked s l) = wptr s" "iptr (parked s l) = iptr s"
  by (simp_all add: parked_def)

lemma same_outside_parked: "same_outside (slots (wptr s)) s (parked s l)"
  unfolding parked_def by (intro same_outside_writes same_outside_refl) auto

lemma parked_slots:
  "aligned (wptr s) \<Longrightarrow> WORKSPACE_GET (parked s l) (wptr s) WS_LINK = l"
  "aligned (wptr s) \<Longrightarrow> WORKSPACE_GET (parked s l) (wptr s) WS_ECTX = self s"
  "aligned (wptr s) \<Longrightarrow> WORKSPACE_GET (parked s l) (wptr s) WS_IPTR = iptr s"
  by (simp_all add: parked_def WS_get_set_same)

text \<open>
  The current process joins a queue of waiting processes and the next one in the run queue runs:
  the common part of the semaphore and the barrier.
\<close>

lemma wait_and_dispatch:
  assumes q: "wait_queue s f b ws" and D: "clear (bytes_at f 4 \<union> bytes_at b 4) (insert (wptr s) (set ws \<union> set rs))"
    and al: "aligned f" "aligned b" "f \<noteq> b" and p: "wptr s \<notin> set ws" "wptr s \<notin> set rs" "set ws \<inter> set rs = {}"
    and rq: "run_queue s rs" and sf: "sflags s = 0"
  shows "\<exists>ret t. run_next_on_queue (join_queue f b ws (wptr s) (parked s l)) = Some (ret, t) \<and>
     next_runs s rs ret t \<and> wait_queue t f b (ws @ [wptr s]) \<and>
     WORKSPACE_GET t (wptr s) WS_LINK = l \<and> WORKSPACE_GET t (wptr s) WS_IPTR = iptr s \<and> self t = self s \<and>
     same_outside (bytes_at f 4 \<union> bytes_at b 4 \<union> (\<Union>w \<in> insert (wptr s) (set ws). slots w)) s t"
proof -
  let ?p = "wptr s" and ?s1 = "parked s l"
  let ?s2 = "join_queue f b ws ?p ?s1"
  let ?A = "bytes_at f 4 \<union> bytes_at b 4 \<union> (\<Union>w \<in> insert ?p (set ws). slots w)"
  have W: "ws_disjoint (insert ?p (set ws \<union> set rs))" using D by (simp add: clear_def)
  have alp: "aligned ?p" using W by (simp add: ws_disjoint_def)
  have apart: "slots w \<inter> slots v = {}" if "w \<in> insert ?p (set ws \<union> set rs)" "v \<in> insert ?p (set ws \<union> set rs)" "w \<noteq> v" for w v
    using slots_disjoint[OF W that] .
  have "slots w \<inter> slots ?p = {}" if "w \<in> set ws" for w using apart that p(1) by blast
  moreover have "bytes_at f 4 \<inter> slots ?p = {}" "bytes_at b 4 \<inter> slots ?p = {}" using clear_slots[OF D, of ?p] by auto
  ultimately have q1: "wait_queue ?s1 f b ws"
    using q same_outside_wait_queue[OF same_outside_parked] by auto
  have D1: "clear (bytes_at f 4 \<union> bytes_at b 4) (insert ?p (set ws))" using clear_sub[OF D] by blast
  note q2 = wait_queue_join[OF q1 D1 al p(1)] 
  have o: "same_outside ?A s ?s2"
    by (rule same_outside_trans[OF same_outside_parked same_outside_join_queue]) auto
  have far: "slots r \<inter> ?A = {}" if "r \<in> set rs" for r
  proof -
    have "slots r \<inter> slots w = {}" if "w \<in> insert ?p (set ws)" for w using apart p \<open>r \<in> set rs\<close> that by blast
    then show ?thesis using clear_slots[OF D, of r] that by auto
  qed
  have rq2: "run_queue ?s2 rs" using rq same_outside_run_queue[OF o, of rs] far by simp
  obtain ret t where t: "run_next_on_queue ?s2 = Some (ret, t)" "next_runs ?s2 rs ret t" "mem t = mem ?s2" "self t = self ?s2"
    using dispatch_next_runs[OF rq2] sf by auto
  have "next_runs s rs ret t"
    using same_outside_WORKSPACE_GET[OF o far] by (intro next_runs_via[OF t(2)]) auto
  moreover have "wait_queue t f b (ws @ [?p])"
    using q2(1) parked_slots[OF alp] wait_queue_mem[OF t(3,4)] by simp
  moreover have "WORKSPACE_GET t ?p k = WORKSPACE_GET ?s1 ?p k" if "k < 7" for k
    using q2(2)[OF _ that] parked_slots[OF alp] t(3) by (simp add: WORKSPACE_GET_def get_word_def)
  ultimately show ?thesis using t o parked_slots[OF alp] by (auto simp: same_outside_def)
qed

lemma sem_words_eq: "wordptr_plus sem SEM_FPTR = sem" "wordptr_plus sem SEM_BPTR = wordptr_plus sem 1"
  by (simp_all add: wordptr_plus_def tvm_consts)

lemma next_word: "aligned sem \<Longrightarrow> aligned (wordptr_plus sem 1)" "sem \<noteq> wordptr_plus sem 1"
  by (simp_all add: align_simps wordptr_plus_def)

text \<open>
  C22: claiming a semaphore follows the abstract one: a free semaphore is taken and the process
  goes on; a held one gets the process as the last that waits and the next process runs.
\<close>

theorem sem_claim_refines:
  assumes "sem_is s sem v" "clear (sem_words sem) (insert (wptr s) (set (waiting_for v) \<union> set rs))"
    and "wptr s \<notin> set (waiting_for v)" "wptr s \<notin> set rs" "set (waiting_for v) \<inter> set rs = {}"
    and "run_queue s rs" "sflags s = 0"
  shows "\<exists>ret t. tvm_sem_claim sem s = Some (ret, t) \<and> sem_is t sem (claimed (wptr s) v) \<and>
     (if v = Free then ret = ECTX_CONTINUE \<and> wptr t = wptr s \<and> iptr t = iptr s \<and> run_queue t rs
      else next_runs s rs ret t \<and> WORKSPACE_GET t (wptr s) WS_IPTR = iptr s)"
proof (cases v)
  case Free
  let ?t = "put_word sem NOT_PROCESS_P s"
  have al: "aligned sem" "get_word s sem = NOT_PROCESS_P OR 1" using assms(1) Free by (auto simp: sem_is_def)
  then have c: "tvm_sem_claim sem s = Some (ECTX_CONTINUE, ?t)"
    by (simp add: tvm_sem_claim_def sem_words_eq Let_def UNDEFINE_STACK_RET_def)
  have "slots w \<inter> bytes_at sem 4 = {}" if "w \<in> set rs" for w
    using clear_slots[OF assms(2), of w] that by (auto simp: sem_words_def)
  then have "run_queue ?t rs" using same_outside_run_queue[OF same_outside_put_word, of rs] assms(6) by simp
  then show ?thesis using c Free al by (auto simp: sem_is_def wait_queue_def)
next
  case (Held ws)
  let ?f = sem and ?b = "wordptr_plus sem 1"
  let ?s2 = "join_queue ?f ?b ws (wptr s) (parked s NOT_PROCESS_P)"
  have al: "aligned sem" and q: "wait_queue s ?f ?b ws" and last: "ws \<noteq> [] \<Longrightarrow> WORKSPACE_GET s (last ws) WS_LINK = NOT_PROCESS_P"
    using assms(1) Held by (auto simp: sem_is_def)
  have W: "ws_disjoint (insert (wptr s) (set ws \<union> set rs))" using assms(2) Held by (simp add: clear_def)
  have f: "get_word s ?f = (if ws = [] then NOT_PROCESS_P else hd ws)" using q by (simp add: wait_queue_def)
  moreover have hd: "hd ws \<noteq> NOT_PROCESS_P \<and> hd ws \<noteq> 1" if "ws \<noteq> []"
    using q that hd_in_set[OF that] aligned_not_1 by (auto simp: wait_queue_def process_def)
  ultimately have nf: "get_word s sem \<noteq> NOT_PROCESS_P OR 1" by (cases "ws = []") (auto simp: not_process_or_1 tvm_consts)
  have sl: "slots (wptr s) \<inter> sem_words sem = {}" using clear_slots[OF assms(2), of "wptr s"] by simp
  have bp: "get_word (parked s NOT_PROCESS_P) ?b = get_word s ?b"
    using sl by (intro same_outside_get_word[OF same_outside_parked]) (auto simp: sem_words_def)
  have run: "tvm_sem_claim sem s = run_next_on_queue ?s2"
    using nf f hd q bp by (auto simp: tvm_sem_claim_def sem_words_eq Let_def join_queue_def parked_def wait_queue_def)
  obtain ret t where t: "run_next_on_queue ?s2 = Some (ret, t)" "next_runs s rs ret t" "wait_queue t ?f ?b (ws @ [wptr s])"
     "WORKSPACE_GET t (wptr s) WS_LINK = NOT_PROCESS_P" "WORKSPACE_GET t (wptr s) WS_IPTR = iptr s"
    using wait_and_dispatch[OF q _ al next_word(1)[OF al] next_word(2), of rs NOT_PROCESS_P] assms Held
    by (auto simp: sem_words_def)
  then show ?thesis using run Held al by (auto simp: sem_is_def)
qed

lemma wait_queue_tail:
  assumes q: "wait_queue s f b (w # ws)" and last: "WORKSPACE_GET s (last (w # ws)) WS_LINK = NOT_PROCESS_P"
    and D: "clear (bytes_at f 4 \<union> bytes_at b 4) (set (w # ws))" and al: "aligned f" "aligned b" "f \<noteq> b"
  shows "wait_queue (put_word f (WORKSPACE_GET s w WS_LINK) s) f b ws"
proof -
  let ?t = "put_word f (WORKSPACE_GET s w WS_LINK) s"
  have "slots v \<inter> bytes_at f 4 = {}" if "v \<in> set ws" for v using clear_slots[OF D, of v] that by auto
  then have g: "WORKSPACE_GET ?t v k = WORKSPACE_GET s v k" if "v \<in> set ws" "k < 7" for v k
    using that same_outside_WORKSPACE_GET[OF same_outside_put_word] by blast
  have "linked ?t WS_LINK ws = linked s WS_LINK ws" using g by (intro linked_cong) (auto dest: in_set_butlastD)
  then show ?thesis
    using q last al g by (cases ws) (auto simp: wait_queue_def get_put_word linked_tl)
qed

text \<open>
  C23: releasing a semaphore follows the abstract one: with no process waiting it becomes free,
  otherwise the one that waits longest gets it and goes to the back of the run queue; the
  releasing process goes on.
\<close>

theorem sem_release_refines:
  assumes "sem_is s sem v" "v \<noteq> Free" "clear (sem_words sem) (set (waiting_for v) \<union> set rs)"
    and "set (waiting_for v) \<inter> set rs = {}" "run_queue s rs"
  shows "\<exists>t. tvm_sem_release sem s = Some (ECTX_CONTINUE, t) \<and> sem_is t sem (released v) \<and>
     run_queue t (rs @ take 1 (waiting_for v)) \<and> wptr t = wptr s \<and> iptr t = iptr s"
proof -
  obtain ws where v: "v = Held ws" using assms(2) by (cases v) auto
  let ?f = sem and ?b = "wordptr_plus sem 1"
  have al: "aligned sem" and q: "wait_queue s ?f ?b ws" and last: "ws \<noteq> [] \<Longrightarrow> WORKSPACE_GET s (last ws) WS_LINK = NOT_PROCESS_P"
    using assms(1) v by (auto simp: sem_is_def)
  have W: "ws_disjoint (set ws \<union> set rs)" using assms(3) v by (simp add: clear_def)
  have far: "slots w \<inter> bytes_at sem 4 = {}" "slots w \<inter> bytes_at ?b 4 = {}" if "w \<in> set ws \<union> set rs" for w
    using clear_slots[OF assms(3), of w] that v by (auto simp: sem_words_def)
  show ?thesis
  proof (cases ws)
    case Nil
    let ?t = "put_word sem (NOT_PROCESS_P OR 1) s"
    have "tvm_sem_release sem s = Some (ECTX_CONTINUE, ?t)" using q Nil
      by (simp add: tvm_sem_release_def sem_words_eq wait_queue_def Let_def UNDEFINE_STACK_RET_def)
    moreover have "run_queue ?t rs" using same_outside_run_queue[OF same_outside_put_word, of rs] far assms(5) by simp
    ultimately show ?thesis using v Nil al by (auto simp: sem_is_def)
  next
    case (Cons w ws')
    let ?s1 = "put_word sem (WORKSPACE_GET s w WS_LINK) s"
    let ?t = "add_to_queue w ?s1"
    have w: "process w" "w \<notin> set rs" "w \<notin> set ws'" "WORKSPACE_GET s w WS_ECTX = self s" "get_word s sem = w"
      using q Cons assms(4) v by (auto simp: wait_queue_def)
    have ec: "WORKSPACE_GET ?s1 w WS_ECTX = self ?s1"
      using w(4) far[of w] Cons by (simp add: same_outside_WORKSPACE_GET[OF same_outside_put_word])
    have D: "clear (bytes_at sem 4 \<union> bytes_at ?b 4) (set (w # ws'))"
      using clear_sub[OF assms(3), of "bytes_at sem 4 \<union> bytes_at ?b 4" "set (w # ws')"] v Cons by (auto simp: sem_words_def)
    have q1: "wait_queue ?s1 ?f ?b ws'"
      using wait_queue_tail[OF _ _ D al next_word(1)[OF al] next_word(2)] q last Cons by simp
    have last1: "ws' \<noteq> [] \<Longrightarrow> WORKSPACE_GET ?s1 (last ws') WS_LINK = NOT_PROCESS_P"
      using last Cons far[of "last ws'"] last_in_set[of ws']
      by (simp add: same_outside_WORKSPACE_GET[OF same_outside_put_word])
    have r1: "run_queue ?s1 rs" using same_outside_run_queue[OF same_outside_put_word, of rs] far assms(5) by simp
    have io: "tvm_sem_release sem s = Some (ECTX_CONTINUE, ?t)"
      using w ec by (simp add: tvm_sem_release_def sem_words_eq Let_def ADD_TO_QUEUE_ECTX_def process_def)
    let ?A = "slots w \<union> (\<Union>r \<in> set rs. slots r)"
    note o = same_outside_add_to_queue[OF r1, of w]
    have "slots x \<inter> ?A = {}" if "x \<in> set ws'" for x
      using slots_disjoint[OF W, of x] that w(3) assms(4) Cons v by auto
    note keep = this
    have sw: "bytes_at sem 4 \<inter> ?A = {}" "bytes_at ?b 4 \<inter> ?A = {}" using far Cons by auto
    have "wait_queue ?t ?f ?b ws'"
      using q1 same_outside_wait_queue[OF o _ sw, of ws'] keep by simp
    moreover have "ws' \<noteq> [] \<Longrightarrow> WORKSPACE_GET ?t (last ws') WS_LINK = NOT_PROCESS_P"
      using last1 same_outside_WORKSPACE_GET[OF o keep, of "last ws'" WS_LINK] last_in_set[of ws'] by simp
    moreover have "run_queue ?t (rs @ [w])" using add_to_queue_run_queue[OF r1 w(1,2)] .
    ultimately show ?thesis using io v Cons al by (auto simp: sem_is_def)
  qed
qed

section \<open>Barriers\<close>

text \<open>
  The barrier has \<open>n\<close> processes enrolled, \<open>c\<close> of them have not arrived and the others, \<open>ws\<close>, wait
  in the order of their arrival.
\<close>

definition bar_words :: "WORDPTR \<Rightarrow> WORD set" where
  "bar_words bar = bytes_at bar 4 \<union> bytes_at (wordptr_plus bar 1) 4 \<union>
     (bytes_at (wordptr_plus bar 2) 4 \<union> bytes_at (wordptr_plus bar 3) 4)"

definition barrier_is :: "mach \<Rightarrow> WORDPTR \<Rightarrow> UWORD \<Rightarrow> UWORD \<Rightarrow> WORDPTR list \<Rightarrow> bool" where
  "barrier_is s bar n c ws \<longleftrightarrow>
     aligned bar \<and> get_word s bar = n \<and> get_word s (wordptr_plus bar 1) = c \<and> unat c + length ws = unat n \<and>
     wait_queue s (wordptr_plus bar 2) (wordptr_plus bar 3) ws \<and>
     (ws = [] \<longrightarrow> get_word s (wordptr_plus bar 3) = NOT_PROCESS_P)"

lemma bar_words_eq: "wordptr_plus bar BAR_ENROLLED = bar" "wordptr_plus bar BAR_COUNT = wordptr_plus bar 1"
  "wordptr_plus bar BAR_FPTR = wordptr_plus bar 2" "wordptr_plus bar BAR_BPTR = wordptr_plus bar 3"
  by (simp_all add: wordptr_plus_def tvm_consts)

lemma bar_words_distinct:
  "bar \<noteq> wordptr_plus bar 1" "bar \<noteq> wordptr_plus bar 2" "bar \<noteq> wordptr_plus bar 3"
  "wordptr_plus bar 1 \<noteq> wordptr_plus bar 2" "wordptr_plus bar 1 \<noteq> wordptr_plus bar 3"
  "wordptr_plus bar 2 \<noteq> wordptr_plus bar 3"
  by (simp_all add: wordptr_plus_def)

lemma bar_get_put:
  assumes "aligned bar" "j \<in> {0, 1, 2, 3}" "k \<in> {0, 1, 2, 3}"
  shows "get_word (put_word (wordptr_plus bar j) v s) (wordptr_plus bar k) =
    (if k = j then v else get_word s (wordptr_plus bar k))"
proof -
  have "wordptr_plus bar k = wordptr_plus bar j \<longleftrightarrow> k = j" using assms(2,3) by (auto simp: wordptr_plus_def)
  then show ?thesis using assms(1) by (simp add: get_put_word align_simps)
qed

lemma wordptr_plus_0: "wordptr_plus bar 0 = bar" by (simp add: wordptr_plus_def)

lemmas bar_get = bar_get_put bar_get_put[where k = 0, unfolded wordptr_plus_0] bar_get_put[where j = 0, unfolded wordptr_plus_0]

lemma same_outside_upd [simp]:
  "same_outside A s (t\<lparr>fptr := x\<rparr>) = same_outside A s t" "same_outside A s (t\<lparr>bptr := x\<rparr>) = same_outside A s t"
  by (simp_all add: same_outside_def)

lemma add_queue_to_queue_sel [simp]:
  "wptr (add_queue_to_queue f b s) = wptr s" "iptr (add_queue_to_queue f b s) = iptr s"
  "self (add_queue_to_queue f b s) = self s"
  by (simp_all add: add_queue_to_queue_def Let_def)

lemma same_outside_add_queue_to_queue:
  assumes "run_queue s rs" "b \<in> W" "set rs \<subseteq> W"
  shows "same_outside (\<Union>w \<in> W. slots w) s (add_queue_to_queue f b s)"
proof -
  have "slots (bptr s) \<subseteq> (\<Union>w \<in> W. slots w)" if "fptr s \<noteq> NOT_PROCESS_P"
    using run_queue_last_in[OF assms(1) that] assms(3) by blast
  then show ?thesis using assms(2)
    by (auto simp: add_queue_to_queue_def Let_def intro!: same_outside_writes)
qed

text \<open>Completion: everyone who waits is put on the run queue, and the round starts again.\<close>

lemma bar_complete_refines:
  assumes bar: "aligned bar" "get_word s bar = n" "wait_queue s (wordptr_plus bar 2) (wordptr_plus bar 3) ws"
    and D: "clear (bar_words bar) (set ws \<union> set rs)" and d: "set ws \<inter> set rs = {}" and rq: "run_queue s rs"
  shows "barrier_is (tvm_bar_complete bar s) bar n n [] \<and> run_queue (tvm_bar_complete bar s) (rs @ ws) \<and>
     wptr (tvm_bar_complete bar s) = wptr s \<and> iptr (tvm_bar_complete bar s) = iptr s"
proof -
  let ?s1 = "put_word (wordptr_plus bar 1) n s"
  let ?s2 = "put_word (wordptr_plus bar 2) NOT_PROCESS_P ?s1"
  let ?s3 = "put_word (wordptr_plus bar 3) NOT_PROCESS_P ?s2"
  let ?f = "get_word s (wordptr_plus bar 2)" and ?b = "get_word s (wordptr_plus bar 3)"
  have c: "tvm_bar_complete bar s = (if ?f \<noteq> NOT_PROCESS_P then add_queue_to_queue ?f ?b ?s3 else ?s3)"
    using bar by (simp add: tvm_bar_complete_def bar_words_eq Let_def)
  have o: "same_outside (bar_words bar) s ?s3"
    by (intro same_outside_writes same_outside_refl) (auto simp: bar_words_def)
  have far: "\<forall>x \<in> set ws \<union> set rs. slots x \<inter> bar_words bar = {}" using clear_slots[OF D] by blast
  have rq3: "run_queue ?s3 rs" using rq same_outside_run_queue[OF o, of rs] far by simp
  have vals: "get_word ?s3 bar = n" "get_word ?s3 (wordptr_plus bar 1) = n" "get_word ?s3 (wordptr_plus bar 2) = NOT_PROCESS_P"
     "get_word ?s3 (wordptr_plus bar 3) = NOT_PROCESS_P"
    using bar by (simp_all add: bar_get)
  show ?thesis
  proof (cases "ws = []")
    case True
    then have "tvm_bar_complete bar s = ?s3" using bar(3) c by (simp add: wait_queue_def)
    then show ?thesis using vals rq3 True bar(1) by (simp add: barrier_is_def wait_queue_def)
  next
    case False
    let ?t = "add_queue_to_queue (hd ws) (last ws) ?s3"
    have ws: "distinct ws" "\<forall>w \<in> set ws. process w" "linked s WS_LINK ws" "?f = hd ws" "?b = last ws"
      using bar(3) False by (auto simp: wait_queue_def)
    have "hd ws \<noteq> NOT_PROCESS_P" using ws(2) False hd_in_set[of ws] by (auto simp: process_def)
    then have ct: "tvm_bar_complete bar s = ?t" using c ws by simp
    have "linked ?s3 WS_LINK ws"
      using ws(3) same_outside_WORKSPACE_GET[OF o] far
      by (subst linked_cong[where t = s]) (auto dest: in_set_butlastD)
    then have rqt: "run_queue ?t (rs @ ws)"
      using add_queue_to_queue_run_queue[OF rq3 False ws(1,2)] d by (simp add: Int_commute)
    let ?A = "(\<Union>w \<in> set ws \<union> set rs. slots w)"
    have "same_outside ?A ?s3 ?t"
      using last_in_set[OF False] by (intro same_outside_add_queue_to_queue[OF rq3]) auto
    moreover have "bar_words bar \<inter> ?A = {}" using far by blast
    ultimately have keep: "get_word ?t w = get_word ?s3 w" if "bytes_at w 4 \<subseteq> bar_words bar" for w
      using same_outside_get_word[of ?A ?s3 ?t w] that by blast
    have "get_word ?t bar = n" "get_word ?t (wordptr_plus bar 1) = n"
      "get_word ?t (wordptr_plus bar 2) = NOT_PROCESS_P" "get_word ?t (wordptr_plus bar 3) = NOT_PROCESS_P"
      by (subst keep; use vals in \<open>auto simp: bar_words_def\<close>)+
    then have "barrier_is ?t bar n n []" using bar(1) by (simp add: barrier_is_def wait_queue_def)
    then show ?thesis using ct rqt by simp
  qed
qed

lemma bar_init_is: "aligned bar \<Longrightarrow> barrier_is (tvm_bar_init bar n s) bar n n []"
  by (simp add: barrier_is_def tvm_bar_init_def bar_words_eq Let_def bar_get wait_queue_def)

lemma wait_queue_put_word:
  assumes "wait_queue s f b ws" "clear D (set ws)" "bytes_at p 4 \<subseteq> D" "aligned p" "aligned f" "aligned b" "p \<noteq> f" "p \<noteq> b"
  shows "wait_queue (put_word p v s) f b ws"
proof (subst wait_queue_cong[of _ s])
  show "\<forall>w \<in> set ws. WORKSPACE_GET (put_word p v s) w WS_LINK = WORKSPACE_GET s w WS_LINK \<and>
      WORKSPACE_GET (put_word p v s) w WS_ECTX = WORKSPACE_GET s w WS_ECTX"
  proof
    fix w assume "w \<in> set ws"
    then have "slots w \<inter> bytes_at p 4 = {}" using clear_slots[OF assms(2)] assms(3) by blast
    then show "WORKSPACE_GET (put_word p v s) w WS_LINK = WORKSPACE_GET s w WS_LINK \<and>
        WORKSPACE_GET (put_word p v s) w WS_ECTX = WORKSPACE_GET s w WS_ECTX"
      by (simp add: same_outside_WORKSPACE_GET[OF same_outside_put_word])
  qed
qed (use assms in \<open>simp_all add: get_put_word\<close>)

text \<open>
  C24: a process that arrives at a barrier before others that are enrolled waits behind those that
  came first, and the next process runs; the last to arrive goes on, everyone who waits is put
  on the run queue in the order of arrival, and the barrier is ready for the next round. Those
  waiting and those to arrive always add up to those enrolled.
\<close>

theorem barrier_sync_refines:
  assumes "barrier_is s bar n c ws" "clear (bar_words bar) (insert (wptr s) (set ws \<union> set rs))"
    and "wptr s \<notin> set ws" "wptr s \<notin> set rs" "set ws \<inter> set rs = {}" "run_queue s rs" "sflags s = 0"
  shows "\<exists>ret t. tvm_bar_sync bar s = Some (ret, t) \<and>
     (if c > 1 then barrier_is t bar n (c - 1) (ws @ [wptr s]) \<and> next_runs s rs ret t \<and> WORKSPACE_GET t (wptr s) WS_IPTR = iptr s
      else barrier_is t bar n n [] \<and> run_queue t (rs @ ws) \<and> ret = ECTX_CONTINUE \<and> wptr t = wptr s \<and> iptr t = iptr s)"
proof -
  let ?f = "wordptr_plus bar 2" and ?b = "wordptr_plus bar 3"
  have bar: "aligned bar" "get_word s bar = n" "get_word s (wordptr_plus bar 1) = c" "unat c + length ws = unat n"
    "wait_queue s ?f ?b ws" "ws = [] \<Longrightarrow> get_word s ?b = NOT_PROCESS_P"
    using assms(1) by (auto simp: barrier_is_def)
  have D: "clear (bar_words bar) (set ws \<union> set rs)" by (rule clear_sub[OF assms(2)]) auto
  show ?thesis
  proof (cases "c > 1")
    case False
    then show ?thesis
      using bar_complete_refines[OF bar(1,2,5) D assms(5,6)] bar(3) by (simp add: tvm_bar_sync_def bar_words_eq Let_def)
  next
    case True
    let ?s1 = "put_word (wordptr_plus bar 1) (c - 1) s"
    let ?l = "get_word s ?b"
    let ?s2 = "join_queue ?f ?b ws (wptr s) (parked ?s1 ?l)"
    have al: "aligned ?f" "aligned ?b" "?f \<noteq> ?b" using bar(1) bar_words_distinct by (simp_all add: align_simps)
    have q1: "wait_queue ?s1 ?f ?b ws"
      by (rule wait_queue_put_word[OF bar(5) clear_sub[OF D subset_refl]])
        (use bar(1) al bar_words_distinct in \<open>auto simp: bar_words_def align_simps\<close>)
    have o1: "same_outside (bar_words bar) s ?s1"
      by (intro same_outside_writes same_outside_refl) (auto simp: bar_words_def)
    have far: "slots x \<inter> bar_words bar = {}" if "x \<in> insert (wptr s) (set ws \<union> set rs)" for x using clear_slots[OF assms(2) that] .
    have rq1: "run_queue ?s1 rs" using assms(6) same_outside_run_queue[OF o1, of rs] far by simp
    have last: "?l = NOT_PROCESS_P \<longleftrightarrow> ws = []" "ws \<noteq> [] \<Longrightarrow> ?l = last ws"
      using bar(5,6) last_in_set[of ws] by (cases "ws = []"; auto simp: wait_queue_def process_def)+
    have run: "tvm_bar_sync bar s = run_next_on_queue ?s2"
      using True bar(3) last by (auto simp: tvm_bar_sync_def bar_words_eq Let_def join_queue_def parked_def)
    have D1: "clear (bytes_at ?f 4 \<union> bytes_at ?b 4) (insert (wptr ?s1) (set ws \<union> set rs))"
      by (rule clear_sub[OF assms(2)]) (auto simp: bar_words_def)
    obtain ret t where t: "run_next_on_queue ?s2 = Some (ret, t)" "next_runs ?s1 rs ret t"
       "wait_queue t ?f ?b (ws @ [wptr s])" "WORKSPACE_GET t (wptr s) WS_IPTR = iptr s"
       "same_outside (bytes_at ?f 4 \<union> bytes_at ?b 4 \<union> (\<Union>w \<in> insert (wptr s) (set ws). slots w)) ?s1 t"
      using wait_and_dispatch[OF q1 D1 al, of ?l] assms(3-5,7) rq1 by auto
    have "next_runs s rs ret t"
      using same_outside_WORKSPACE_GET[OF o1 far] by (intro next_runs_via[OF t(2)]) auto
    moreover have "bytes_at w 4 \<inter> (bytes_at ?f 4 \<union> bytes_at ?b 4 \<union> (\<Union>w \<in> insert (wptr s) (set ws). slots w)) = {}"
      if w: "w = bar \<or> w = wordptr_plus bar 1" for w
    proof -
      have "aligned w" using w bar(1) by (auto simp: align_simps)
      moreover have "w \<noteq> ?f" "w \<noteq> ?b" using w by (auto simp: wordptr_plus_def)
      ultimately have "bytes_at w 4 \<inter> bytes_at ?f 4 = {}" "bytes_at w 4 \<inter> bytes_at ?b 4 = {}"
        using al by (simp_all add: words_apart)
      moreover have "bytes_at w 4 \<inter> slots x = {}" if "x \<in> insert (wptr s) (set ws)" for x
        using far[of x] that w by (auto simp: bar_words_def)
      ultimately show ?thesis by blast
    qed
    note keep = same_outside_get_word[OF t(5) this]
    have "get_word t bar = n" "get_word t (wordptr_plus bar 1) = c - 1"
      using bar by (simp_all add: keep bar_get)
    moreover have "unat (c - 1) + length (ws @ [wptr s]) = unat n"
    proof -
      have c1: "1 \<le> c" "1 < unat c" using True by (simp_all add: word_less_nat_alt word_le_nat_alt)
      then have "unat (c - 1) = unat c - 1" by (simp add: unat_sub)
      then show ?thesis using bar(4) c1(2) by simp
    qed
    ultimately have "barrier_is t bar n (c - 1) (ws @ [wptr s])" using bar(1) t(3) by (simp add: barrier_is_def)
    then show ?thesis using run t True \<open>next_runs s rs ret t\<close> by auto
  qed
qed

text \<open>
  C39: enrolling adds to both counts and is refused with the barrier error when the number of
  enrolled processes would overflow; resigning takes from both counts, is refused with the
  barrier error when there are fewer to arrive, and completes the round when no one is left to
  arrive.
\<close>

theorem barrier_enroll_resign_refine:
  assumes "barrier_is s bar n c ws" "clear (bar_words bar) (set ws \<union> set rs)" "set ws \<inter> set rs = {}" "run_queue s rs"
  shows "(if unat n + unat k \<ge> 2 ^ 32 then tvm_bar_enroll bar k s = Some (ECTX_ERROR, s\<lparr>eflags := eflags s OR EFLAG_BAR\<rparr>)
      else \<exists>t. tvm_bar_enroll bar k s = Some (ECTX_CONTINUE, t) \<and> barrier_is t bar (n + k) (c + k) ws \<and> run_queue t rs) \<and>
    (if k > c then tvm_bar_resign bar k s = Some (ECTX_ERROR, s\<lparr>eflags := eflags s OR EFLAG_BAR\<rparr>)
     else \<exists>t. tvm_bar_resign bar k s = Some (ECTX_CONTINUE, t) \<and>
       (if k < c then barrier_is t bar (n - k) (c - k) ws \<and> run_queue t rs
        else barrier_is t bar (n - k) (n - k) [] \<and> run_queue t (rs @ ws)))"
proof
  let ?f = "wordptr_plus bar 2" and ?b = "wordptr_plus bar 3"
  have bar: "aligned bar" "get_word s bar = n" "get_word s (wordptr_plus bar 1) = c" "unat c + length ws = unat n"
    "wait_queue s ?f ?b ws" "ws = [] \<Longrightarrow> get_word s ?b = NOT_PROCESS_P"
    using assms(1) by (auto simp: barrier_is_def)
  have cn: "c \<le> n" using bar(4) by (simp add: word_le_nat_alt)
  have al: "aligned ?f" "aligned ?b" using bar(1) by (simp_all add: align_simps)
  have far: "\<forall>x \<in> set ws \<union> set rs. slots x \<inter> bar_words bar = {}" using clear_slots[OF assms(2)] by blast
  have set1: "wait_queue (put_word bar v s) ?f ?b ws" "run_queue (put_word bar v s) rs" for v
  proof -
    show "wait_queue (put_word bar v s) ?f ?b ws"
      by (rule wait_queue_put_word[OF bar(5) clear_sub[OF assms(2) subset_refl]])
        (use bar(1) al bar_words_distinct in \<open>auto simp: bar_words_def\<close>)
    have "same_outside (bar_words bar) s (put_word bar v s)"
      by (intro same_outside_writes same_outside_refl) (auto simp: bar_words_def)
    then show "run_queue (put_word bar v s) rs" using assms(4) same_outside_run_queue[of _ s _ rs] far by simp
  qed
  have set2: "barrier_is (put_word (wordptr_plus bar 1) c' (put_word bar n' s)) bar n' c' ws \<and>
      run_queue (put_word (wordptr_plus bar 1) c' (put_word bar n' s)) rs"
    if "unat c' + length ws = unat n'" for n' c'
  proof -
    let ?t = "put_word (wordptr_plus bar 1) c' (put_word bar n' s)"
    have "wait_queue ?t ?f ?b ws"
      by (rule wait_queue_put_word[OF set1(1) clear_sub[OF assms(2) subset_refl]])
        (use bar(1) al bar_words_distinct in \<open>auto simp: bar_words_def align_simps\<close>)
    moreover have "same_outside (bar_words bar) s ?t"
      by (intro same_outside_writes same_outside_refl) (auto simp: bar_words_def)
    then have "run_queue ?t rs" using assms(4) same_outside_run_queue[of _ s ?t rs] far by simp
    ultimately show ?thesis using that bar by (simp add: barrier_is_def bar_get)
  qed
  have ovf: "n + k < n \<longleftrightarrow> unat n + unat k \<ge> 2 ^ 32"
    using unat_bound[of n] unat_bound[of k] by (auto simp: word_less_nat_alt unat_word_ariths mod_if)
  show "if unat n + unat k \<ge> 2 ^ 32 then tvm_bar_enroll bar k s = Some (ECTX_ERROR, s\<lparr>eflags := eflags s OR EFLAG_BAR\<rparr>)
      else \<exists>t. tvm_bar_enroll bar k s = Some (ECTX_CONTINUE, t) \<and> barrier_is t bar (n + k) (c + k) ws \<and> run_queue t rs"
  proof (cases "unat n + unat k \<ge> 2 ^ 32")
    case True
    then show ?thesis using ovf bar by (simp add: tvm_bar_enroll_def bar_words_eq Let_def SET_ERROR_FLAG_IF_def set_error_flag_def ECTX_ERROR_def)
  next
    case False
    then have "unat (c + k) + length ws = unat (n + k)"
      using bar(4) by (simp add: unat_word_ariths)
    then show ?thesis using False ovf bar set2[of "c + k" "n + k"]
      by (simp add: tvm_bar_enroll_def bar_words_eq Let_def SET_ERROR_FLAG_IF_def)
  qed
  show "if k > c then tvm_bar_resign bar k s = Some (ECTX_ERROR, s\<lparr>eflags := eflags s OR EFLAG_BAR\<rparr>)
     else \<exists>t. tvm_bar_resign bar k s = Some (ECTX_CONTINUE, t) \<and>
       (if k < c then barrier_is t bar (n - k) (c - k) ws \<and> run_queue t rs
        else barrier_is t bar (n - k) (n - k) [] \<and> run_queue t (rs @ ws))"
  proof (cases "k > c")
    case True
    then show ?thesis using bar by (simp add: tvm_bar_resign_def bar_words_eq Let_def SET_ERROR_FLAG_IF_def set_error_flag_def ECTX_ERROR_def)
  next
    case False
    then have kc: "k \<le> c" "k \<le> n" using cn by auto
    then have "\<not> (k > n \<or> k > c)" by auto
    then have io: "tvm_bar_resign bar k s = Some (ECTX_CONTINUE,
        if c - k \<ge> 1 then put_word (wordptr_plus bar 1) (c - k) (put_word bar (n - k) s)
        else tvm_bar_complete bar (put_word bar (n - k) s))"
      using bar by (simp add: tvm_bar_resign_def bar_words_eq Let_def SET_ERROR_FLAG_IF_def)
    have one: "c - k \<ge> 1 \<longleftrightarrow> k < c"
      using kc by (auto simp: word_le_nat_alt word_less_nat_alt unat_sub)
    show ?thesis
    proof (cases "k < c")
      case True
      have "unat (c - k) + length ws = unat (n - k)" using kc bar(4) by (simp add: unat_sub word_le_nat_alt)
      then show ?thesis using io one True False set2[of "c - k" "n - k"] by simp
    next
      case False
      have "get_word (put_word bar (n - k) s) bar = n - k" by simp
      from bar_complete_refines[OF bar(1) this set1(1) assms(2,3) set1(2)]
      show ?thesis using io one False \<open>\<not> c < k\<close> by simp
    qed
  qed
qed

section \<open>Concrete instances\<close>

text \<open>The process 0x1000 runs and 0x2000 is ready; all other memory is zero.\<close>

definition two_ready :: mach where
  "two_ready = blank\<lparr>wptr := 0x1000, iptr := 0x8000, fptr := 0x2000, bptr := 0x2000\<rparr>"

lemma two_ready_sel [simp]:
  "wptr two_ready = 0x1000" "iptr two_ready = 0x8000" "sflags two_ready = 0" "self two_ready = 0"
  "eflags two_ready = 0" "get_word two_ready p = 0" "WORKSPACE_GET two_ready w k = 0"
  by (simp_all add: two_ready_def)

lemma two_ready_queue: "run_queue two_ready [0x2000]"
  by (simp add: run_queue_def two_ready_def process_def aligned_def tvm_consts)

lemma two_ready_clear:
  "clear (sem_words 0x100) {0x1000, 0x2000}" "clear (bar_words 0x100) {0x1000, 0x2000}"
  by (simp_all add: clear_def ws_disjoint_def slots_def bytes_at_4 aligned_def wordptr_minus_def wordptr_plus_def
      sem_words_def bar_words_def tvm_consts)

theorem sem_claim_refines_witness:
  "\<exists>t. tvm_sem_claim 0x100 two_ready = Some (ECTX_CONTINUE, t) \<and> sem_is t 0x100 (Held [0x1000]) \<and>
     wptr t = 0x2000 \<and> run_queue t []"
proof -
  have "sem_is two_ready 0x100 (Held [])" by (simp add: sem_is_def wait_queue_def aligned_def tvm_consts)
  then show ?thesis
    using sem_claim_refines[of two_ready "0x100" "Held []" "[0x2000]"] two_ready_queue two_ready_clear
    by (auto simp: next_runs_def)
qed

theorem sem_release_refines_witness:
  "\<exists>t. tvm_sem_release 0x100 (put_word 0x100 0x1000 (put_word 0x104 0x1000 (two_ready\<lparr>wptr := 0x3000\<rparr>))) = Some (ECTX_CONTINUE, t) \<and>
     sem_is t 0x100 (Held []) \<and> run_queue t [0x2000, 0x1000] \<and> wptr t = 0x3000"
proof -
  let ?s = "put_word 0x100 0x1000 (put_word 0x104 0x1000 (two_ready\<lparr>wptr := 0x3000\<rparr>))"
  have "sem_is ?s 0x100 (Held [0x1000])"
    by (simp add: sem_is_def wait_queue_def process_def concrete wordptr_plus_def)
  moreover have "run_queue ?s [0x2000]" using two_ready_queue by (simp add: run_queue_def two_ready_def)
  ultimately show ?thesis
    using sem_release_refines[of ?s "0x100" "Held [0x1000]" "[0x2000]"] two_ready_clear(1)
    by (auto simp: insert_commute)
qed

definition barrier_of_two :: mach where
  "barrier_of_two = put_word 0x104 2 (put_word 0x100 2 two_ready)"

lemma barrier_of_two: "barrier_is barrier_of_two 0x100 2 2 []" "run_queue barrier_of_two [0x2000]"
  using two_ready_queue
  by (simp_all add: barrier_of_two_def barrier_is_def wait_queue_def concrete wordptr_plus_def run_queue_def two_ready_def)

theorem barrier_sync_refines_witness:
  "\<exists>t. tvm_bar_sync 0x100 barrier_of_two = Some (ECTX_CONTINUE, t) \<and> barrier_is t 0x100 2 1 [0x1000] \<and>
     wptr t = 0x2000 \<and> run_queue t []"
  using barrier_sync_refines[OF barrier_of_two(1), of "[0x2000]"] barrier_of_two(2) two_ready_clear(2)
  by (auto simp: next_runs_def barrier_of_two_def)

theorem barrier_enroll_resign_refine_witness:
  "(\<exists>t. tvm_bar_enroll 0x100 1 barrier_of_two = Some (ECTX_CONTINUE, t) \<and> barrier_is t 0x100 3 3 [] \<and> run_queue t [0x2000]) \<and>
   (\<exists>t. tvm_bar_resign 0x100 1 barrier_of_two = Some (ECTX_CONTINUE, t) \<and> barrier_is t 0x100 1 1 [] \<and> run_queue t [0x2000])"
  using barrier_enroll_resign_refine[OF barrier_of_two(1), of "[0x2000]" 1] barrier_of_two(2)
    clear_sub[OF two_ready_clear(2) subset_refl, of "{0x2000}"]
  by simp

end
