(* ===== verification/TVM_Rendezvous.thy ===== *)
theory TVM_Rendezvous
  imports TVM_Frame TVM_Channel
begin

text \<open>
  Correctness of channel communication: the handlers that move data share the contract
  \<open>data_movement\<close>, under which the second process to come completes the communication and
  resumes the first; the first waits in the channel. Partners that are ALTing are woken, and
  a channel whose other end has gone never blocks.
\<close>

section \<open>The contract of the data handlers\<close>

text \<open>
  A handler of type \<open>CHAN_IO_OK\<close> moves data between the current process and the one that waits:
  it only writes memory (\<open>eff\<close> is the memory it leaves), and only at the addresses \<open>dest\<close>.
\<close>

locale data_movement =
  fixes data :: CHAN_IO_OK
    and dest :: "BYTEPTR \<Rightarrow> WORD \<Rightarrow> WORDPTR \<Rightarrow> mach \<Rightarrow> WORD set"
    and eff :: "BYTEPTR \<Rightarrow> WORD \<Rightarrow> WORDPTR \<Rightarrow> mach \<Rightarrow> memory"
  assumes moves: "data ptr len other s = Some (ECTX_CONTINUE, s\<lparr>mem := eff ptr len other s\<rparr>)"
    and frame: "a \<notin> dest ptr len other s \<Longrightarrow> eff ptr len other s a = mem s a"

text \<open>
  The workspaces \<open>W\<close>, the channel word and the region \<open>D\<close> do not overlap.
\<close>

definition apart :: "WORDPTR \<Rightarrow> WORDPTR set \<Rightarrow> WORD set \<Rightarrow> bool" where
  "apart ch W D \<longleftrightarrow> ws_disjoint W \<and> aligned ch \<and> bytes_at ch 4 \<inter> (\<Union>w \<in> W. slots w) = {} \<and>
     bytes_at ch 4 \<inter> D = {} \<and> D \<inter> (\<Union>w \<in> W. slots w) = {}"

lemma aligned_channel_value:
  "aligned p \<Longrightarrow> p AND 2 = 0" "aligned p \<Longrightarrow> p AND 1 = 0" "aligned p \<Longrightarrow> p AND NOT 1 = p"
proof -
  assume "aligned p"
  note b = aligned_bits[OF this]
  have "p AND push_bit 1 1 = 0"
  proof (rule bit_word_eqI)
    fix n
    show "bit (p AND push_bit 1 1) n \<longleftrightarrow> bit (0 :: WORD) n"
      using b by (cases "n = 1") (simp_all only: bit_and_iff bit_push_bit_iff bit_1_word bit_0_eq, auto)
  qed
  then show "p AND 2 = 0" by (simp add: push_bit_eq_mult)
next
  assume "aligned p"
  note b = aligned_bits[OF this]
  show "p AND 1 = 0"
  proof (rule bit_word_eqI)
    fix n
    show "bit (p AND 1) n \<longleftrightarrow> bit (0 :: WORD) n"
      using b by (cases "n = 0") (simp_all only: bit_and_iff bit_1_word bit_0_eq, auto)
  qed
next
  assume "aligned p"
  note b = aligned_bits[OF this]
  show "p AND NOT 1 = p"
    using b by (intro bit_word_eqI) (auto simp: bit_and_iff bit_not_iff bit_1_word, metis gr0I)
qed

text \<open>The current process is put back on the run queue and the partner is resumed.\<close>

lemma deschedule_and_resume:
  assumes W: "ws_disjoint (insert p (insert q (set rs)))" and d: "p \<noteq> q" "p \<notin> set rs" "q \<notin> set rs"
    and rq: "run_queue s rs" and q: "wptr s = q" and ec: "WORKSPACE_GET s p WS_ECTX = self s"
  shows "\<exists>t. LOAD_PROCESS_RET p (DESCHEDULE_CURRENT s) = Some (ECTX_CONTINUE, t) \<and> wptr t = p \<and>
     iptr t = WORKSPACE_GET s p WS_IPTR \<and> run_queue t (rs @ [q]) \<and> WORKSPACE_GET t q WS_IPTR = iptr s \<and>
     same_outside (slots q \<union> (\<Union>r \<in> set rs. slots r)) s t \<and> self t = self s"
proof -
  let ?W = "insert p (insert q (set rs))" and ?A = "slots q \<union> (\<Union>r \<in> set rs. slots r)"
  let ?s1 = "WORKSPACE_SET q WS_IPTR (iptr s) s"
  let ?s2 = "add_to_queue q ?s1"
  have pq: "process q" "aligned q" using W by (auto simp: process_def ws_disjoint_def)
  have r1: "run_queue ?s1 rs"
    using rq d W by (subst run_queue_cong[of _ s]) (auto simp: WS_get_set[OF W])
  have r2: "run_queue ?s2 (rs @ [q])" using r1 pq d by (intro add_to_queue_run_queue)
  have o1: "same_outside ?A s ?s1" by (rule same_outside_mono[OF same_outside_WORKSPACE_SET]) auto
  have o2: "same_outside ?A s ?s2"
    by (rule same_outside_trans[OF o1 same_outside_add_to_queue[OF r1]]) auto
  have "slots p \<inter> slots r = {}" if "r \<in> insert q (set rs)" for r
    using slots_disjoint[OF W] d that by blast
  then have "slots p \<inter> ?A = {}" by auto
  then have gp: "WORKSPACE_GET ?s2 p k = WORKSPACE_GET s p k" if "k < 7" for k
    using same_outside_WORKSPACE_GET[OF o2] that by blast
  have "bptr ?s1 \<noteq> q" if "fptr s \<noteq> NOT_PROCESS_P"
    using run_queue_last_in[OF rq that] d by auto
  then have gq: "WORKSPACE_GET ?s2 q WS_IPTR = iptr s"
    using W pq run_queue_last_in[OF rq] by (auto simp: add_to_queue_def Let_def WS_get_set[OF W])
  have "DESCHEDULE_CURRENT s = ?s2\<lparr>wptr := NOT_PROCESS_P\<rparr>" using q
    by (simp add: DESCHEDULE_CURRENT_def ADD_TO_QUEUE_IPTR_def)
  then have "LOAD_PROCESS_RET p (DESCHEDULE_CURRENT s) =
      Some (ECTX_CONTINUE, ?s2\<lparr>wptr := p, iptr := WORKSPACE_GET s p WS_IPTR\<rparr>)"
    using gp[of WS_ECTX] gp[of WS_IPTR] ec by (simp add: LOAD_PROCESS_RET_def Let_def)
  moreover have "run_queue (?s2\<lparr>wptr := p, iptr := WORKSPACE_GET s p WS_IPTR\<rparr>) (rs @ [q])"
    using r2 by (subst run_queue_cong[of _ ?s2]) auto
  ultimately show ?thesis using gq o2 by (auto simp: same_outside_def)
qed


context data_movement
begin

lemma completes:
  assumes ch: "get_word s ch = p" and ec: "WORKSPACE_GET s p WS_ECTX = self s" and q: "wptr s = q"
    and rq: "run_queue s rs" and d: "p \<noteq> q" "p \<notin> set rs" "q \<notin> set rs"
    and ap: "apart ch (insert p (insert q (set rs))) (dest ptr len p (put_word ch NOT_PROCESS_P s))"
  shows "\<exists>t. chan_std_io e ch ptr len data dc ext s = Some (ECTX_CONTINUE, t) \<and> wptr t = p \<and>
     iptr t = WORKSPACE_GET s p WS_IPTR \<and> get_word t ch = NOT_PROCESS_P \<and> run_queue t (rs @ [q]) \<and>
     WORKSPACE_GET t q WS_IPTR = iptr s \<and>
     (\<forall>a. a \<notin> slots q \<union> (\<Union>r \<in> set rs. slots r) \<longrightarrow> mem t a = eff ptr len p (put_word ch NOT_PROCESS_P s) a)"
proof -
  let ?W = "insert p (insert q (set rs))" and ?s0 = "put_word ch NOT_PROCESS_P s"
  let ?D = "dest ptr len p ?s0"
  let ?s1 = "?s0\<lparr>mem := eff ptr len p ?s0\<rparr>"
  have W: "ws_disjoint ?W" and al: "aligned ch" "aligned p" "p \<noteq> NOT_PROCESS_P"
    using ap by (auto simp: apart_def ws_disjoint_def)
  have o1: "same_outside (bytes_at ch 4 \<union> ?D) s ?s1"
    by (rule same_outside_trans[OF same_outside_put_word, of ?D]) (auto simp: same_outside_def frame)
  have out: "slots w \<inter> (bytes_at ch 4 \<union> ?D) = {}" if "w \<in> ?W" for w using ap that by (auto simp: apart_def)
  have rq1: "run_queue ?s1 rs" using rq same_outside_run_queue[OF o1, of rs] out by simp
  have ec1: "WORKSPACE_GET ?s1 p WS_ECTX = self ?s1" "WORKSPACE_GET ?s1 p WS_IPTR = WORKSPACE_GET s p WS_IPTR"
    using ec same_outside_WORKSPACE_GET[OF o1 out] by simp_all
  have ch1: "get_word ?s1 ch = NOT_PROCESS_P"
    using ap by (subst same_outside_get_word[of ?D ?s0]) (auto simp: same_outside_def frame apart_def)
  have io: "chan_std_io e ch ptr len data dc ext s = LOAD_PROCESS_RET p (DESCHEDULE_CURRENT ?s1)"
    using ch al aligned_channel_value[OF al(2)] moves
    by (simp add: chan_std_io_def chan_io_def Let_def ECTX_CONTINUE_def)
  obtain t where t: "LOAD_PROCESS_RET p (DESCHEDULE_CURRENT ?s1) = Some (ECTX_CONTINUE, t)" "wptr t = p"
     "iptr t = WORKSPACE_GET ?s1 p WS_IPTR" "run_queue t (rs @ [q])" "WORKSPACE_GET t q WS_IPTR = iptr ?s1"
     "same_outside (slots q \<union> (\<Union>r \<in> set rs. slots r)) ?s1 t"
    using deschedule_and_resume[OF W d rq1 _ ec1(1)] q by auto
  have "get_word t ch = NOT_PROCESS_P"
    using same_outside_get_word[OF t(6), of ch] ch1 ap by (auto simp: apart_def)
  then show ?thesis using io t ec1(2) by (auto simp: same_outside_def)
qed

end

lemma memcpy_moves: "memcpy d src n s = s\<lparr>mem := mem (memcpy d src n s)\<rparr>"
  by (simp add: memcpy_def)

interpretation io_in: data_movement channel_input
  "\<lambda>ptr len other s. bytes_at ptr (unat len)"
  "\<lambda>ptr len other s. mem (memcpy ptr (WORKSPACE_GET s other WS_POINTER) len s)"
  using same_outside_memcpy by unfold_locales (auto simp: channel_input_def Let_def memcpy_def same_outside_def)

interpretation io_out: data_movement channel_output
  "\<lambda>ptr len other s. bytes_at (WORKSPACE_GET s other WS_POINTER) (unat (- len))"
  "\<lambda>ptr len other s. mem (memcpy (WORKSPACE_GET s other WS_POINTER) ptr (- len) s)"
  using same_outside_memcpy by unfold_locales (auto simp: channel_output_def Let_def memcpy_def same_outside_def)

lemma swap_data_word_outside:
  "a \<notin> bytes_at p 4 \<union> bytes_at q 4 \<Longrightarrow> swap_data_word p q m a = m a"
  by (simp add: swap_data_word_def Let_def write_word_def bytes_at_4)

interpretation io_swap: data_movement channel_swap
  "\<lambda>ptr len other s. bytes_at (WORKSPACE_GET s other WS_POINTER) 4 \<union> bytes_at ptr 4"
  "\<lambda>ptr len other s. swap_data_word (WORKSPACE_GET s other WS_POINTER) ptr (mem s)"
  by unfold_locales (auto simp: channel_swap_def Let_def swap_data_word_outside)

section \<open>Waiting in a channel\<close>

lemma blocks:
  assumes ch: "get_word s ch = NOT_PROCESS_P" and p: "wptr s = p"
    and rq: "run_queue s (q # rs)" and d: "p \<notin> set (q # rs)" and sf: "sflags s = 0"
    and ap: "apart ch (insert p (set (q # rs))) D"
  shows "\<exists>t. chan_std_io e ch ptr len data dc ext s = Some (ECTX_CONTINUE, t) \<and> wptr t = q \<and>
     iptr t = WORKSPACE_GET s q WS_IPTR \<and> run_queue t rs \<and> get_word t ch = p \<and>
     WORKSPACE_GET t p WS_POINTER = ptr \<and> WORKSPACE_GET t p WS_PENDING = len \<and>
     WORKSPACE_GET t p WS_ECTX = self s \<and> WORKSPACE_GET t p WS_IPTR = iptr s \<and> self t = self s \<and>
     sflags t = 0 \<and> same_outside (slots p \<union> bytes_at ch 4) s t"
proof -
  let ?W = "insert p (set (q # rs))"
  let ?s1 = "WORKSPACE_SET p WS_POINTER ptr s"
  let ?s2 = "WORKSPACE_SET p WS_ECTX (self s) ?s1"
  let ?s3 = "WORKSPACE_SET p WS_PENDING len ?s2"
  let ?s4 = "WORKSPACE_SET p WS_IPTR (iptr s) ?s3"
  let ?s5 = "put_word ch p ?s4"
  have W: "ws_disjoint ?W" and al: "aligned ch" using ap by (auto simp: apart_def)
  have o5: "same_outside (slots p \<union> bytes_at ch 4) s ?s5"
    by (intro same_outside_writes same_outside_refl) (auto simp: tvm_consts)
  have out: "slots x \<inter> (slots p \<union> bytes_at ch 4) = {}" if "x \<in> set (q # rs)" for x
    using slots_disjoint[OF W, of x p] ap that d by (auto simp: apart_def)
  have rq5: "run_queue ?s5 (q # rs)"
    using rq same_outside_run_queue[OF o5, of "q # rs"] out by auto
  have slots4: "WORKSPACE_GET ?s4 p WS_POINTER = ptr" "WORKSPACE_GET ?s4 p WS_PENDING = len"
     "WORKSPACE_GET ?s4 p WS_ECTX = self s" "WORKSPACE_GET ?s4 p WS_IPTR = iptr s"
    using W by (simp_all add: WS_get_set[OF W] tvm_consts)
  have chp: "slots p \<inter> bytes_at ch 4 = {}" using ap by (auto simp: apart_def)
  have keep: "WORKSPACE_GET ?s5 p k = WORKSPACE_GET ?s4 p k" if "k < 7" for k
    by (rule same_outside_WORKSPACE_GET[OF same_outside_put_word chp that])
  have io: "chan_std_io e ch ptr len data dc ext s = dispatch_front ?s5"
    using ch p sf by (simp add: chan_std_io_def chan_io_def Let_def tvm_consts chan_block_def run_next_on_queue_def)
  obtain t where t: "dispatch_front ?s5 = Some (ECTX_CONTINUE, t)" "run_queue t rs" "wptr t = q"
     "iptr t = WORKSPACE_GET ?s5 q WS_IPTR" "mem t = mem ?s5" "sflags t = sflags ?s5" "self t = self ?s5"
    using dispatch_front_run_queue[OF rq5] by (auto simp: dispatch_front_def Let_def split: if_splits)
  have same: "get_word t x = get_word ?s5 x" "WORKSPACE_GET t w k = WORKSPACE_GET ?s5 w k" for x w k
    using t(5) by (simp_all add: get_word_def WORKSPACE_GET_def)
  have "iptr t = WORKSPACE_GET s q WS_IPTR"
    using t(4) same_outside_WORKSPACE_GET[OF o5 out, of q WS_IPTR] by simp
  moreover have "same_outside (slots p \<union> bytes_at ch 4) s t" using o5 t(5) by (simp add: same_outside_def)
  ultimately show ?thesis
    using io t same slots4 keep sf by (simp add: tvm_consts)
qed

section \<open>The rendezvous\<close>

text \<open>
  Process \<open>p\<close> waits in the channel while another runs, before \<open>rs\<close> in the run queue; and \<open>p\<close>
  has been resumed with an idle channel, the other process now the last in the queue.
\<close>

definition partner_waits :: "mach \<Rightarrow> WORDPTR \<Rightarrow> WORDPTR \<Rightarrow> WORDPTR list \<Rightarrow> bool" where
  "partner_waits s ch p rs \<longleftrightarrow>
     get_word s ch = p \<and> WORKSPACE_GET s p WS_ECTX = self s \<and> run_queue s rs \<and> p \<noteq> wptr s \<and>
     p \<notin> set rs \<and> wptr s \<notin> set rs"

definition partner_resumed :: "mach \<Rightarrow> WORDPTR \<Rightarrow> WORDPTR \<Rightarrow> WORDPTR list \<Rightarrow> mach \<Rightarrow> bool" where
  "partner_resumed s ch p rs t \<longleftrightarrow>
     wptr t = p \<and> iptr t = WORKSPACE_GET s p WS_IPTR \<and> get_word t ch = NOT_PROCESS_P \<and>
     run_queue t (rs @ [wptr s]) \<and> WORKSPACE_GET t (wptr s) WS_IPTR = iptr s"

definition copied :: "mach \<Rightarrow> BYTEPTR \<Rightarrow> mach \<Rightarrow> BYTEPTR \<Rightarrow> nat \<Rightarrow> bool" where
  "copied s src t dst n \<longleftrightarrow> (\<forall>k < n. get_byte t (dst + of_nat k) = get_byte s (src + of_nat k))"

lemma memcpy_bytes:
  assumes "bytes_at src (unat n) \<inter> bytes_at dst (unat n) = {}"
  shows "copied s src (memcpy dst src n s) dst (unat n)"
proof -
  have "dst + of_nat i \<noteq> src + of_nat j" if "i < j" "j < unat n" for i j
  proof -
    have "dst + of_nat i \<in> bytes_at dst (unat n)" "src + of_nat j \<in> bytes_at src (unat n)"
      using that by (auto simp: bytes_at_def)
    then show ?thesis using assms by auto
  qed
  then show ?thesis
    using unat_bound[of n]
    by (auto simp: copied_def memcpy_def memcpy_is_byte_copy get_byte_def read_byte_def intro!: copy_bytes_inside)
qed

lemma copied_via:
  assumes "copied s0 src t0 dst n" "same_outside A s s0" "same_outside B t0 t"
    and "bytes_at src n \<inter> A = {}" "bytes_at dst n \<inter> B = {}"
  shows "copied s src t dst n"
proof -
  have "mem t (dst + of_nat k) = mem s (src + of_nat k)" if "k < n" for k
  proof -
    have "src + of_nat k \<in> bytes_at src n" "dst + of_nat k \<in> bytes_at dst n" using that by (auto simp: bytes_at_def)
    then have "mem t (dst + of_nat k) = mem t0 (dst + of_nat k)" "mem s0 (src + of_nat k) = mem s (src + of_nat k)"
      using assms(2-5) unfolding same_outside_def by blast+
    then show ?thesis using assms(1) that by (simp add: copied_def get_byte_def read_byte_def)
  qed
  then show ?thesis by (simp add: copied_def get_byte_def read_byte_def)
qed

lemma put_word_memory: "get_byte (s\<lparr>mem := m\<rparr>) a = m a" by (simp add: get_byte_def read_byte_def)

lemma copied_mem: "copied s src (u\<lparr>mem := mem t\<rparr>) dst n = copied s src t dst n"
  by (simp add: copied_def get_byte_def)

lemma completed_copy:
  assumes sep: "bytes_at src (unat n) \<inter> bytes_at dst (unat n) = {}" "bytes_at src (unat n) \<inter> bytes_at ch 4 = {}"
    and D: "bytes_at dst (unat n) \<inter> A = {}"
    and t: "\<forall>a. a \<notin> A \<longrightarrow> mem t a = mem (memcpy dst src n (put_word ch v s)) a"
  shows "copied s src t dst (unat n)"
  using copied_via[OF memcpy_bytes[OF sep(1), of "put_word ch v s"] same_outside_put_word _ sep(2) D] t
  by (auto simp: same_outside_def)

lemma out_completes:
  assumes "partner_waits s ch p rs"
    and "apart ch (insert p (insert (wptr s) (set rs))) (bytes_at (WORKSPACE_GET s p WS_POINTER) (unat n))"
    and "bytes_at src (unat n) \<inter> (bytes_at (WORKSPACE_GET s p WS_POINTER) (unat n) \<union> bytes_at ch 4) = {}"
  shows "\<exists>t. chan_out e n ch src s = Some (ECTX_CONTINUE, t) \<and> partner_resumed s ch p rs t \<and>
     copied s src t (WORKSPACE_GET s p WS_POINTER) (unat n)"
proof -
  let ?dst = "WORKSPACE_GET s p WS_POINTER" and ?s0 = "put_word ch NOT_PROCESS_P s"
  have dst: "WORKSPACE_GET ?s0 p WS_POINTER = ?dst"
    using assms(2) by (intro same_outside_WORKSPACE_GET[OF same_outside_put_word]) (auto simp: apart_def tvm_consts)
  obtain t where t: "chan_out e n ch src s = Some (ECTX_CONTINUE, t)" "partner_resumed s ch p rs t"
     "\<forall>a. a \<notin> slots (wptr s) \<union> (\<Union>r \<in> set rs. slots r) \<longrightarrow> mem t a = mem (memcpy ?dst src n ?s0) a"
    using io_out.completes[where s = s and ch = ch and p = p and q = "wptr s" and rs = rs and ptr = src and len = "- n" and e = e and dc = channel_dc_nop and ext = channel_ext_output] assms(1,2) dst
    by (auto simp: partner_waits_def partner_resumed_def chan_out_def)
  moreover have "copied s src t ?dst (unat n)"
    by (rule completed_copy[OF _ _ _ t(3)]) (use assms(2,3) in \<open>auto simp: apart_def\<close>)
  ultimately show ?thesis by blast
qed

lemma in_completes:
  assumes "partner_waits s ch p rs"
    and "apart ch (insert p (insert (wptr s) (set rs))) (bytes_at dst (unat n))"
    and "bytes_at (WORKSPACE_GET s p WS_POINTER) (unat n) \<inter> (bytes_at dst (unat n) \<union> bytes_at ch 4) = {}"
  shows "\<exists>t. chan_in e n ch dst s = Some (ECTX_CONTINUE, t) \<and> partner_resumed s ch p rs t \<and>
     copied s (WORKSPACE_GET s p WS_POINTER) t dst (unat n)"
proof -
  let ?src = "WORKSPACE_GET s p WS_POINTER" and ?s0 = "put_word ch NOT_PROCESS_P s"
  have src: "WORKSPACE_GET ?s0 p WS_POINTER = ?src"
    using assms(2) by (intro same_outside_WORKSPACE_GET[OF same_outside_put_word]) (auto simp: apart_def tvm_consts)
  obtain t where t: "chan_in e n ch dst s = Some (ECTX_CONTINUE, t)" "partner_resumed s ch p rs t"
     "\<forall>a. a \<notin> slots (wptr s) \<union> (\<Union>r \<in> set rs. slots r) \<longrightarrow> mem t a = mem (memcpy dst ?src n ?s0) a"
    using io_in.completes[where s = s and ch = ch and p = p and q = "wptr s" and rs = rs and ptr = dst and len = n and e = e and dc = channel_dc_input and ext = channel_ext_input] assms(1,2) src
    by (auto simp: partner_waits_def partner_resumed_def chan_in_def)
  moreover have "copied s ?src t dst (unat n)"
    by (rule completed_copy[OF _ _ _ t(3)]) (use assms(2,3) in \<open>auto simp: apart_def\<close>)
  ultimately show ?thesis by blast
qed

definition waits_with :: "mach \<Rightarrow> WORDPTR \<Rightarrow> WORDPTR \<Rightarrow> BYTEPTR \<Rightarrow> WORD \<Rightarrow> mach \<Rightarrow> bool" where
  "waits_with s ch p ptr len t \<longleftrightarrow>
     get_word t ch = p \<and> WORKSPACE_GET t p WS_POINTER = ptr \<and> WORKSPACE_GET t p WS_PENDING = len \<and>
     WORKSPACE_GET t p WS_ECTX = self s \<and> WORKSPACE_GET t p WS_IPTR = iptr s"

text \<open>
  The process that comes first to an idle channel waits in it, whatever the direction: the
  channel word is its workspace, the workspace keeps where its data is and how much (negative
  for output), and the next process runs.
\<close>

theorem first_comer_waits:
  assumes "get_word s ch = NOT_PROCESS_P" "run_queue s (q # rs)" "wptr s \<notin> set (q # rs)" "sflags s = 0"
    and "apart ch (insert (wptr s) (set (q # rs))) {}"
  shows "(\<exists>t. chan_in e n ch ptr s = Some (ECTX_CONTINUE, t) \<and> waits_with s ch (wptr s) ptr n t \<and>
      wptr t = q \<and> iptr t = WORKSPACE_GET s q WS_IPTR \<and> run_queue t rs) \<and>
    (\<exists>t. chan_out e n ch ptr s = Some (ECTX_CONTINUE, t) \<and> waits_with s ch (wptr s) ptr (- n) t \<and>
      wptr t = q \<and> iptr t = WORKSPACE_GET s q WS_IPTR \<and> run_queue t rs)"
  unfolding chan_in_def chan_out_def waits_with_def
  using blocks[OF assms(1) refl assms(2-5)] by blast

lemma rendezvous_second:
  assumes s: "get_word s ch = NOT_PROCESS_P" "wptr s = p" "run_queue s (q # rs)" "p \<notin> set (q # rs)" "sflags s = 0"
    and ap: "apart ch (insert p (set (q # rs))) (bytes_at dst m \<union> bytes_at src m)"
  shows "\<exists>t. chan_std_io e ch ptr len data dc ext s = Some (ECTX_CONTINUE, t) \<and> wptr t = q \<and>
     partner_waits t ch p rs \<and> WORKSPACE_GET t p WS_POINTER = ptr \<and> WORKSPACE_GET t p WS_IPTR = iptr s \<and>
     (bytes_at src m \<inter> bytes_at dst m = {} \<longrightarrow> (\<forall>u. copied t src u dst m \<longrightarrow> copied s src u dst m))"
proof -
  obtain t where t: "chan_std_io e ch ptr len data dc ext s = Some (ECTX_CONTINUE, t)" "wptr t = q" "run_queue t rs"
     "get_word t ch = p" "WORKSPACE_GET t p WS_POINTER = ptr" "WORKSPACE_GET t p WS_ECTX = self s"
     "WORKSPACE_GET t p WS_IPTR = iptr s" "self t = self s" "same_outside (slots p \<union> bytes_at ch 4) s t"
    using blocks[OF s ap] by blast
  have "q \<notin> set rs" "q \<noteq> p" using s by (auto simp: run_queue_def)
  then have "partner_waits t ch p rs" using t s by (auto simp: partner_waits_def)
  moreover have "copied s src u dst m" if "copied t src u dst m" for u
    by (rule copied_via[OF that t(9), of "{}"]) (use ap in \<open>auto simp: apart_def same_outside_def\<close>)
  ultimately show ?thesis using t by blast
qed

definition message_passed :: "mach \<Rightarrow> WORDPTR \<Rightarrow> BYTEPTR \<Rightarrow> BYTEPTR \<Rightarrow> nat \<Rightarrow> WORDPTR list \<Rightarrow> mach \<Rightarrow> bool" where
  "message_passed s ch src dst n rs u \<longleftrightarrow>
     copied s src u dst n \<and> get_word u ch = NOT_PROCESS_P \<and> wptr u = wptr s \<and> iptr u = iptr s \<and> run_queue u rs"

text \<open>
  C19: whichever of the two processes comes first, the message arrives: the second comer copies
  it, the channel is idle again, the first comer goes on after its instruction and the second
  comer is the last in the run queue.
\<close>

theorem rendezvous_either_order:
  assumes "get_word s ch = NOT_PROCESS_P" "run_queue s (q # rs)" "wptr s \<notin> set (q # rs)" "sflags s = 0"
    and ap: "apart ch (insert (wptr s) (set (q # rs))) (bytes_at dst (unat n) \<union> bytes_at src (unat n))"
    and sep: "bytes_at src (unat n) \<inter> bytes_at dst (unat n) = {}"
  shows "(\<exists>t u. chan_in e n ch dst s = Some (ECTX_CONTINUE, t) \<and> wptr t = q \<and>
      chan_out e n ch src t = Some (ECTX_CONTINUE, u) \<and> message_passed s ch src dst (unat n) (rs @ [q]) u) \<and>
    (\<exists>t u. chan_out e n ch src s = Some (ECTX_CONTINUE, t) \<and> wptr t = q \<and>
      chan_in e n ch dst t = Some (ECTX_CONTINUE, u) \<and> message_passed s ch src dst (unat n) (rs @ [q]) u)"
proof
  note second = rendezvous_second[OF assms(1) refl assms(2-4) ap]
  have regions: "apart ch (insert (wptr s) (insert q (set rs))) (bytes_at dst (unat n))"
    "bytes_at src (unat n) \<inter> (bytes_at dst (unat n) \<union> bytes_at ch 4) = {}"
    using ap sep by (auto simp: apart_def)
  obtain t where t: "chan_in e n ch dst s = Some (ECTX_CONTINUE, t)" "wptr t = q" "partner_waits t ch (wptr s) rs"
     "WORKSPACE_GET t (wptr s) WS_POINTER = dst" "WORKSPACE_GET t (wptr s) WS_IPTR = iptr s"
     "\<And>u. copied t src u dst (unat n) \<Longrightarrow> copied s src u dst (unat n)"
    unfolding chan_in_def using second[of e dst n channel_input channel_dc_input channel_ext_input] sep by blast
  then show "\<exists>t u. chan_in e n ch dst s = Some (ECTX_CONTINUE, t) \<and> wptr t = q \<and>
      chan_out e n ch src t = Some (ECTX_CONTINUE, u) \<and> message_passed s ch src dst (unat n) (rs @ [q]) u"
    using out_completes[OF t(3), of n src e] regions by (auto simp: message_passed_def partner_resumed_def)
  obtain t where t: "chan_out e n ch src s = Some (ECTX_CONTINUE, t)" "wptr t = q" "partner_waits t ch (wptr s) rs"
     "WORKSPACE_GET t (wptr s) WS_POINTER = src" "WORKSPACE_GET t (wptr s) WS_IPTR = iptr s"
     "\<And>u. copied t src u dst (unat n) \<Longrightarrow> copied s src u dst (unat n)"
    unfolding chan_out_def using second[of e src "- n" channel_output channel_dc_nop channel_ext_output] sep by blast
  then show "\<exists>t u. chan_out e n ch src s = Some (ECTX_CONTINUE, t) \<and> wptr t = q \<and>
      chan_in e n ch dst t = Some (ECTX_CONTINUE, u) \<and> message_passed s ch src dst (unat n) (rs @ [q]) u"
    using in_completes[OF t(3), of dst n e] regions by (auto simp: message_passed_def partner_resumed_def)
qed

text \<open>
  C20: the process that comes second finds the first in the channel, moves the data in its own
  direction between its buffer and that of the first, and hands over to it.
\<close>

theorem second_comer_completes:
  assumes "partner_waits s ch p rs" and "WORKSPACE_GET s p WS_POINTER = other"
    and "apart ch (insert p (insert (wptr s) (set rs))) (bytes_at other (unat n) \<union> bytes_at own (unat n))"
    and "bytes_at own (unat n) \<inter> bytes_at other (unat n) = {}"
  shows "(\<exists>t. chan_out e n ch own s = Some (ECTX_CONTINUE, t) \<and> partner_resumed s ch p rs t \<and>
      copied s own t other (unat n)) \<and>
    (\<exists>t. chan_in e n ch own s = Some (ECTX_CONTINUE, t) \<and> partner_resumed s ch p rs t \<and>
      copied s other t own (unat n))"
  using out_completes[OF assms(1), of n own e] in_completes[OF assms(1), of own n e] assms(2-4)
  by (auto simp: apart_def Int_Un_distrib2 Int_Un_distrib Int_commute)

section \<open>Partners that are ALTing or gone\<close>

lemma alting_channel_value:
  assumes "aligned p"
  shows "(p OR 1) AND 2 = 0" "(p OR 1) AND 1 \<noteq> 0" "(p OR 1) AND NOT 1 = p" "p OR 1 \<noteq> 0"
proof -
  have "(p OR 1) AND 2 = (p AND 2) OR (1 AND 2)" by (simp only: bit.conj_disj_distrib2)
  then show "(p OR 1) AND 2 = 0" using aligned_channel_value(1)[OF assms] by simp
  have one: "(p OR 1) AND 1 = (p AND 1) OR (1 AND 1)" by (simp only: bit.conj_disj_distrib2)
  then show low: "(p OR 1) AND 1 \<noteq> 0" using aligned_channel_value(2)[OF assms] by simp
  show "p OR 1 \<noteq> 0"
  proof
    assume "p OR 1 = 0"
    then have "(p OR 1) AND 1 = 0" by simp
    then show False using low by (rule notE[rotated])
  qed
  have "(p OR 1) AND NOT 1 = (p AND NOT 1) OR (1 AND NOT 1)" by (simp only: bit.conj_disj_distrib2)
  then show "(p OR 1) AND NOT 1 = p" using aligned_channel_value(3)[OF assms] by simp
qed

text \<open>The process that meets an ALTing one: where it is left, before the scheduler goes on.\<close>

lemma block_behind_alting:
  fixes ptr :: BYTEPTR and len :: WORD
  assumes W: "ws_disjoint (insert p (insert q (set rs)))" and d: "p \<noteq> q" "p \<notin> set rs" "q \<notin> set rs"
    and ap: "apart ch (insert p (insert q (set rs))) {}" and q: "wptr s = q" and rq: "run_queue s rs"
    and ec: "WORKSPACE_GET s p WS_ECTX = self s"
    and s': "s' = s \<or> s' = WORKSPACE_SET p WS_STATE DISABLING_P s"
  defines "t \<equiv> chan_block ch ptr len s'"
  shows "run_queue t rs" "get_word t ch = q" "WORKSPACE_GET t q WS_POINTER = ptr" "WORKSPACE_GET t q WS_PENDING = len"
    "WORKSPACE_GET t q WS_ECTX = self s" "WORKSPACE_GET t q WS_IPTR = iptr s"
    "k < 7 \<Longrightarrow> WORKSPACE_GET t p k = WORKSPACE_GET s' p k" "WORKSPACE_GET t p WS_ECTX = self t"
    "WORKSPACE_GET t p WS_IPTR = WORKSPACE_GET s p WS_IPTR" "self t = self s" "sflags t = sflags s"
    "\<forall>r \<in> set rs. WORKSPACE_GET t r WS_IPTR = WORKSPACE_GET s r WS_IPTR"
proof -
  let ?W = "insert p (insert q (set rs))"
  let ?s1 = "WORKSPACE_SET q WS_POINTER ptr s'"
  let ?s2 = "WORKSPACE_SET q WS_ECTX (self s') ?s1"
  let ?s3 = "WORKSPACE_SET q WS_PENDING len ?s2"
  let ?s4 = "WORKSPACE_SET q WS_IPTR (iptr s') ?s3"
  have q': "wptr s' = q" "self s' = self s" "iptr s' = iptr s" "sflags s' = sflags s" "fptr s' = fptr s" "bptr s' = bptr s"
    using s' q by auto
  have t: "t = put_word ch q ?s4" using q' by (simp add: t_def chan_block_def Let_def)
  have o4: "same_outside (slots q \<union> bytes_at ch 4) s' t"
    unfolding t by (intro same_outside_writes same_outside_refl) (auto simp: tvm_consts)
  have o: "same_outside (slots p \<union> slots q \<union> bytes_at ch 4) s t"
    using s' unfolding t by (auto intro!: same_outside_writes simp: tvm_consts)
  have far: "slots r \<inter> (slots p \<union> slots q \<union> bytes_at ch 4) = {}" if "r \<in> set rs" for r
  proof -
    have "slots r \<inter> slots p = {}" "slots r \<inter> slots q = {}" 
      using slots_disjoint[OF W, of r p] slots_disjoint[OF W, of r q] d that by auto
    then show ?thesis using ap that by (auto simp: apart_def)
  qed
  show "run_queue t rs" using same_outside_run_queue[OF o, of rs] far rq q' by (simp add: t)
  show "\<forall>r \<in> set rs. WORKSPACE_GET t r WS_IPTR = WORKSPACE_GET s r WS_IPTR"
    using same_outside_WORKSPACE_GET[OF o far] by simp
  show "get_word t ch = q" "self t = self s" "sflags t = sflags s" using q' by (simp_all add: t)
  have chq: "slots q \<inter> bytes_at ch 4 = {}" using ap by (auto simp: apart_def)
  have keep: "WORKSPACE_GET t q k = WORKSPACE_GET ?s4 q k" if "k < 7" for k
    unfolding t by (rule same_outside_WORKSPACE_GET[OF same_outside_put_word chq that])
  show "WORKSPACE_GET t q WS_POINTER = ptr" "WORKSPACE_GET t q WS_PENDING = len"
    "WORKSPACE_GET t q WS_ECTX = self s" "WORKSPACE_GET t q WS_IPTR = iptr s"
    using q' by (simp_all add: keep WS_get_set[OF W] tvm_consts)
  have "slots p \<inter> (slots q \<union> bytes_at ch 4) = {}"
    using slots_disjoint[OF W, of p q] ap d by (auto simp: apart_def)
  note p = same_outside_WORKSPACE_GET[OF o4 this]
  show "k < 7 \<Longrightarrow> WORKSPACE_GET t p k = WORKSPACE_GET s' p k" by (rule p)
  show "WORKSPACE_GET t p WS_ECTX = self t" "WORKSPACE_GET t p WS_IPTR = WORKSPACE_GET s p WS_IPTR"
    using p[of WS_ECTX] p[of WS_IPTR] s' ec q'
    by (auto simp: t WS_get_set[OF W] tvm_consts)
qed

text \<open>
  C21: output to (or input from) a process that is ALTing leaves the process waiting in the
  channel with its data in place and the ALT about to be disabled; an ALT that waits is resumed
  at once, one that is still being enabled or disabled is left to go on, and the next process
  runs.
\<close>

theorem alting_partner_is_woken:
  assumes "get_word s ch = p OR 1" "WORKSPACE_GET s p WS_ECTX = self s" "run_queue s rs" "sflags s = 0"
    and "wptr s = q" "p \<noteq> q" "p \<notin> set rs" "q \<notin> set rs" "apart ch (insert p (insert q (set rs))) {}"
    and "WORKSPACE_GET s p WS_STATE \<in> {ENABLING_P, WAITING_P, DISABLING_P}"
  shows "\<exists>ret t. chan_out e n ch ptr s = Some (ret, t) \<and> waits_with s ch q ptr (- n) t \<and>
     WORKSPACE_GET t p WS_STATE = DISABLING_P \<and>
     (if WORKSPACE_GET s p WS_STATE = WAITING_P
      then ret = ECTX_CONTINUE \<and> wptr t = p \<and> iptr t = WORKSPACE_GET s p WS_IPTR \<and> run_queue t rs
      else case rs of
             [] \<Rightarrow> ret \<in> {ECTX_EMPTY, ECTX_SLEEP} \<and> wptr t = NOT_PROCESS_P
           | r # rs' \<Rightarrow> ret = ECTX_CONTINUE \<and> wptr t = r \<and> iptr t = WORKSPACE_GET s r WS_IPTR \<and> run_queue t rs')"
proof -
  let ?W = "insert p (insert q (set rs))"
  have W: "ws_disjoint ?W" and p: "aligned p" using assms(9) by (auto simp: apart_def ws_disjoint_def)
  define s' where "s' = (if WORKSPACE_GET s p WS_STATE = DISABLING_P then s else WORKSPACE_SET p WS_STATE DISABLING_P s)"
  define b where "b = chan_block ch ptr (- n) s'"
  have s': "s' = s \<or> s' = WORKSPACE_SET p WS_STATE DISABLING_P s" by (simp add: s'_def)
  note b = block_behind_alting[OF W assms(6-9,5,3,2) s', where ptr = ptr and len = "- n", folded b_def]
  have st: "WORKSPACE_GET b p WS_STATE = DISABLING_P"
    using b(7)[where k = WS_STATE] by (simp add: s'_def WS_get_set[OF W])
  have w: "waits_with s ch q ptr (- n) b" using b by (simp add: waits_with_def)
  note io = chan_out_def chan_std_io_def chan_io_def Let_def alting_channel_value[OF p]
  show ?thesis
  proof (cases "WORKSPACE_GET s p WS_STATE = WAITING_P")
    case True
    then have s'W: "s' = WORKSPACE_SET p WS_STATE DISABLING_P s" by (simp add: s'_def tvm_consts)
    have "p \<noteq> NOT_PROCESS_P" using W by (simp add: ws_disjoint_def)
    then have "chan_out e n ch ptr s = LOAD_PROCESS_RET p b"
      using assms(1) True s'W alting_channel_value[OF p] by (simp add: io b_def tvm_consts)
    moreover have "LOAD_PROCESS_RET p b = Some (ECTX_CONTINUE, b\<lparr>wptr := p, iptr := WORKSPACE_GET b p WS_IPTR\<rparr>)"
      using b(8) by (simp add: LOAD_PROCESS_RET_def Let_def)
    moreover have "run_queue (b\<lparr>wptr := p, iptr := WORKSPACE_GET b p WS_IPTR\<rparr>) rs"
      using b(1) by (subst run_queue_cong[of _ b]) auto
    ultimately show ?thesis using True st w b(9) by (auto simp: waits_with_def)
  next
    case False
    have nz: "p \<noteq> NOT_PROCESS_P" using W by (simp add: ws_disjoint_def)
    have "chan_out e n ch ptr s = dispatch_front b"
      using assms(1,4,10) False alting_channel_value[OF p] nz b(11)
      by (auto simp: io b_def s'_def tvm_consts run_next_on_queue_def)
    moreover have "\<exists>ret t. dispatch_front b = Some (ret, t) \<and> mem t = mem b \<and> 
       (case rs of [] \<Rightarrow> ret \<in> {ECTX_EMPTY, ECTX_SLEEP} \<and> wptr t = NOT_PROCESS_P
         | r # rs' \<Rightarrow> ret = ECTX_CONTINUE \<and> wptr t = r \<and> iptr t = WORKSPACE_GET s r WS_IPTR \<and> run_queue t rs')"
    proof (cases rs)
      case Nil
      then show ?thesis using dispatch_front_empty[of b] b(1) by simp
    next
      case (Cons r rs')
      then show ?thesis using dispatch_front_run_queue[of b r rs'] b(1,12) by auto
    qed
    moreover have "waits_with s ch q ptr (- n) t \<and> WORKSPACE_GET t p WS_STATE = DISABLING_P" if "mem t = mem b" for t
      using w st that by (simp add: waits_with_def get_word_def WORKSPACE_GET_def)
    ultimately show ?thesis using False by auto
  qed
qed

lemma zero_bytes_effect:
  "zero_bytes n p s = s\<lparr>mem := \<lambda>a. if a \<in> bytes_at p n then 0 else mem s a\<rparr>"
proof (induction n arbitrary: p s)
  case (Suc n)
  have "bytes_at p (Suc n) = insert p (bytes_at (p + 1) n)"
    unfolding bytes_at_def lessThan_Suc_eq_insert_0 by (simp add: image_image add.assoc)
  then show ?case
    by (auto simp: Suc.IH byteptr_plus_def put_byte_def write_byte_def intro!: mach.equality)
qed (simp add: bytes_at_def)

lemma reschedule_last:
  assumes "run_queue s rs" "process q" "q \<notin> set rs" "wptr s = q" "sflags s = 0"
    and "ws_disjoint (insert q (set rs))"
  shows "\<exists>t. run_next_on_queue (DESCHEDULE_CURRENT s) = Some (ECTX_CONTINUE, t) \<and>
     wptr t = hd (rs @ [q]) \<and> run_queue t (tl (rs @ [q])) \<and>
     same_outside (slots q \<union> (\<Union>r \<in> set rs. slots r)) s t"
proof -
  let ?A = "slots q \<union> (\<Union>r \<in> set rs. slots r)"
  let ?s1 = "WORKSPACE_SET q WS_IPTR (iptr s) s"
  let ?s2 = "DESCHEDULE_CURRENT s"
  have s2: "?s2 = (add_to_queue q ?s1)\<lparr>wptr := NOT_PROCESS_P\<rparr>"
    using assms(4) by (simp add: DESCHEDULE_CURRENT_def ADD_TO_QUEUE_IPTR_def)
  have r1: "run_queue ?s1 rs"
    using assms(1,3) by (subst run_queue_cong[of _ s]) (auto simp: WS_get_set[OF assms(6)])
  then have "run_queue (add_to_queue q ?s1) (rs @ [q])" using assms(2,3) by (rule add_to_queue_run_queue)
  then have r2: "run_queue ?s2 (hd (rs @ [q]) # tl (rs @ [q]))"
    unfolding s2 by (subst run_queue_cong[of _ "add_to_queue q ?s1"]) auto
  have o: "same_outside ?A s ?s2"
  proof (rule same_outside_trans[OF _ _ subset_refl subset_refl])
    show "same_outside ?A s ?s1" by (auto intro: same_outside_writes)
    show "same_outside ?A ?s1 ?s2" using same_outside_add_to_queue[OF r1, of q] by (simp add: s2 same_outside_def)
  qed
  obtain t where "dispatch_front ?s2 = Some (ECTX_CONTINUE, t)" "run_queue t (tl (rs @ [q]))"
      "wptr t = hd (rs @ [q])" "mem t = mem ?s2"
    using dispatch_front_run_queue[OF r2] by blast
  then show ?thesis using o assms(5) by (auto simp: run_next_on_queue_def s2 same_outside_def)
qed


section \<open>Concrete instances\<close>

text \<open>A process at 0x1000 runs, one at 0x2000 is ready, a channel is at 0x100, data at 0x400 and 0x500.\<close>

definition meeting :: "WORD \<Rightarrow> mach" where
  "meeting v = put_word 0x100 v (blank\<lparr>wptr := 0x1000, iptr := 0x8000, fptr := 0x2000, bptr := 0x2000\<rparr>)"

lemma meeting_queue: "run_queue (meeting v) [0x2000]"
  by (simp add: run_queue_def meeting_def process_def aligned_def tvm_consts)

lemma meeting_apart: "apart 0x100 {0x1000, 0x2000} (bytes_at 0x400 4 \<union> bytes_at 0x500 4)"
  by (simp add: apart_def ws_disjoint_def slots_def bytes_at_4 aligned_def wordptr_minus_def tvm_consts)

lemma meeting_sel [simp]:
  "wptr (meeting v) = 0x1000" "sflags (meeting v) = 0" "self (meeting v) = 0" "iptr (meeting v) = 0x8000"
  "get_word (meeting v) 0x100 = v"
  by (simp_all add: meeting_def)

lemma meeting_apart_parts:
  "apart 0x100 {0x1000, 0x2000} {}" "apart 0x100 {0x1000, 0x2000} (bytes_at 0x400 4)"
  using meeting_apart by (auto simp: apart_def)

theorem first_comer_waits_witness:
  "\<forall>e. (\<exists>t. chan_in e 4 0x100 0x400 (meeting 0) = Some (ECTX_CONTINUE, t) \<and>
      waits_with (meeting 0) 0x100 0x1000 0x400 4 t \<and> wptr t = 0x2000 \<and> run_queue t []) \<and>
    (\<exists>t. chan_out e 4 0x100 0x400 (meeting 0) = Some (ECTX_CONTINUE, t) \<and>
      waits_with (meeting 0) 0x100 0x1000 0x400 (- 4) t \<and> wptr t = 0x2000 \<and> run_queue t [])"
  using first_comer_waits[of "meeting 0" "0x100" "0x2000" "[]" _ 4 "0x400"] meeting_queue[of 0] meeting_apart_parts
  by (auto simp: tvm_consts)

definition waiting_partner :: mach where
  "waiting_partner = WORKSPACE_SET 0x2000 WS_POINTER 0x500 ((meeting 0x2000)\<lparr>fptr := 0, bptr := 0\<rparr>)"

lemma waiting_partner_waits:
  "partner_waits waiting_partner 0x100 0x2000 []" "WORKSPACE_GET waiting_partner 0x2000 WS_POINTER = 0x500"
  by (simp_all add: partner_waits_def waiting_partner_def meeting_def concrete run_queue_def)

theorem second_comer_completes_witness:
  "\<forall>e. (\<exists>t. chan_out e 4 0x100 0x400 waiting_partner = Some (ECTX_CONTINUE, t) \<and>
      partner_resumed waiting_partner 0x100 0x2000 [] t \<and> copied waiting_partner 0x400 t 0x500 (unat (4 :: WORD))) \<and>
    (\<exists>t. chan_in e 4 0x100 0x400 waiting_partner = Some (ECTX_CONTINUE, t) \<and>
      partner_resumed waiting_partner 0x100 0x2000 [] t \<and> copied waiting_partner 0x500 t 0x400 (unat (4 :: WORD)))"
proof -
  have "apart 0x100 {0x2000, wptr waiting_partner} (bytes_at 0x500 4 \<union> bytes_at 0x400 4)"
    using meeting_apart by (simp add: waiting_partner_def insert_commute Un_commute)
  moreover have "bytes_at 0x400 4 \<inter> bytes_at (0x500 :: WORD) 4 = {}" by (simp add: bytes_at_4)
  ultimately show ?thesis
    using second_comer_completes[OF waiting_partner_waits, of 4 "0x400"] by simp
qed

theorem rendezvous_either_order_witness:
  "\<forall>e. (\<exists>t u. chan_in e 4 0x100 0x400 (meeting 0) = Some (ECTX_CONTINUE, t) \<and> wptr t = 0x2000 \<and>
      chan_out e 4 0x100 0x500 t = Some (ECTX_CONTINUE, u) \<and>
      message_passed (meeting 0) 0x100 0x500 0x400 (unat (4 :: WORD)) [0x2000] u) \<and>
    (\<exists>t u. chan_out e 4 0x100 0x500 (meeting 0) = Some (ECTX_CONTINUE, t) \<and> wptr t = 0x2000 \<and>
      chan_in e 4 0x100 0x400 t = Some (ECTX_CONTINUE, u) \<and>
      message_passed (meeting 0) 0x100 0x500 0x400 (unat (4 :: WORD)) [0x2000] u)"
proof -
  have "bytes_at 0x500 4 \<inter> bytes_at (0x400 :: WORD) 4 = {}" by (simp add: bytes_at_4)
  then show ?thesis
    using rendezvous_either_order[of "meeting 0" "0x100" "0x2000" "[]" "0x400" 4 "0x500"] meeting_queue[of 0] meeting_apart
    by (simp add: tvm_consts)
qed

definition alting_partner :: mach where
  "alting_partner = WORKSPACE_SET 0x2000 WS_STATE WAITING_P ((meeting 0x2001)\<lparr>fptr := 0, bptr := 0\<rparr>)"

theorem alting_partner_is_woken_witness:
  "\<forall>e. \<exists>t. chan_out e 4 0x100 0x400 alting_partner = Some (ECTX_CONTINUE, t) \<and>
     waits_with alting_partner 0x100 0x1000 0x400 (- 4) t \<and> WORKSPACE_GET t 0x2000 WS_STATE = DISABLING_P \<and>
     wptr t = 0x2000 \<and> run_queue t []"
proof -
  have s: "get_word alting_partner 0x100 = 0x2000 OR 1" "WORKSPACE_GET alting_partner 0x2000 WS_ECTX = self alting_partner"
    "run_queue alting_partner []" "sflags alting_partner = 0" "wptr alting_partner = 0x1000"
    "WORKSPACE_GET alting_partner 0x2000 WS_STATE = WAITING_P"
    by (simp_all add: alting_partner_def meeting_def concrete run_queue_def)
  show ?thesis
    using alting_partner_is_woken[OF s(1-5), of _ 4 "0x400"] s(6) meeting_apart_parts(1)
    by (simp add: insert_commute) blast
qed


end
