(* ===== verification/TVM_Alternation.thy ===== *)
theory TVM_Alternation
  imports TVM_Synchronise TVM_Rendezvous TVM_Alt
begin

text \<open>
  Correctness of alternation: the instruction sequence of an alternation over channel guards
  takes the first ready guard and leaves the channels as they were, or marks them and waits.
\<close>

section \<open>A priority alternation over channels\<close>

text \<open>
  A guard: its channel, its boolean guard and the offset of its branch. The compiled code loads
  these before each enable and disable instruction; \<open>alternation\<close> is the code of an alternation
  over channel guards, \<open>alt\<close>, the enables, \<open>altwt\<close>, and then the disables and \<open>altend\<close>.
\<close>

type_synonym guard = "WORDPTR \<times> WORD \<times> WORD"

fun in_order :: "(guard \<Rightarrow> instruction) \<Rightarrow> guard list \<Rightarrow> instruction" where
  "in_order f [] s = Some (ECTX_CONTINUE, s)"
| "in_order f (g # gs) s =
     (case f g s of
        None \<Rightarrow> None
      | Some (ret, t) \<Rightarrow> if ret = ECTX_CONTINUE then in_order f gs t else Some (ret, t))"

definition enable :: "guard \<Rightarrow> instruction" where
  "enable = (\<lambda>(ch, guard, off) s. ins_enbc (s\<lparr>areg := guard, breg := ch\<rparr>))"

definition disable :: "guard \<Rightarrow> instruction" where
  "disable = (\<lambda>(ch, guard, off) s. ins_disc (s\<lparr>areg := off, breg := guard, creg := ch\<rparr>))"

definition ready :: "mach \<Rightarrow> guard \<Rightarrow> bool" where
  "ready s = (\<lambda>(ch, guard, off). guard \<noteq> 0 \<and> get_word s ch \<noteq> NOT_PROCESS_P)"

text \<open>The channels are words apart from the workspace, and none is marked by this process yet.\<close>

definition alt_guards :: "mach \<Rightarrow> guard list \<Rightarrow> bool" where
  "alt_guards s gs \<longleftrightarrow> process (wptr s) \<and>
     (\<forall>(ch, guard, off) \<in> set gs. aligned ch \<and> bytes_at ch 4 \<inter> slots (wptr s) = {} \<and>
        get_word s ch \<noteq> wptr s OR 1 \<and> off \<noteq> NONE_SELECTED_O)"

text \<open>The channel words while the guards \<open>gs\<close> are enabled, seen from the state \<open>s\<close> before.\<close>

definition marked :: "mach \<Rightarrow> guard list \<Rightarrow> WORDPTR \<Rightarrow> WORD" where
  "marked s gs q =
     (if get_word s q = NOT_PROCESS_P \<and> (\<exists>guard off. (q, guard, off) \<in> set gs \<and> guard \<noteq> 0) then wptr s OR 1
      else get_word s q)"

definition channels :: "guard list \<Rightarrow> WORDPTR set" where
  "channels gs = fst ` set gs"

text \<open>What the enables and disables leave alone.\<close>

definition alt_frame :: "mach \<Rightarrow> mach \<Rightarrow> bool" where
  "alt_frame s t \<longleftrightarrow> wptr t = wptr s \<and> iptr t = iptr s \<and> self t = self s \<and> fptr t = fptr s \<and> bptr t = bptr s \<and>
     sflags t = sflags s \<and> tptr t = tptr s \<and> eflags t = eflags s"

lemma alt_guards_chan:
  "alt_guards s gs \<Longrightarrow> q \<in> channels gs \<Longrightarrow>
   aligned q \<and> bytes_at q 4 \<inter> slots (wptr s) = {} \<and> get_word s q \<noteq> wptr s OR 1"
  unfolding alt_guards_def channels_def by force

lemma alt_guards_off: "alt_guards s gs \<Longrightarrow> h \<in> set gs \<Longrightarrow> snd (snd h) \<noteq> NONE_SELECTED_O"
  unfolding alt_guards_def by force

lemma enabling:
  assumes "alt_guards s (hs @ gs)" "alt_frame s t"
    and "\<forall>q \<in> channels (hs @ gs). get_word t q = marked s hs q"
    and "WORKSPACE_GET t (wptr s) WS_STATE = (if \<exists>h \<in> set hs. ready s h then READY_P else ENABLING_P)"
  shows "\<exists>u. in_order enable gs t = Some (ECTX_CONTINUE, u) \<and> alt_frame s u \<and>
     (\<forall>q \<in> channels (hs @ gs). get_word u q = marked s (hs @ gs) q) \<and>
     WORKSPACE_GET u (wptr s) WS_STATE = (if \<exists>h \<in> set (hs @ gs). ready s h then READY_P else ENABLING_P)"
  using assms
proof (induction gs arbitrary: hs t)
  case (Cons g gs)
  obtain ch b off where g: "g = (ch, b, off)" by (cases g)
  let ?own = "wptr s OR 1"
  have gd: "aligned ch" "bytes_at ch 4 \<inter> slots (wptr s) = {}" "get_word s ch \<noteq> ?own" and pr: "process (wptr s)"
    using Cons.prems(1) by (auto simp: alt_guards_def g)
  have chs: "\<forall>q \<in> channels (hs @ g # gs). aligned q \<and> bytes_at q 4 \<inter> slots (wptr s) = {}"
    using alt_guards_chan[OF Cons.prems(1)] by blast
  have w: "wptr t = wptr s" using Cons.prems(2) by (simp add: alt_frame_def)
  have v: "get_word t ch = marked s hs ch" using Cons.prems(3) by (simp add: channels_def g)
  have own: "?own \<noteq> NOT_PROCESS_P" using alting_channel_value(4) pr by (simp add: process_def tvm_consts)
  define u where "u = snd (the (enable g t))"
  have u: "enable g t = Some (ECTX_CONTINUE, u)"
    by (simp add: u_def enable_def g ins_enbc_def Let_def STACK2_RET_def)
  have fr: "alt_frame s u"
    using Cons.prems(2) by (simp add: u_def enable_def g ins_enbc_def Let_def STACK2_RET_def STACK2_def alt_frame_def)
  have ue: "mem u = mem (if b \<noteq> 0
      then if get_word t ch = NOT_PROCESS_P then put_word ch ?own t
           else if get_word t ch \<noteq> ?own then WORKSPACE_SET (wptr s) WS_STATE READY_P t else t
      else t)"
    using w by (simp add: u_def enable_def g ins_enbc_def Let_def STACK2_RET_def STACK2_def put_word_def WORKSPACE_SET_def get_word_def)
  have gw: "get_word u q = (if b \<noteq> 0 \<and> q = ch \<and> get_word t ch = NOT_PROCESS_P then ?own else get_word t q)"
    if q: "q \<in> channels (hs @ g # gs)" for q
    using ue chs q gd(1) same_outside_get_word[OF same_outside_WORKSPACE_SET[of WS_STATE "wptr s" t READY_P], of q]
    by (auto simp: get_word_def put_word_def native.rd_wr)
  have marks: "\<forall>q \<in> channels ((hs @ [g]) @ gs). get_word u q = marked s (hs @ [g]) q"
    using gw Cons.prems(3) v by (auto simp: marked_def g)
  have rd: "ready s g \<longleftrightarrow> b \<noteq> 0 \<and> get_word t ch \<noteq> NOT_PROCESS_P \<and> get_word t ch \<noteq> ?own"
    using v own gd(3) by (auto simp: ready_def g marked_def)
  have st: "WORKSPACE_GET u (wptr s) WS_STATE = (if \<exists>h \<in> set (hs @ [g]). ready s h then READY_P else ENABLING_P)"
  proof -
    have "WORKSPACE_GET u (wptr s) WS_STATE = (if ready s g then READY_P else WORKSPACE_GET t (wptr s) WS_STATE)"
    proof (cases "ready s g")
      case True
      then have "mem u = mem (WORKSPACE_SET (wptr s) WS_STATE READY_P t)" using ue rd by simp
      then show ?thesis using True pr
        by (simp add: WORKSPACE_GET_def get_word_def)
          (metis WORKSPACE_GET_def WS_get_set_slot get_word_def process_def)
    next
      case False
      then have "mem u = mem t \<or> mem u = mem (put_word ch ?own t)" using ue rd by auto
      moreover have "slots (wptr s) \<inter> bytes_at ch 4 = {}" using gd(2) by blast
      note same_outside_WORKSPACE_GET[OF same_outside_put_word this, of WS_STATE ?own t]
      ultimately show ?thesis using False by (auto simp: WORKSPACE_GET_def get_word_def)
    qed
    then show ?thesis using Cons.prems(4) by auto
  qed
  have "alt_guards s ((hs @ [g]) @ gs)" using Cons.prems(1) by simp
  from Cons.IH[OF this fr marks st] show ?case using u by simp
qed (use assms in auto)


fun first_ready :: "mach \<Rightarrow> guard list \<Rightarrow> WORD" where
  "first_ready s [] = NONE_SELECTED_O"
| "first_ready s (g # gs) = (if ready s g then snd (snd g) else first_ready s gs)"

lemma first_ready_append: "first_ready s (gs @ hs) =
    (if \<exists>g \<in> set gs. ready s g then first_ready s gs else first_ready s hs)"
  by (induction gs) auto

lemma first_ready_selected:
  "\<forall>g \<in> set gs. snd (snd g) \<noteq> NONE_SELECTED_O \<Longrightarrow> first_ready s gs = NONE_SELECTED_O \<longleftrightarrow> (\<forall>g \<in> set gs. \<not> ready s g)"
  by (induction gs) auto

text \<open>The channel words while the guards \<open>all\<close> are enabled and \<open>hs\<close> of them disabled again.\<close>

definition unmarked :: "mach \<Rightarrow> guard list \<Rightarrow> guard list \<Rightarrow> WORDPTR \<Rightarrow> WORD" where
  "unmarked s all hs q =
     (if \<exists>guard off. (q, guard, off) \<in> set hs \<and> guard \<noteq> 0 then get_word s q else marked s all q)"

lemma disabling:
  assumes "alt_guards s (hs @ gs)" "alt_frame s t"
    and "\<forall>q \<in> channels (hs @ gs). get_word t q = unmarked s (hs @ gs) hs q"
    and "WORKSPACE_GET t (wptr s) WS_TEMP = first_ready s hs"
  shows "\<exists>u. in_order disable gs t = Some (ECTX_CONTINUE, u) \<and> alt_frame s u \<and>
     (\<forall>q \<in> channels (hs @ gs). get_word u q = unmarked s (hs @ gs) (hs @ gs) q) \<and>
     WORKSPACE_GET u (wptr s) WS_TEMP = first_ready s (hs @ gs)"
  using assms
proof (induction gs arbitrary: hs t)
  case (Cons g gs)
  obtain ch b off where g: "g = (ch, b, off)" by (cases g)
  let ?own = "wptr s OR 1" and ?all = "hs @ g # gs"
  let ?T = "WORKSPACE_GET t (wptr s) WS_TEMP"
  have pr: "process (wptr s)" and offs: "\<forall>h \<in> set ?all. snd (snd h) \<noteq> NONE_SELECTED_O"
    using Cons.prems(1) alt_guards_off[OF Cons.prems(1)] by (auto simp: alt_guards_def)
  have chs: "\<forall>q \<in> channels ?all. aligned q \<and> bytes_at q 4 \<inter> slots (wptr s) = {} \<and> get_word s q \<noteq> ?own"
    using alt_guards_chan[OF Cons.prems(1)] by blast
  have gc: "ch \<in> channels ?all" by (simp add: channels_def g)
  have gd: "aligned ch" "bytes_at ch 4 \<inter> slots (wptr s) = {}" "get_word s ch \<noteq> ?own" using chs gc by auto
  have w: "wptr t = wptr s" using Cons.prems(2) by (simp add: alt_frame_def)
  have v: "get_word t ch = unmarked s ?all hs ch" using Cons.prems(3) gc by simp
  have own: "?own \<noteq> NOT_PROCESS_P" using alting_channel_value(4) pr by (simp add: process_def tvm_consts)
  define u where "u = snd (the (disable g t))"
  have cont: "\<exists>x. disable g t = Some (ECTX_CONTINUE, x)"
    by (simp add: disable_def g ins_disc_def Let_def STACK1_RET_def)
  then have u: "disable g t = Some (ECTX_CONTINUE, u)" by (auto simp: u_def)
  have fr: "alt_frame s u"
    using Cons.prems(2) by (simp add: u_def disable_def g ins_disc_def Let_def STACK1_RET_def STACK1_def alt_frame_def)
  have ue: "mem u = mem (if b \<noteq> 0
      then if get_word t ch = ?own then put_word ch NOT_PROCESS_P t
           else if get_word t ch \<noteq> NOT_PROCESS_P \<and> ?T = NONE_SELECTED_O then WORKSPACE_SET (wptr s) WS_TEMP off t else t
      else t)"
    using w by (simp add: u_def disable_def g ins_disc_def Let_def STACK1_RET_def STACK1_def put_word_def WORKSPACE_SET_def
        get_word_def WORKSPACE_GET_def)
  have rd: "ready s g \<longleftrightarrow> b \<noteq> 0 \<and> get_word t ch \<noteq> NOT_PROCESS_P \<and> get_word t ch \<noteq> ?own"
    using v own gd(3) by (auto simp: ready_def g marked_def unmarked_def)
  have gw: "get_word u q = (if b \<noteq> 0 \<and> q = ch \<and> get_word t ch = ?own then NOT_PROCESS_P else get_word t q)"
    if q: "q \<in> channels ?all" for q
    using ue chs q gd(1) same_outside_get_word[OF same_outside_WORKSPACE_SET[of WS_TEMP "wptr s" t off], of q]
    by (auto simp: get_word_def put_word_def native.rd_wr)
  have restored: "get_word s ch = NOT_PROCESS_P" if "get_word t ch = ?own"
    using that v gd(3) by (auto simp: unmarked_def marked_def split: if_splits)
  have stays: "get_word s ch = get_word t ch" if "b \<noteq> 0" "get_word t ch \<noteq> ?own"
    using that v by (auto simp: unmarked_def marked_def g split: if_splits)
  have marks: "\<forall>q \<in> channels ((hs @ [g]) @ gs). get_word u q = unmarked s ((hs @ [g]) @ gs) (hs @ [g]) q"
  proof
    fix q assume q: "q \<in> channels ((hs @ [g]) @ gs)"
    then have q': "q \<in> channels ?all" by simp
    have tq: "get_word t q = unmarked s ?all hs q" using Cons.prems(3) q' by blast
    note uq = gw[OF q']
    show "get_word u q = unmarked s ((hs @ [g]) @ gs) (hs @ [g]) q"
      using tq uq restored stays by (auto simp: unmarked_def g split: if_splits)
  qed
  have st: "WORKSPACE_GET u (wptr s) WS_TEMP = first_ready s (hs @ [g])"
  proof -
    have sel: "?T = NONE_SELECTED_O \<longleftrightarrow> (\<forall>h \<in> set hs. \<not> ready s h)"
      using Cons.prems(4) first_ready_selected[of hs s] offs by simp
    have "WORKSPACE_GET u (wptr s) WS_TEMP = (if ready s g \<and> ?T = NONE_SELECTED_O then off else ?T)"
    proof (cases "ready s g \<and> ?T = NONE_SELECTED_O")
      case True
      then have "mem u = mem (WORKSPACE_SET (wptr s) WS_TEMP off t)" using ue rd by simp
      then have "WORKSPACE_GET u (wptr s) WS_TEMP = WORKSPACE_GET (WORKSPACE_SET (wptr s) WS_TEMP off t) (wptr s) WS_TEMP"
        by (simp add: WORKSPACE_GET_def get_word_def)
      then show ?thesis using True pr by (simp add: WS_get_set_same process_def)
    next
      case False
      then have "mem u = mem t \<or> mem u = mem (put_word ch NOT_PROCESS_P t)" using ue rd by auto
      moreover have "slots (wptr s) \<inter> bytes_at ch 4 = {}" using gd(2) by blast
      note same_outside_WORKSPACE_GET[OF same_outside_put_word this, of WS_TEMP NOT_PROCESS_P t]
      ultimately show ?thesis using False by (auto simp: WORKSPACE_GET_def get_word_def)
    qed
    then show ?thesis using sel Cons.prems(4) by (auto simp: first_ready_append g)
  qed
  have "alt_guards s ((hs @ [g]) @ gs)" using Cons.prems(1) by simp
  from Cons.IH[OF this fr marks st] show ?case using u by simp
qed (use assms in auto)

section \<open>The whole alternation\<close>

definition followed_by :: "instruction \<Rightarrow> instruction \<Rightarrow> instruction" where
  "followed_by f g s =
     (case f s of
        None \<Rightarrow> None
      | Some (ret, t) \<Rightarrow> if ret = ECTX_CONTINUE then g t else Some (ret, t))"

definition wait_for_guards :: "guard list \<Rightarrow> instruction" where
  "wait_for_guards gs = followed_by ins_alt (followed_by (in_order enable gs) ins_altwt)"

definition alternation :: "guard list \<Rightarrow> instruction" where
  "alternation gs = followed_by (wait_for_guards gs) (followed_by (in_order disable gs) ins_altend)"

lemma enabled_guards:
  assumes "alt_guards s gs"
  shows "\<exists>u. followed_by ins_alt (in_order enable gs) s = Some (ECTX_CONTINUE, u) \<and> alt_frame s u \<and>
     (\<forall>q \<in> channels gs. get_word u q = marked s gs q) \<and>
     WORKSPACE_GET u (wptr s) WS_STATE = (if \<exists>g \<in> set gs. ready s g then READY_P else ENABLING_P)"
proof -
  let ?t = "WORKSPACE_SET (wptr s) WS_STATE ENABLING_P s"
  have "\<forall>q \<in> channels gs. get_word ?t q = marked s [] q"
    using alt_guards_chan[OF assms] same_outside_get_word[OF same_outside_WORKSPACE_SET[of WS_STATE "wptr s" s ENABLING_P]]
    by (simp add: marked_def)
  moreover have "WORKSPACE_GET ?t (wptr s) WS_STATE = ENABLING_P"
    using assms by (simp add: alt_guards_def process_def WS_get_set_same)
  moreover have "alt_frame s ?t" by (simp add: alt_frame_def)
  ultimately show ?thesis using enabling[of s "[]" gs ?t] assms by (simp add: followed_by_def ins_alt_def)
qed


lemma enable_frame:
  "in_order enable gs t = Some (r, u) \<Longrightarrow> same_outside (slots (wptr t) \<union> (\<Union>q \<in> channels gs. bytes_at q 4)) t u"
proof (induction gs arbitrary: t)
  case (Cons g gs)
  obtain ch b off where g: "g = (ch, b, off)" by (cases g)
  let ?A = "slots (wptr t) \<union> (\<Union>q \<in> channels (g # gs). bytes_at q 4)"
  define v where "v = snd (the (enable g t))"
  have v: "enable g t = Some (ECTX_CONTINUE, v)" "wptr v = wptr t"
    by (simp_all add: v_def enable_def g ins_enbc_def Let_def STACK2_RET_def STACK2_def)
  then have io: "in_order enable gs v = Some (r, u)" using Cons.prems by simp
  have "mem v = mem t \<or> mem v = mem (put_word ch (wptr t OR 1) t) \<or> mem v = mem (WORKSPACE_SET (wptr t) WS_STATE READY_P t)"
    by (simp add: v_def enable_def g ins_enbc_def Let_def STACK2_RET_def STACK2_def put_word_def WORKSPACE_SET_def)
  then have "same_outside ?A t v"
    using same_outside_put_word[of ch t "wptr t OR 1"] same_outside_WORKSPACE_SET[of WS_STATE "wptr t" t READY_P]
    by (auto simp: same_outside_def channels_def g)
  then show ?case using Cons.IH[OF io] v(2)
    by (auto intro: same_outside_step simp: channels_def)
qed simp

lemma followed_by_assoc: "followed_by f (followed_by g h) s = followed_by (followed_by f g) h s"
  by (auto simp: followed_by_def split: option.split)

lemma alt_frame_trans: "alt_frame s t \<Longrightarrow> alt_frame t u \<Longrightarrow> alt_frame s u"
  by (simp add: alt_frame_def)

text \<open>
  C25: an alternation over channel guards with a guard that is ready does not wait: it goes on at
  the branch of the first ready guard in the order they are disabled, and every channel word is
  as it was before.
\<close>

theorem alternation_takes_first_ready:
  assumes "alt_guards s gs" "\<exists>g \<in> set gs. ready s g"
  shows "\<exists>t. alternation gs s = Some (ECTX_CONTINUE, t) \<and> wptr t = wptr s \<and>
     iptr t = byteptr_plus (iptr s) (first_ready s gs) \<and> (\<forall>q \<in> channels gs. get_word t q = get_word s q)"
proof -
  obtain u where u: "followed_by ins_alt (in_order enable gs) s = Some (ECTX_CONTINUE, u)" "alt_frame s u"
     "\<forall>q \<in> channels gs. get_word u q = marked s gs q" "WORKSPACE_GET u (wptr s) WS_STATE = READY_P"
    using enabled_guards[OF assms(1)] assms(2) by auto
  have pr: "aligned (wptr s)" "wptr u = wptr s" using assms(1) u(2) by (auto simp: alt_guards_def process_def alt_frame_def)
  let ?v = "WORKSPACE_SET (wptr s) WS_TEMP NONE_SELECTED_O u"
  have wt: "ins_altwt u = Some (ECTX_CONTINUE, ?v)"
    using pr u(4) by (simp add: ins_altwt_def Let_def WS_get_set_same UNDEFINE_STACK_RET_def tvm_consts)
  have fv: "alt_frame s ?v" using u(2) by (simp add: alt_frame_def)
  have qv: "\<forall>q \<in> channels ([] @ gs). get_word ?v q = unmarked s ([] @ gs) [] q"
    using u(3) alt_guards_chan[OF assms(1)]
      same_outside_get_word[OF same_outside_WORKSPACE_SET[of WS_TEMP "wptr s" u NONE_SELECTED_O]]
    by (simp add: unmarked_def)
  have tv: "WORKSPACE_GET ?v (wptr s) WS_TEMP = first_ready s []" using pr by (simp add: WS_get_set_same)
  obtain x where x: "in_order disable gs ?v = Some (ECTX_CONTINUE, x)" "alt_frame s x"
     "\<forall>q \<in> channels gs. get_word x q = unmarked s gs gs q" "WORKSPACE_GET x (wptr s) WS_TEMP = first_ready s gs"
    using disabling[OF _ fv qv tv] assms(1) by auto
  have "first_ready s gs \<noteq> NONE_SELECTED_O"
    using first_ready_selected[of gs s] alt_guards_off[OF assms(1)] assms(2) by blast
  then have "ins_altend x = Some (ECTX_CONTINUE, x\<lparr>iptr := byteptr_plus (iptr x) (first_ready s gs)\<rparr>)"
    using x(2,4) by (simp add: ins_altend_def Let_def alt_frame_def)
  moreover have "unmarked s gs gs q = get_word s q" for q by (auto simp: unmarked_def marked_def)
  moreover have "wait_for_guards gs s = Some (ECTX_CONTINUE, ?v)"
    unfolding wait_for_guards_def followed_by_assoc by (simp add: followed_by_def[of "followed_by _ _"] u(1) wt)
  ultimately show ?thesis using x by (auto simp: alternation_def followed_by_def alt_frame_def)
qed

text \<open>
  C26: an alternation over channel guards none of which is ready waits: its state is that of a
  waiting ALT, every enabled channel holds its workspace with the low bit set, and the next
  process in the run queue runs.
\<close>

theorem alternation_waits:
  assumes "alt_guards s gs" "\<forall>g \<in> set gs. \<not> ready s g" "run_queue s rs" "sflags s = 0"
    and "ws_disjoint (insert (wptr s) (set rs))" "wptr s \<notin> set rs"
    and "\<forall>q \<in> channels gs. \<forall>r \<in> set rs. bytes_at q 4 \<inter> slots r = {}"
  shows "\<exists>ret t. wait_for_guards gs s = Some (ret, t) \<and> next_runs s rs ret t \<and>
     WORKSPACE_GET t (wptr s) WS_STATE = WAITING_P \<and> WORKSPACE_GET t (wptr s) WS_ECTX = self s \<and>
     WORKSPACE_GET t (wptr s) WS_IPTR = iptr s \<and>
     (\<forall>(q, guard, off) \<in> set gs. guard \<noteq> 0 \<longrightarrow> get_word t q = wptr s OR 1)"
proof -
  let ?p = "wptr s"
  let ?A = "slots ?p \<union> (\<Union>q \<in> channels gs. bytes_at q 4)"
  obtain u where u: "followed_by ins_alt (in_order enable gs) s = Some (ECTX_CONTINUE, u)" "alt_frame s u"
     "\<forall>q \<in> channels gs. get_word u q = marked s gs q" "WORKSPACE_GET u ?p WS_STATE = ENABLING_P"
    using enabled_guards[OF assms(1)] assms(2) by auto
  have pr: "aligned ?p" "wptr u = ?p" "self u = self s" "iptr u = iptr s" 
    using assms(1) u(2) by (auto simp: alt_guards_def process_def alt_frame_def)
  let ?v = "WORKSPACE_SET ?p WS_IPTR (iptr u) (WORKSPACE_SET ?p WS_ECTX (self u) (WORKSPACE_SET ?p WS_STATE WAITING_P
     (WORKSPACE_SET ?p WS_TEMP NONE_SELECTED_O u)))"
  have ou: "same_outside ?A s u"
  proof -
    have "in_order enable gs (WORKSPACE_SET ?p WS_STATE ENABLING_P s) = Some (ECTX_CONTINUE, u)"
      using u(1) by (simp add: followed_by_def ins_alt_def)
    then have "same_outside ?A (WORKSPACE_SET ?p WS_STATE ENABLING_P s) u" using enable_frame by fastforce
    then show ?thesis by (rule same_outside_trans[OF same_outside_WORKSPACE_SET, rotated]) auto
  qed
  then have ov: "same_outside ?A s ?v" by (intro same_outside_writes) (auto simp: tvm_consts)
  have far: "slots r \<inter> ?A = {}" if "r \<in> set rs" for r
    using slots_disjoint[OF assms(5), of r ?p] assms(6,7) that by auto
  have rq: "run_queue ?v rs" using same_outside_run_queue[OF ov, of rs] far assms(3) u(2) by (simp add: alt_frame_def)
  have wt: "ins_altwt u = run_next_on_queue ?v"
    using pr u(4) by (simp add: ins_altwt_def Let_def WS_get_set_same UNDEFINE_STACK_RET_def tvm_consts)
  obtain ret t where t: "run_next_on_queue ?v = Some (ret, t)" "next_runs ?v rs ret t" "mem t = mem ?v" "self t = self ?v"
    using dispatch_next_runs[OF rq] assms(4) u(2) by (auto simp: alt_frame_def)
  have "next_runs s rs ret t"
    using same_outside_WORKSPACE_GET[OF ov far] u(2) by (intro next_runs_via[OF t(2)]) (auto simp: alt_frame_def)
  moreover have slot: "WORKSPACE_GET t ?p k = WORKSPACE_GET ?v ?p k" for k
    using t(3) by (simp add: WORKSPACE_GET_def get_word_def)
  have "WORKSPACE_GET t ?p WS_STATE = WAITING_P" "WORKSPACE_GET t ?p WS_ECTX = self s" "WORKSPACE_GET t ?p WS_IPTR = iptr s"
    using pr by (simp_all add: slot WS_get_set_same tvm_consts)
  moreover have "get_word t q = ?p OR 1" if "(q, guard, off) \<in> set gs" "guard \<noteq> 0" for q guard off
  proof -
    have q: "q \<in> channels gs" using that(1) by (force simp: channels_def)
    have sq: "bytes_at q 4 \<inter> slots ?p = {}" using alt_guards_chan[OF assms(1) q] by blast
    have "get_word ?v q = get_word u q"
    proof (rule same_outside_get_word[OF _ sq])
      show "same_outside (slots ?p) u ?v" by (intro same_outside_writes same_outside_refl) (auto simp: tvm_consts)
    qed
    moreover have "get_word s q = NOT_PROCESS_P" using assms(2) that by (force simp: ready_def)
    ultimately show ?thesis using u(3) q that t(3) by (auto simp: marked_def get_word_def)
  qed
  moreover have "wait_for_guards gs s = Some (ret, t)"
    unfolding wait_for_guards_def followed_by_assoc by (simp add: followed_by_def[of "followed_by _ _"] u(1) wt t(1))
  ultimately show ?thesis by blast
qed

lemma two_ready_guards:
  "alt_guards (put_word 0x100 0x3000 two_ready) [(0x200, 1, 10), (0x100, 1, 20), (0x300, 1, 30)]"
  "alt_guards two_ready [(0x100, 1, 10), (0x200, 1, 20)]"
  by (simp_all add: alt_guards_def process_def slots_def bytes_at_4 get_put_word aligned_def wordptr_minus_def tvm_consts)

theorem alternation_takes_first_ready_witness:
  "\<exists>t. alternation [(0x200, 1, 10), (0x100, 1, 20), (0x300, 1, 30)] (put_word 0x100 0x3000 two_ready) = Some (ECTX_CONTINUE, t) \<and>
     iptr t = 0x8014 \<and> get_word t 0x100 = 0x3000 \<and> get_word t 0x200 = 0"
proof -
  have "ready (put_word 0x100 0x3000 two_ready) (0x100, 1, 20)" "\<not> ready (put_word 0x100 0x3000 two_ready) (0x200, 1, 10)"
    by (simp_all add: ready_def get_put_word aligned_def tvm_consts)
  then show ?thesis
    using alternation_takes_first_ready[OF two_ready_guards(1)]
    by (auto simp: channels_def byteptr_plus_def get_put_word aligned_def)
qed

theorem alternation_waits_witness:
  "\<exists>t. wait_for_guards [(0x100, 1, 10), (0x200, 1, 20)] two_ready = Some (ECTX_CONTINUE, t) \<and> wptr t = 0x2000 \<and>
     WORKSPACE_GET t 0x1000 WS_STATE = WAITING_P \<and> get_word t 0x100 = 0x1001 \<and> get_word t 0x200 = 0x1001"
proof -
  have "ws_disjoint {wptr two_ready, 0x2000}" using two_ready_clear(1) by (simp add: clear_def)
  moreover have "bytes_at q 4 \<inter> slots 0x2000 = {}" if "q \<in> {0x100, 0x200}" for q
    using that by (auto simp: slots_def bytes_at_4 wordptr_minus_def)
  ultimately show ?thesis
    using alternation_waits[OF two_ready_guards(2), of "[0x2000]"] two_ready_queue
    by (auto simp: ready_def channels_def next_runs_def tvm_consts)
qed

end
