(* ===== verification/TVM_MobileWords.thy ===== *)
theory TVM_MobileWords
  imports TVM_MobileIO
begin

text \<open>
  The type words of mobile data (mobile_types.h): what the \<open>MT_MAKE\<close> macros pack, the reading
  macros give back; and the loop of \<open>mt_io_update\<close> that strips array types off such a word ends.
\<close>

section \<open>Type words\<close>

lemma high_bits: "take_bit k i = i \<Longrightarrow> k \<le> n \<Longrightarrow> \<not> bit (i :: WORD) n"
  by (metis bit_take_bit_iff not_less)

lemma low_bits: "take_bit k i = i \<Longrightarrow> bit (i :: WORD) n \<Longrightarrow> n < k"
  by (metis bit_take_bit_iff)

lemma word_below: "x < 8 \<Longrightarrow> take_bit 3 x = x" "x < 16 \<Longrightarrow> take_bit 4 x = x" "x < 0x1000000 \<Longrightarrow> take_bit 24 x = x"
  "x < 0x100000 \<Longrightarrow> take_bit 20 x = x" "x < 0x8000000 \<Longrightarrow> take_bit 27 x = x" for x :: WORD
  by (simp_all add: word_unat_eq_iff take_bit_eq_mod unat_mod word_less_nat_alt)

lemma make_type_bits:
  "bit (MT_SIMPLE OR MT_MAKE_TYPE t OR push_bit MT_FLAGS_SHIFT f) n \<longleftrightarrow>
     n = 0 \<or> 1 \<le> n \<and> n < 32 \<and> bit t (n - 1) \<or> 5 \<le> n \<and> n < 32 \<and> bit f (n - 5)"
  unfolding MT_SIMPLE_def MT_MAKE_TYPE_def MT_TYPE_SHIFT_def MT_FLAGS_SHIFT_def bit_or_iff bit_push_bit_iff bit_1_word
  by auto

lemma and_0xf: "(x :: WORD) AND 0xf = take_bit 4 x" "x AND 0x7 = take_bit 3 x" "x AND 0xff = take_bit 8 x"
  by (simp_all add: take_bit_eq_mask mask_eq_exp_minus_1)

lemma made_type:
  assumes "take_bit 4 t = t"
  shows "MT_TYPE (MT_SIMPLE OR MT_MAKE_TYPE t OR push_bit MT_FLAGS_SHIFT f) = t"
    "MT_FLAGS (MT_SIMPLE OR MT_MAKE_TYPE t OR push_bit MT_FLAGS_SHIFT f) = take_bit 27 f"
    "(MT_SIMPLE OR MT_MAKE_TYPE t OR push_bit MT_FLAGS_SHIFT f) AND MT_SIMPLE \<noteq> 0"
proof -
  let ?w = "MT_SIMPLE OR MT_MAKE_TYPE t OR push_bit MT_FLAGS_SHIFT f"
  note b = high_bits[OF assms]
  show "MT_TYPE ?w = t"
  proof (rule bit_word_eqI)
    fix n assume "n < LENGTH(32)"
    show "bit (MT_TYPE ?w) n \<longleftrightarrow> bit t n"
      unfolding MT_TYPE_def MT_TYPE_SHIFT_def and_0xf bit_take_bit_iff bit_drop_bit_eq comp_def make_type_bits
      using b[of n] \<open>n < LENGTH(32)\<close> by (cases "n < 4") auto
  qed
  show "MT_FLAGS ?w = take_bit 27 f"
  proof (rule bit_word_eqI)
    fix n assume "n < LENGTH(32)"
    show "bit (MT_FLAGS ?w) n \<longleftrightarrow> bit (take_bit 27 f) n"
      unfolding MT_FLAGS_def MT_FLAGS_SHIFT_def bit_take_bit_iff bit_drop_bit_eq comp_def make_type_bits[unfolded MT_FLAGS_SHIFT_def]
      using b[of "n + 4"] by (auto simp: add.commute)
  qed
  have "bit (?w AND MT_SIMPLE) 0" by (simp add: bit_and_iff make_type_bits MT_SIMPLE_def)
  then show "?w AND MT_SIMPLE \<noteq> 0" by auto
qed


text \<open>
  The type words of arrays, array options, barriers and numbers give back the parts they are
  made of, for parts that fit in their fields.
\<close>

theorem type_words_round_trip:
  assumes "d - 1 < 8" "i < 0x1000000" "f < 8" "a < 16" "j < 0x100000" "t < 0x8000000" "k < 7"
  shows "MT_TYPE (MT_MAKE_ARRAY_TYPE d i) = MT_ARRAY \<and> MT_ARRAY_DIM (MT_MAKE_ARRAY_TYPE d i) = d \<and>
      MT_ARRAY_INNER_TYPE (MT_MAKE_ARRAY_TYPE d i) = i \<and>
    MT_TYPE (MT_MAKE_ARRAY_OPTS f a j) = MT_ARRAY_OPTS \<and> MT_FLAGS (MT_MAKE_ARRAY_OPTS f a j) AND 7 = f \<and>
      MT_ARRAY_OPTS_ALIGN (MT_MAKE_ARRAY_OPTS f a j) = a \<and> MT_ARRAY_OPTS_INNER (MT_MAKE_ARRAY_OPTS f a j) = j \<and>
    MT_TYPE (MT_MAKE_BARRIER t) = MT_BARRIER \<and> MT_BARRIER_TYPE (MT_MAKE_BARRIER t) = t \<and>
    MT_TYPE (MT_MAKE_NUM k) = MT_NUM \<and> MT_NUM_TYPE (MT_MAKE_NUM k) = k"
proof -
  note w = word_below(1)[OF assms(1)] word_below(3)[OF assms(2)] word_below(1)[OF assms(3)] word_below(2)[OF assms(4)]
    word_below(4)[OF assms(5)] word_below(5)[OF assms(6)]
  have k: "k < 8" using assms(7) by (simp add: word_less_nat_alt)
  note h = w[THEN high_bits] and l = w[THEN low_bits]
  have t4: "take_bit 4 MT_ARRAY = MT_ARRAY" "take_bit 4 MT_ARRAY_OPTS = MT_ARRAY_OPTS"
    "take_bit 4 MT_BARRIER = MT_BARRIER" "take_bit 4 MT_NUM = MT_NUM"
    by (simp_all add: tvm_consts)
  have arr: "MT_MAKE_ARRAY_TYPE d i = MT_SIMPLE OR MT_MAKE_TYPE MT_ARRAY OR push_bit MT_FLAGS_SHIFT (d - 1 OR push_bit 3 i)"
    by (simp add: MT_MAKE_ARRAY_TYPE_def push_bit_or or.assoc add.commute)
  have opts: "MT_MAKE_ARRAY_OPTS f a j = MT_SIMPLE OR MT_MAKE_TYPE MT_ARRAY_OPTS OR
      push_bit MT_FLAGS_SHIFT (f OR push_bit 3 a OR push_bit 7 j)"
    using w(4) by (simp add: MT_MAKE_ARRAY_OPTS_def push_bit_or or.assoc add.commute and_0xf)
  have inner: "drop_bit (MT_FLAGS_SHIFT + n) x = drop_bit n (MT_FLAGS x)" for n x
    by (simp add: MT_FLAGS_def add.commute)
  have "MT_FLAGS (MT_MAKE_ARRAY_TYPE d i) AND 7 = d - 1"
    unfolding arr made_type(2)[OF t4(1)] and_0xf
    by (rule bit_word_eqI) (use h(1) in \<open>auto simp: bit_take_bit_iff bit_or_iff bit_push_bit_iff dest: l\<close>)
  then have dim: "MT_ARRAY_DIM (MT_MAKE_ARRAY_TYPE d i) = d" by (simp add: MT_ARRAY_DIM_def)
  have "MT_ARRAY_INNER_TYPE (MT_MAKE_ARRAY_TYPE d i) = i"
    unfolding MT_ARRAY_INNER_TYPE_def inner arr made_type(2)[OF t4(1)]
    by (rule bit_word_eqI) (use h(1,2) in \<open>auto simp: bit_drop_bit_eq bit_take_bit_iff bit_or_iff bit_push_bit_iff dest: l\<close>)
  moreover have "MT_FLAGS (MT_MAKE_ARRAY_OPTS f a j) AND 7 = f"
    unfolding opts made_type(2)[OF t4(2)] and_0xf
    by (rule bit_word_eqI) (use h(3) in \<open>auto simp: bit_take_bit_iff bit_or_iff bit_push_bit_iff dest: l\<close>)
  moreover have "MT_ARRAY_OPTS_ALIGN (MT_MAKE_ARRAY_OPTS f a j) = a"
    unfolding MT_ARRAY_OPTS_ALIGN_def inner opts made_type(2)[OF t4(2)] and_0xf
    by (rule bit_word_eqI) (use h(3,4) in \<open>auto simp: bit_drop_bit_eq bit_take_bit_iff bit_or_iff bit_push_bit_iff dest: l\<close>)
  moreover have "MT_ARRAY_OPTS_INNER (MT_MAKE_ARRAY_OPTS f a j) = j"
    unfolding MT_ARRAY_OPTS_INNER_def inner opts made_type(2)[OF t4(2)]
    by (rule bit_word_eqI) (use h(3,4,5) in \<open>auto simp: bit_drop_bit_eq bit_take_bit_iff bit_or_iff bit_push_bit_iff dest: l\<close>)
  moreover have "MT_BARRIER_TYPE (MT_MAKE_BARRIER t) = t"
    unfolding MT_BARRIER_TYPE_def MT_MAKE_BARRIER_def made_type(2)[OF t4(3)] by (rule w)
  moreover have "MT_NUM_TYPE (MT_MAKE_NUM k) = k"
  proof -
    have "take_bit 27 k = k" "take_bit 3 k = k" using k assms(7) by (auto intro!: word_below simp: word_less_nat_alt)
    then show ?thesis using assms(7)
      unfolding MT_NUM_TYPE_def MT_MAKE_NUM_def made_type(2)[OF t4(4)] mt_num_type_def and_0xf by simp
  qed
  moreover have "MT_TYPE (MT_MAKE_ARRAY_TYPE d i) = MT_ARRAY" "MT_TYPE (MT_MAKE_ARRAY_OPTS f a j) = MT_ARRAY_OPTS"
    unfolding arr opts by (rule made_type t4)+
  moreover have "MT_TYPE (MT_MAKE_BARRIER t) = MT_BARRIER" "MT_TYPE (MT_MAKE_NUM k) = MT_NUM"
    unfolding MT_MAKE_BARRIER_def MT_MAKE_NUM_def by (rule made_type t4)+
  ultimately show ?thesis using dim by blast
qed

theorem type_words_round_trip_witness:
  "MT_ARRAY_DIM (MT_MAKE_ARRAY_TYPE 2 (MT_MAKE_NUM 3)) = 2 \<and> MT_ARRAY_INNER_TYPE (MT_MAKE_ARRAY_TYPE 2 (MT_MAKE_NUM 3)) = MT_MAKE_NUM 3"
proof -
  have "MT_MAKE_NUM 3 = 0x61" by (simp add: MT_MAKE_NUM_def MT_MAKE_TYPE_def tvm_consts)
  then have "MT_MAKE_NUM 3 < 0x1000000" by simp
  then show ?thesis using type_words_round_trip[of 2 "MT_MAKE_NUM 3" 0 0 0 0 0] by simp
qed

lemma drop_bit_smaller: "drop_bit n t \<noteq> 0 \<Longrightarrow> 0 < n \<Longrightarrow> unat (drop_bit n t) < unat (t :: WORD)"
proof -
  assume "drop_bit n t \<noteq> 0" "0 < n"
  then have "t \<noteq> 0" by auto
  then have "unat t div 2 ^ n < unat t" using \<open>0 < n\<close> by (intro div_less_dividend one_less_power) (auto simp: unat_gt_0)
  then show ?thesis by (subst unat_drop_bit_eq) (simp only: drop_bit_eq_div)
qed

lemma inner_type_smaller:
  assumes "strip_opts (MT_ARRAY_INNER_TYPE t) \<noteq> 0"
  shows "unat (strip_opts (MT_ARRAY_INNER_TYPE t)) < unat t"
proof -
  have "unat (drop_bit n (drop_bit m t)) < unat t" if "drop_bit n (drop_bit m t) \<noteq> 0" "0 < m" for n m :: nat
    using drop_bit_smaller[of "n + m" t] that by simp
  from this[of "MT_FLAGS_SHIFT + 7" "MT_FLAGS_SHIFT + 3"] this[of 0 "MT_FLAGS_SHIFT + 3"] assms show ?thesis
    by (auto simp: strip_opts_def MT_ARRAY_INNER_TYPE_def MT_ARRAY_OPTS_INNER_def MT_FLAGS_SHIFT_def split: if_splits)
qed

text \<open>
  the search of \<open>mt_io_update\<close> for the innermost element type of an array always ends.
\<close>

theorem array_of_mobiles_ends: "\<exists>b. array_of_mobiles t = Some b"
proof (induction "unat t" arbitrary: t rule: less_induct)
  case less
  let ?t = "strip_opts (MT_ARRAY_INNER_TYPE t)"
  show ?case
  proof (cases "MT_TYPE ?t = MT_ARRAY")
    case True
    then have "?t \<noteq> 0" by (auto simp: MT_TYPE_def tvm_consts)
    then have "\<exists>b. array_of_mobiles ?t = Some b" using less inner_type_smaller by blast
    then show ?thesis by (subst array_of_mobiles.simps) (auto simp: Let_def)
  next
    case False
    then show ?thesis by (subst array_of_mobiles.simps) (auto simp: Let_def)
  qed
qed

end
