(* ===== verification/TCOFF_IO.thy ===== *)
theory TCOFF_IO
  imports "HOL-Library.Word"
begin

text \<open>
  Files and the number, string and record formats of TCOFF, the object file format of the
  compiler tools (tcoff_io.c of the librarian, bin/ilibr/tcofflib; the compiler has a copy of
  the library with another number reader, compiler/occ21/tcofflib). A C \<open>long\<close> is a 64-bit word
  and an \<open>int\<close> a 32-bit word, as on the 64-bit hosts the port is for. A file that is read is its
  content with a position; what is written is the list of bytes. An option is \<open>None\<close> where the C
  code has undefined behaviour, the left of the sum where it prints an error and exits.
\<close>

unbundle bit_operations_syntax

section \<open>Machine types and files\<close>

type_synonym LONG = "64 word"
type_synonym ULONG = "64 word"
type_synonym INT32 = "32 word"
type_synonym OCTET = "8 word"

record cfile =
  content :: "OCTET list"
  fpos :: nat

definition fopen :: "OCTET list \<Rightarrow> cfile" where
  "fopen bs = \<lparr>content = bs, fpos = 0\<rparr>"

definition fgetc :: "cfile \<Rightarrow> OCTET option \<times> cfile" where
  "fgetc f = (if fpos f < length (content f) then (Some (content f ! fpos f), f\<lparr>fpos := Suc (fpos f)\<rparr>) else (None, f))"

definition ftell :: "cfile \<Rightarrow> LONG" where
  "ftell f = of_nat (fpos f)"

definition fseek_set :: "LONG \<Rightarrow> cfile \<Rightarrow> cfile" where
  "fseek_set p f = f\<lparr>fpos := unat p\<rparr>"

definition fseek_cur :: "LONG \<Rightarrow> cfile \<Rightarrow> bool \<times> cfile" where
  "fseek_cur l f =
     (let p = int (fpos f) + sint l
      in if 0 \<le> p \<and> p < 2 ^ 63 then (True, f\<lparr>fpos := nat p\<rparr>) else (False, f))"

definition fwrite :: "OCTET list \<Rightarrow> ULONG \<Rightarrow> OCTET list option" where
  "fwrite buf n = (if unat n \<le> length buf then Some (take (unat n) buf) else None)"

section \<open>Numbers\<close>

definition bytes_to_tag :: "LONG list" where
  "bytes_to_tag = [0, 251, 252, 253, 253, 254, 254, 254, 254]"

fun get_bytes :: "nat \<Rightarrow> nat \<Rightarrow> LONG \<Rightarrow> cfile \<Rightarrow> ((LONG option) \<times> cfile) option" where
  "get_bytes 0 i res f = Some (Some res, f)"
| "get_bytes (Suc k) i res f =
     (case fgetc f of
        (None, f) \<Rightarrow> Some (None, f)
      | (Some c, f) \<Rightarrow> if 8 * i < 64 then get_bytes k (Suc i) (res OR push_bit (8 * i) (ucast c)) f else None)"

definition tcoff_getl_test :: "cfile \<Rightarrow> ((LONG \<times> bool) \<times> cfile) option" where
  "tcoff_getl_test f =
     (case fgetc f of
        (None, f) \<Rightarrow> Some ((0, False), f)
      | (Some c, f) \<Rightarrow>
          (let neg = (c = 255);
               second = (if neg then fgetc f else (Some c, f))
           in case second of
                (None, f) \<Rightarrow> Some ((0, False), f)
              | (Some c, f) \<Rightarrow>
                  if c \<le> 250 then Some ((if neg then NOT (ucast c) else ucast c, True), f)
                  else (case get_bytes (2 ^ (unat c - 251)) 0 0 f of
                          None \<Rightarrow> None
                        | Some (None, f) \<Rightarrow> Some ((0, False), f)
                        | Some (Some res, f) \<Rightarrow> Some ((if neg then NOT res else res, True), f))))"

fun getul_bytes :: "nat \<Rightarrow> nat \<Rightarrow> ULONG \<Rightarrow> cfile \<Rightarrow> (ULONG \<times> bool) \<times> cfile" where
  "getul_bytes 0 i l f = ((l, True), f)"
| "getul_bytes (Suc k) i l f =
     (case fgetc f of
        (None, f) \<Rightarrow> ((0, False), f)
      | (Some c, f) \<Rightarrow> getul_bytes k (Suc i) (l OR push_bit (8 * i) (ucast c)) f)"

definition tcoff_getul_test :: "cfile \<Rightarrow> (ULONG \<times> bool) \<times> cfile" where
  "tcoff_getul_test f = getul_bytes 4 0 0 f"

partial_function (option) count_bytes :: "LONG \<Rightarrow> nat \<Rightarrow> nat option" where
  "count_bytes n sz = (if n \<noteq> 0 then count_bytes (signed_drop_bit 8 n) (Suc sz) else Some sz)"

declare count_bytes.simps [code]

definition number_bytes :: "LONG \<Rightarrow> (LONG \<times> nat) option" where
  "number_bytes l =
     (case count_bytes (signed_drop_bit 8 l) 1 of
        None \<Rightarrow> None
      | Some sz \<Rightarrow>
          if sz < length bytes_to_tag
          then Some (bytes_to_tag ! sz, 2 ^ unat (bytes_to_tag ! sz - 251))
          else None)"

fun put_bytes :: "nat \<Rightarrow> LONG \<Rightarrow> OCTET list" where
  "put_bytes 0 l = []"
| "put_bytes (Suc k) l = ucast (l AND 0xFF) # put_bytes k (signed_drop_bit 8 l)"

definition tcoff_putl :: "LONG \<Rightarrow> OCTET list option" where
  "tcoff_putl l =
     (let sign = (if l <s 0 then [255] else []);
          l = (if l <s 0 then NOT l else l)
      in if 0 \<le>s l \<and> l \<le>s 250 then Some (sign @ [ucast l])
         else (case number_bytes l of
                 None \<Rightarrow> None
               | Some (tag, bytes) \<Rightarrow> Some (sign @ ucast tag # put_bytes bytes l)))"

fun putul_bytes :: "nat \<Rightarrow> ULONG \<Rightarrow> OCTET list" where
  "putul_bytes 0 l = []"
| "putul_bytes (Suc k) l = ucast (l AND 0xFF) # putul_bytes k (drop_bit 8 l)"

definition tcoff_putul :: "ULONG \<Rightarrow> OCTET list" where
  "tcoff_putul l = putul_bytes 4 l"

definition tcoff_sizel :: "LONG \<Rightarrow> LONG option" where
  "tcoff_sizel l =
     (let sz = (if l <s 0 then 1 else 0);
          l = (if l <s 0 then NOT l else l)
      in if 0 \<le>s l \<and> l \<le>s 250 then Some (sz + 1)
         else (case number_bytes l of
                 None \<Rightarrow> None
               | Some (tag, bytes) \<Rightarrow> Some (sz + 1 + of_nat bytes)))"


section \<open>Tags (tcoff.h)\<close>

abbreviation (input) "LINKABLE_TAG \<equiv> 1"
abbreviation (input) "START_MODULE_TAG \<equiv> 2"
abbreviation (input) "END_MODULE_TAG \<equiv> 3"
abbreviation (input) "SET_LOAD_POINT_TAG \<equiv> 4"
abbreviation (input) "ADJUST_POINT_TAG \<equiv> 5"
abbreviation (input) "LOAD_TEXT_TAG \<equiv> 6"
abbreviation (input) "LOAD_PREFIX_TAG \<equiv> 7"
abbreviation (input) "SECTION_TAG \<equiv> 11"
abbreviation (input) "DEFINE_MAIN_TAG \<equiv> 12"
abbreviation (input) "DEFINE_LABEL_TAG \<equiv> 14"
abbreviation (input) "DEFINE_SYMBOL_TAG \<equiv> 15"
abbreviation (input) "COMMENT_TAG \<equiv> 20"
abbreviation (input) "LIB_INDEX_START_TAG \<equiv> 22"
abbreviation (input) "LIB_INDEX_END_TAG \<equiv> 23"
abbreviation (input) "INDEX_ENTRY_TAG \<equiv> 24"
abbreviation (input) "DESCRIPTOR_TAG \<equiv> 26"
abbreviation (input) "VERSION_TAG \<equiv> 27"
abbreviation (input) "LINKED_UNIT_TAG \<equiv> 28"
abbreviation (input) "SYMBOL_TAG \<equiv> 30"
abbreviation (input) "SPECIFIC_SYMBOL_TAG \<equiv> 31"

abbreviation (input) "CO_VALUE_TAG \<equiv> 1"
abbreviation (input) "LP_VALUE_TAG \<equiv> 2"
abbreviation (input) "SV_VALUE_TAG \<equiv> 3"
abbreviation (input) "PLUS_OP \<equiv> 6"
abbreviation (input) "MINUS_OP \<equiv> 7"
abbreviation (input) "AP_VALUE_TAG \<equiv> 13"

abbreviation (input) "READ_SECTION \<equiv> 0x2"
abbreviation (input) "EXECUTE_SECTION \<equiv> 0x4"

abbreviation (input) "LOCAL_USAGE \<equiv> 0x1"
abbreviation (input) "EXPORT_USAGE \<equiv> 0x2"
abbreviation (input) "IMPORT_USAGE \<equiv> 0x4"
abbreviation (input) "WEAK_USAGE \<equiv> 0x8"
abbreviation (input) "CONDITIONAL_USAGE \<equiv> 0x10"
abbreviation (input) "UNINDEXED_USAGE \<equiv> 0x20"
abbreviation (input) "ORIGIN_USAGE \<equiv> 0x80"
abbreviation (input) "ROUTINE_USAGE \<equiv> 0x100"

abbreviation (input) "ATTRIB_INSTR_IO \<equiv> 0x800"

abbreviation (input) "LANG_NOT_KNOWN \<equiv> 1"
abbreviation (input) "LANG_LINKED \<equiv> 2"
abbreviation (input) "LANG_OCCAM \<equiv> 3"
abbreviation (input) "LANG_OCCAM_HARNESS \<equiv> 10"

section \<open>Failing input\<close>

datatype io_error = End_of_file | Bad_format | Mix | Out_of_memory | No_entries | Bad_record_string | Write_failed

type_synonym ('a, 's, 'e) run = "'s \<Rightarrow> ('e + 'a \<times> 's) option"
type_synonym 'a io = "('a, cfile, io_error) run"

definition io_return :: "'a \<Rightarrow> ('a, 's, 'e) run" where
  "io_return x f = Some (Inr (x, f))"

definition io_fail :: "'e \<Rightarrow> ('a, 's, 'e) run" where
  "io_fail e f = Some (Inl e)"

definition io_bind :: "('a, 's, 'e) run \<Rightarrow> ('a \<Rightarrow> ('b, 's, 'e) run) \<Rightarrow> ('b, 's, 'e) run" where
  "io_bind m k f =
     (case m f of None \<Rightarrow> None | Some (Inl e) \<Rightarrow> Some (Inl e) | Some (Inr (x, f)) \<Rightarrow> k x f)"

definition io_option :: "'a option \<Rightarrow> ('a, 's, 'e) run" where
  "io_option r f = (case r of None \<Rightarrow> None | Some x \<Rightarrow> io_return x f)"

lemma io_bind_Inr [simp]:
  "io_bind m k f = Some (Inr r) \<longleftrightarrow> (\<exists>x g. m f = Some (Inr (x, g)) \<and> k x g = Some (Inr r))"
  by (auto simp: io_bind_def split: option.splits sum.splits)

lemma io_return_Inr [simp]: "io_return x f = Some (Inr (y, g)) \<longleftrightarrow> y = x \<and> g = f"
  by (auto simp: io_return_def)

lemma io_fail_Inr [simp]: "io_fail e f = Some (Inr r) \<longleftrightarrow> False"
  by (simp add: io_fail_def)

lemma io_option_Inr [simp]: "io_option r f = Some (Inr (x, g)) \<longleftrightarrow> r = Some x \<and> g = f"
  by (auto simp: io_option_def split: option.splits)

lemma io_bind_mono [partial_function_mono]:
  assumes "\<And>g. mono_option (\<lambda>F. B F g)" "\<And>x g. mono_option (\<lambda>F. C F x g)"
  shows "mono_option (\<lambda>F. io_bind (B F) (C F) f)"
proof -
  have b: "io_bind m k f = Option.bind (m f) (\<lambda>r. case r of Inl e \<Rightarrow> Some (Inl e) | Inr (x, g) \<Rightarrow> k x g)" for m k
    by (simp add: io_bind_def split: option.split)
  have "mono_option (\<lambda>F. case r of Inl e \<Rightarrow> Some (Inl e) | Inr (x, g) \<Rightarrow> C F x g)" for r
    by (cases r) (auto intro: option.const_mono assms(2))
  then show ?thesis unfolding b by (intro bind_mono assms(1))
qed

section \<open>Strings and records\<close>

fun read_string :: "nat \<Rightarrow> OCTET list \<Rightarrow> cfile \<Rightarrow> OCTET list option \<times> cfile" where
  "read_string 0 str f = (Some str, f)"
| "read_string (Suc k) str f =
     (case fgetc f of (None, f) \<Rightarrow> (None, f) | (Some c, f) \<Rightarrow> read_string k (str @ [c]) f)"

definition tcoff_gets_test :: "(OCTET list option \<times> LONG \<times> bool) io" where
  "tcoff_gets_test f =
     (case tcoff_getl_test f of
        None \<Rightarrow> None
      | Some ((len, ok), f) \<Rightarrow>
          if \<not> ok then io_return (None, len, False) f
          else (let l = (ucast len :: INT32)
                in if l = - 1 then None
                   else if l <s 0 then io_fail Out_of_memory f
                   else (case read_string (unat l) [] f of
                           (None, f) \<Rightarrow> io_return (None, len, False) f
                         | (Some str, f) \<Rightarrow> io_return (Some str, len, True) f)))"

definition tcoff_puts :: "LONG \<Rightarrow> OCTET list \<Rightarrow> OCTET list option" where
  "tcoff_puts sz string =
     (case (tcoff_putl sz, fwrite string sz) of
        (Some n, Some bs) \<Rightarrow> Some (n @ bs)
      | _ \<Rightarrow> None)"

datatype rec_arg = Arg_string "OCTET list" | Arg_int INT32

definition strlen :: "OCTET list \<Rightarrow> LONG" where
  "strlen s = of_nat (length (takeWhile (\<lambda>c. c \<noteq> 0) s))"

fun tcoff_record_length :: "string \<Rightarrow> rec_arg list \<Rightarrow> LONG \<Rightarrow> (io_error + LONG) option" where
  "tcoff_record_length [] args res = Some (Inr res)"
| "tcoff_record_length (c # p) args res =
     (if c = CHR ''%'' then
        (case p of
           [] \<Rightarrow> Some (Inl Bad_record_string)
         | c # p \<Rightarrow>
             if c = CHR ''s'' then
               (case args of
                  Arg_string s # args \<Rightarrow>
                    (case tcoff_sizel (strlen s) of
                       None \<Rightarrow> None
                     | Some n \<Rightarrow> tcoff_record_length p args (res + (n + strlen s)))
                | _ \<Rightarrow> None)
             else if c = CHR ''l'' then
               (case p of
                  [] \<Rightarrow> Some (Inl Bad_record_string)
                | c # p \<Rightarrow>
                    if c = CHR ''d'' then
                      (case args of
                         Arg_int i # args \<Rightarrow>
                           (case tcoff_sizel (scast i) of
                              None \<Rightarrow> None
                            | Some n \<Rightarrow> tcoff_record_length p args (res + n))
                       | _ \<Rightarrow> None)
                    else if c = CHR ''u'' then
                      (case args of Arg_int i # args \<Rightarrow> tcoff_record_length p args (res + 4) | _ \<Rightarrow> None)
                    else Some (Inl Bad_record_string))
             else Some (Inl Bad_record_string))
      else if c = CHR '' '' then tcoff_record_length p args res
      else Some (Inl Bad_record_string))"

fun tcoff_print_rec :: "string \<Rightarrow> rec_arg list \<Rightarrow> OCTET list \<Rightarrow> (io_error + OCTET list) option" where
  "tcoff_print_rec [] args fs = Some (Inr fs)"
| "tcoff_print_rec (c # p) args fs =
     (if c = CHR ''%'' then
        (case p of
           [] \<Rightarrow> Some (Inl Bad_record_string)
         | c # p \<Rightarrow>
             if c = CHR ''s'' then
               (case args of
                  Arg_string s # args \<Rightarrow>
                    (case tcoff_puts (strlen s) s of
                       None \<Rightarrow> None
                     | Some bs \<Rightarrow> tcoff_print_rec p args (fs @ bs))
                | _ \<Rightarrow> None)
             else if c = CHR ''l'' then
               (case p of
                  [] \<Rightarrow> Some (Inl Bad_record_string)
                | c # p \<Rightarrow>
                    if c = CHR ''d'' then
                      (case args of
                         Arg_int i # args \<Rightarrow>
                           (case tcoff_putl (scast i) of
                              None \<Rightarrow> None
                            | Some bs \<Rightarrow> tcoff_print_rec p args (fs @ bs))
                       | _ \<Rightarrow> None)
                    else if c = CHR ''u'' then
                      (case args of
                         Arg_int i # args \<Rightarrow> tcoff_print_rec p args (fs @ tcoff_putul (ucast i))
                       | _ \<Rightarrow> None)
                    else Some (Inl Bad_record_string))
             else Some (Inl Bad_record_string))
      else if c = CHR '' '' then tcoff_print_rec p args fs
      else Some (Inl Bad_record_string))"

definition tcoff_putrec :: "LONG \<Rightarrow> string \<Rightarrow> rec_arg list \<Rightarrow> (io_error + OCTET list) option" where
  "tcoff_putrec tag fmt args =
     (case (tcoff_putl tag, tcoff_record_length fmt args 0) of
        (Some t, Some (Inr rec_len)) \<Rightarrow>
          (case tcoff_putl rec_len of
             None \<Rightarrow> None
           | Some l \<Rightarrow> tcoff_print_rec fmt args (t @ l))
      | (Some t, Some (Inl e)) \<Rightarrow> Some (Inl e)
      | _ \<Rightarrow> None)"

section \<open>The compiler's reader of numbers\<close>

definition occ21_getl_test :: "cfile \<Rightarrow> ((LONG \<times> bool) \<times> cfile) option" where
  "occ21_getl_test f =
     (case fgetc f of
        (None, f) \<Rightarrow> Some ((- 10, False), f)
      | (Some c, f) \<Rightarrow>
          (let read_on = (\<lambda>neg c f.
                 if c \<le> 250 then Some ((if neg then NOT (ucast c) else ucast c, True), f)
                 else (case get_bytes (2 ^ (unat c - 251)) 0 0 f of
                         None \<Rightarrow> None
                       | Some (None, f) \<Rightarrow> Some ((- 12, False), f)
                       | Some (Some res, f) \<Rightarrow> Some ((if neg then NOT res else res, True), f)))
           in if c = 255
              then (case fgetc f of
                      (None, f) \<Rightarrow> Some ((- 11, False), f)
                    | (Some c, f) \<Rightarrow> read_on True c f)
              else if c = 254 then Some ((0, True), f)
              else read_on False c f))"

end
