(* ===== verification/TCOFF_Numbers.thy ===== *)
theory TCOFF_Numbers
  imports TCOFF_IO
begin

text \<open>
  Numbers, strings and records are read as they were written and have the sizes that are computed
  for them.
\<close>

section \<open>Reading what is written\<close>

definition remaining :: "cfile \<Rightarrow> OCTET list" where
  "remaining f = drop (fpos f) (content f)"

definition skip :: "nat \<Rightarrow> cfile \<Rightarrow> cfile" where
  "skip n f = f\<lparr>fpos := fpos f + n\<rparr>"

lemma skip_0 [simp]: "skip 0 f = f" by (simp add: skip_def)
lemma skip_skip [simp]: "skip m (skip n f) = skip (n + m) f" by (simp add: skip_def add.assoc)
lemma content_skip [simp]: "content (skip n f) = content f" by (simp add: skip_def)
lemma fpos_skip [simp]: "fpos (skip n f) = fpos f + n" by (simp add: skip_def)
lemma remaining_skip: "remaining (skip n f) = drop n (remaining f)" by (simp add: remaining_def add.commute)
lemma remaining_fopen [simp]: "remaining (fopen bs) = bs" by (simp add: remaining_def fopen_def)

lemma fgetc_Cons:
  assumes "remaining f = c # r"
  shows "fgetc f = (Some c, skip 1 f)"
proof -
  have "fpos f < length (content f)" using assms by (simp add: remaining_def drop_eq_Nil flip: not_le) (metis drop_eq_Nil list.distinct(1))
  then show ?thesis using assms by (simp add: fgetc_def skip_def remaining_def nth_via_drop)
qed

lemma fgetc_Nil: "remaining f = [] \<Longrightarrow> fgetc f = (None, f)"
  by (simp add: remaining_def fgetc_def)

lemma bit_63_unat: "bit l 63 \<longleftrightarrow> 2 ^ 63 \<le> unat l" for l :: LONG
proof -
  have "bit l 63 \<longleftrightarrow> odd (unat l div 2 ^ 63)" using bit_unsigned_iff[of l 63, where 'a = nat] by (simp add: bit_iff_odd)
  moreover have "unat l < 2 * 2 ^ 63" using unsigned_less[of l, where ?'a = nat] by simp
  ultimately show ?thesis by (cases "2 ^ 63 \<le> unat l") (simp_all add: div_nat_eqI[of _ 1])
qed

lemma nonneg_bit: "0 \<le>s l \<longleftrightarrow> \<not> bit l 63" for l :: LONG
  using bit_last_iff[of l] by (auto simp: word_sle_eq)

lemma nonneg_unat: "0 \<le>s l \<longleftrightarrow> unat l < 2 ^ 63" for l :: LONG
  by (simp add: nonneg_bit bit_63_unat not_le)

lemma nonneg_shift: "0 \<le>s l \<Longrightarrow> signed_drop_bit 8 l = drop_bit 8 l" for l :: LONG
  by (intro bit_word_eqI) (auto simp: nonneg_bit bit_signed_drop_bit_iff bit_drop_bit_eq dest: bit_imp_le_length)

lemma unat_shift: "0 \<le>s l \<Longrightarrow> unat (signed_drop_bit 8 l) = unat l div 256" for l :: LONG
  by (simp only: nonneg_shift unat_drop_bit_eq) (simp add: drop_bit_eq_div)

lemma shift_nonneg: "0 \<le>s l \<Longrightarrow> 0 \<le>s signed_drop_bit 8 l" for l :: LONG
  unfolding nonneg_unat[of "signed_drop_bit 8 l"] by (simp add: unat_shift nonneg_unat)

lemma count_bytes_digits:
  assumes "0 \<le>s n" "unat n < 256 ^ k"
  shows "\<exists>j. count_bytes n c = Some (c + j) \<and> j \<le> k \<and> unat n < 256 ^ j \<and> (0 < j \<longrightarrow> 256 ^ (j - 1) \<le> unat n)"
  using assms
proof (induction k arbitrary: n c)
  case 0
  then have "n = 0" by (simp add: unat_eq_zero)
  then show ?case by (subst count_bytes.simps) simp
next
  case (Suc k)
  show ?case
  proof (cases "n = 0")
    case True then show ?thesis by (subst count_bytes.simps) simp
  next
    case False
    have u: "unat (signed_drop_bit 8 n) = unat n div 256" using unat_shift Suc.prems by blast
    then have "unat (signed_drop_bit 8 n) < 256 ^ k" using Suc.prems(2) by (simp add: div_less_iff_less_mult mult.commute)
    from Suc.IH[OF shift_nonneg[OF Suc.prems(1)] this, of "Suc c"]
    obtain j where j: "count_bytes (signed_drop_bit 8 n) (Suc c) = Some (Suc c + j)" "j \<le> k"
      "unat n div 256 < 256 ^ j" "0 < j \<longrightarrow> 256 ^ (j - 1) \<le> unat n div 256"
      unfolding u by blast
    have "count_bytes n c = Some (c + Suc j)" using False j(1) by (subst count_bytes.simps) simp
    moreover have "unat n < 256 ^ Suc j" using j(3) by (simp add: div_less_iff_less_mult mult.commute)
    moreover have "256 ^ j \<le> unat n"
      using j(4) False by (cases j) (auto simp: less_eq_div_iff_mult_less_eq mult.commute Suc_le_eq unat_gt_0)
    ultimately show ?thesis using j(2) by (intro exI[of _ "Suc j"]) simp
  qed
qed

lemma number_bytes_fit:
  assumes "0 \<le>s l"
  obtains tag b where "number_bytes l = Some (tag, b)" "unat l < 256 ^ b"
    "(tag, b) \<in> {(251, 1), (252, 2), (253, 4), (254, 8)}" "b = 8 \<longleftrightarrow> 2 ^ 32 \<le> unat l"
proof -
  let ?n = "signed_drop_bit 8 l"
  have l: "unat l < 2 ^ 63" using assms by (simp add: nonneg_unat)
  then have u: "unat ?n = unat l div 256" "unat ?n < 256 ^ 7" using unat_shift[OF assms] by simp_all
  from count_bytes_digits[OF shift_nonneg[OF assms] u(2), of 1] obtain j where
    j: "count_bytes ?n 1 = Some (1 + j)" "j \<le> 7" "unat l div 256 < 256 ^ j" "0 < j \<longrightarrow> 256 ^ (j - 1) \<le> unat l div 256"
    unfolding u(1) by blast
  have n: "number_bytes l = Some (bytes_to_tag ! (1 + j), 2 ^ unat (bytes_to_tag ! (1 + j) - 251))"
    using j(1,2) by (simp add: number_bytes_def bytes_to_tag_def)
  have "j \<in> {0, 1, 2, 3, 4, 5, 6, 7}" using j(2) by auto
  then show thesis using that[OF n] j(3,4) l by (auto simp: bytes_to_tag_def)
qed

lemma put_bytes_length [simp]: "length (put_bytes k l) = k"
  by (induction k arbitrary: l) simp_all

lemma low_byte_shift:
  "8 * Suc i \<le> 64 \<Longrightarrow> push_bit (8 * i) (ucast (ucast (l AND 0xFF) :: OCTET)) OR push_bit (8 * Suc i) (drop_bit 8 l) = push_bit (8 * i) (l :: LONG)"
proof (rule bit_word_eqI)
  fix n assume "n < LENGTH(64)" "8 * Suc i \<le> 64"
  moreover have "(l AND 0xFF) = take_bit 8 l" by (simp add: take_bit_eq_mask mask_eq_exp_minus_1)
  moreover have "n - 8 * i < 8 \<and> n < 8 + 8 * i \<or> 8 + 8 * i \<le> n \<and> 8 + (n - (8 + 8 * i)) = n - 8 * i" if "8 * i \<le> n" using that by linarith
  ultimately show "bit (push_bit (8 * i) (ucast (ucast (l AND 0xFF) :: OCTET)) OR push_bit (8 * Suc i) (drop_bit 8 l)) n =
    bit (push_bit (8 * i) l) n"
    by (auto simp: bit_or_iff bit_push_bit_iff bit_unsigned_iff bit_take_bit_iff bit_drop_bit_eq)
qed

lemma get_put_bytes:
  assumes "remaining f = put_bytes k l @ r" "i + k \<le> 8" "0 \<le>s l" "unat l < 256 ^ k"
  shows "get_bytes k i res f = Some (Some (res OR push_bit (8 * i) l), skip k f)"
  using assms
proof (induction k arbitrary: l i res f)
  case 0
  then show ?case by (simp add: unat_eq_zero)
next
  case (Suc k)
  let ?c = "ucast (l AND 0xFF) :: OCTET"
  let ?l = "signed_drop_bit 8 l"
  have "remaining (skip 1 f) = put_bytes k ?l @ r" using Suc.prems(1) by (simp add: remaining_skip)
  moreover have "unat ?l < 256 ^ k" using Suc.prems(3,4) by (simp add: unat_shift div_less_iff_less_mult mult.commute)
  ultimately have "get_bytes k (Suc i) (res OR push_bit (8 * i) (ucast ?c)) (skip 1 f) =
      Some (Some (res OR push_bit (8 * i) (ucast ?c) OR push_bit (8 * Suc i) ?l), skip (Suc k) f)"
    using Suc.IH[of "skip 1 f" ?l "Suc i"] Suc.prems(2,3) shift_nonneg by (simp add: or.assoc)
  moreover have "fgetc f = (Some ?c, skip 1 f)" using fgetc_Cons Suc.prems(1) by simp
  ultimately show ?case
    using Suc.prems(2) low_byte_shift[of i l] by (simp add: nonneg_shift[OF Suc.prems(3)] or.assoc)
qed

lemma nonneg_sint: "0 \<le>s l \<Longrightarrow> sint l = int (unat l)" for l :: LONG
proof -
  assume "0 \<le>s l"
  then have "int (unat l) < int (2 ^ 63)" unfolding nonneg_unat by (simp only: of_nat_less_iff)
  then show ?thesis using signed_take_bit_int_eq_self[of 63 "uint l"] uint_ge_0[of l] by (simp add: sint_uint)
qed

lemma small_number: "0 \<le>s l \<Longrightarrow> l \<le>s 250 \<Longrightarrow> unat l \<le> 250" for l :: LONG
proof -
  assume "0 \<le>s l" "l \<le>s 250"
  then have "int (unat l) \<le> sint (250 :: LONG)" by (simp only: word_sle_eq flip: nonneg_sint)
  then have "int (unat l) \<le> int 250" by simp
  then show ?thesis by (simp only: of_nat_le_iff)
qed

lemma not_nonneg: "l <s 0 \<Longrightarrow> 0 \<le>s NOT l" "\<not> l <s 0 \<Longrightarrow> 0 \<le>s l" for l :: LONG
  unfolding nonneg_bit word_sless_alt using bit_last_iff[of l] by (auto simp: bit_not_iff)

lemma putl_forms:
  obtains (short) c :: OCTET where "tcoff_putl l = Some ((if l <s 0 then [255] else []) @ [c])" "c \<le> 250"
      "ucast c = (if l <s 0 then NOT l else l)" "tcoff_sizel l = Some (if l <s 0 then 2 else 1)"
  | (long) tag :: LONG and b :: nat and m :: LONG where "tcoff_putl l = Some ((if l <s 0 then [255] else []) @ ucast tag # put_bytes b m)"
      "m = (if l <s 0 then NOT l else l)" "0 \<le>s m" "unat m < 256 ^ b"
      "(tag, b) \<in> {(251, 1), (252, 2), (253, 4), (254, 8)}" "b = 8 \<longleftrightarrow> 2 ^ 32 \<le> unat m"
      "tcoff_sizel l = Some ((if l <s 0 then 2 else 1) + of_nat b)"
proof -
  define m where "m = (if l <s 0 then NOT l else l)"
  have m: "0 \<le>s m" using not_nonneg[of l] by (simp add: m_def)
  have p: "tcoff_putl l = (if 0 \<le>s m \<and> m \<le>s 250 then Some ((if l <s 0 then [255] else []) @ [ucast m])
      else case number_bytes m of None \<Rightarrow> None
           | Some (tag, bytes) \<Rightarrow> Some ((if l <s 0 then [255] else []) @ ucast tag # put_bytes bytes m))"
    unfolding tcoff_putl_def m_def Let_def ..
  have z: "tcoff_sizel l = (if 0 \<le>s m \<and> m \<le>s 250 then Some ((if l <s 0 then 1 else 0) + 1)
      else case number_bytes m of None \<Rightarrow> None | Some (tag, bytes) \<Rightarrow> Some ((if l <s 0 then 1 else 0) + 1 + of_nat bytes))"
    unfolding tcoff_sizel_def m_def Let_def ..
  show thesis
  proof (cases "m \<le>s 250")
    case True
    have s: "unat m \<le> 250" using small_number[OF m True] .
    then have "take_bit 8 (unat m) = unat m" by (simp add: take_bit_nat_eq_self)
    then have c: "unat (ucast m :: OCTET) = unat m" by (simp add: unsigned_ucast_eq unsigned_take_bit_eq)
    then have "(ucast m :: OCTET) \<le> 250" using s by (simp add: word_le_nat_alt)
    moreover have "ucast (ucast m :: OCTET) = m" using c s by (simp add: word_unat_eq_iff unsigned_ucast_eq unsigned_take_bit_eq take_bit_nat_eq_self)
    ultimately show thesis using m True p z by (intro short[of "ucast m"]) (simp_all add: m_def)
  next
    case False
    obtain tag b where n: "number_bytes m = Some (tag, b)" "unat m < 256 ^ b"
      "(tag, b) \<in> {(251, 1), (252, 2), (253, 4), (254, 8)}" "b = 8 \<longleftrightarrow> 2 ^ 32 \<le> unat m"
      by (rule number_bytes_fit[OF m])
    show thesis using False p z n m by (intro long[of tag b m]) (simp_all add: m_def)
  qed
qed


lemma getl_short:
  assumes "remaining f = c # r" "c \<le> 250"
  shows "tcoff_getl_test f = Some ((ucast c, True), skip 1 f)"
proof -
  have "c \<noteq> 255" using assms(2) by auto
  then show ?thesis using assms(2) fgetc_Cons[OF assms(1)] by (simp add: tcoff_getl_test_def Let_def)
qed

lemma getl_short_negative:
  assumes "remaining f = 255 # c # r" "c \<le> 250"
  shows "tcoff_getl_test f = Some ((NOT (ucast c), True), skip 2 f)"
proof -
  have "fgetc (skip 1 f) = (Some c, skip 2 f)" using fgetc_Cons[of "skip 1 f" c r] assms(1) by (simp add: remaining_skip)
  then show ?thesis using assms(2) fgetc_Cons[OF assms(1)] by (simp add: tcoff_getl_test_def Let_def)
qed

lemma getl_long:
  assumes "remaining f = (if neg then [255] else []) @ ucast tag # put_bytes b m @ r" "0 \<le>s m" "unat m < 256 ^ b"
    "(tag :: LONG, b) \<in> {(251, 1), (252, 2), (253, 4), (254, 8)}"
  shows "tcoff_getl_test f = Some ((if neg then NOT m else m, True), skip ((if neg then 2 else 1) + b) f)"
proof -
  let ?f = "skip (if neg then 1 else 0) f"
  let ?g = "skip (if neg then 2 else 1) f"
  let ?t = "ucast tag :: OCTET"
  have r: "remaining ?f = ?t # put_bytes b m @ r" using assms(1) by (simp add: remaining_skip)
  have t: "(?t, b) \<in> {(251, 1), (252, 2), (253, 4), (254, 8)}" using assms(4) by auto
  have ft: "fgetc ?f = (Some ?t, ?g)" using fgetc_Cons[OF r] by simp
  have first: "neg \<Longrightarrow> fgetc f = (Some 255, ?f)" using fgetc_Cons[of f 255] assms(1) by simp
  have "remaining ?g = put_bytes b m @ r" using assms(1) by (simp add: remaining_skip)
  moreover have "0 + b \<le> 8" using assms(4) by auto
  ultimately have "get_bytes b 0 0 ?g = Some (Some m, skip b ?g)" using get_put_bytes[of ?g b m r 0 0] assms(2,3) by simp
  moreover have "2 ^ (unat ?t - 251) = b" "\<not> ?t \<le> 250" "?t \<noteq> 255" using t by auto
  ultimately show ?thesis using ft first by (cases neg) (simp_all add: tcoff_getl_test_def Let_def)
qed

lemma putl_some: obtains bs where "tcoff_putl l = Some bs" "tcoff_sizel l = Some (of_nat (length bs))" "1 \<le> length bs" "length bs \<le> 10"
  by (cases rule: putl_forms[of l]) auto

lemma getl_putl:
  assumes "tcoff_putl l = Some bs" "remaining f = bs @ r"
  shows "tcoff_getl_test f = Some ((l, True), skip (length bs) f)"
proof (cases rule: putl_forms[of l])
  case (short c)
  then show ?thesis using assms getl_short[of f c r] getl_short_negative[of f c r] by (auto split: if_splits)
next
  case (long tag b m)
  have "remaining f = (if l <s 0 then [255] else []) @ ucast tag # put_bytes b m @ r" using assms long(1) by simp
  then have "tcoff_getl_test f = Some ((if l <s 0 then NOT m else m, True), skip ((if l <s 0 then 2 else 1) + b) f)"
    by (rule getl_long[OF _ long(3-5)])
  then show ?thesis using long assms(1) by auto
qed

text \<open>
  C27: every 64-bit number can be written, is read back as it was written wherever it stands in
  a file, with nothing of what follows consumed, and takes exactly the number of bytes that
  \<open>tcoff_sizel\<close> computes for it.
\<close>

theorem tcoff_number_round_trip:
  "\<exists>bs. tcoff_putl l = Some bs \<and> tcoff_sizel l = Some (of_nat (length bs)) \<and> 1 \<le> length bs \<and> length bs \<le> 10 \<and>
     tcoff_getl_test \<lparr>content = p @ bs @ r, fpos = length p\<rparr> =
       Some ((l, True), \<lparr>content = p @ bs @ r, fpos = length (p @ bs)\<rparr>)"
proof -
  obtain bs where bs: "tcoff_putl l = Some bs" "tcoff_sizel l = Some (of_nat (length bs))" "1 \<le> length bs" "length bs \<le> 10"
    by (rule putl_some)
  have "tcoff_getl_test \<lparr>content = p @ bs @ r, fpos = length p\<rparr> =
      Some ((l, True), \<lparr>content = p @ bs @ r, fpos = length (p @ bs)\<rparr>)"
    using getl_putl[OF bs(1), of "\<lparr>content = p @ bs @ r, fpos = length p\<rparr>" r] by (simp add: remaining_def skip_def)
  then show ?thesis using bs by blast
qed

lemma strlen_le: "unat (strlen s) \<le> length s"
proof -
  have "unat (strlen s) \<le> length (takeWhile (\<lambda>c. c \<noteq> 0) s)"
    by (simp only: strlen_def unsigned_of_nat) (simp add: take_bit_nat_less_eq_self)
  also have "\<dots> \<le> length s" by (rule length_takeWhile_le)
  finally show ?thesis .
qed

lemma puts_some:
  obtains bs where "tcoff_puts (strlen s) s = Some bs"
    "\<exists>n. tcoff_sizel (strlen s) = Some n \<and> of_nat (length bs) = n + strlen s"
proof -
  obtain n where "tcoff_putl (strlen s) = Some n" "tcoff_sizel (strlen s) = Some (of_nat (length n))"
    by (rule putl_some)
  then show thesis using strlen_le[of s] by (intro that[of "n @ take (unat (strlen s)) s"]) (simp_all add: tcoff_puts_def fwrite_def)
qed

lemma putul_length: "length (tcoff_putul l) = 4"
  by (simp add: tcoff_putul_def eval_nat_numeral)

lemma record_length_prints:
  assumes "tcoff_record_length fmt args res = Some (Inr n)"
  shows "\<exists>body. n = res + of_nat (length body) \<and> (\<forall>fs. tcoff_print_rec fmt args fs = Some (Inr (fs @ body)))"
  using assms
proof (induction "length fmt" arbitrary: fmt args res rule: less_induct)
  case less
  have step: ?case if "n = res + of_nat (length b) + of_nat (length body)"
    "\<forall>fs. tcoff_print_rec fmt args fs = Some (Inr ((fs @ b) @ body))" for b body
    using that by (intro exI[of _ "b @ body"]) (simp add: add.assoc)
  consider (empty) "fmt = []"
    | (string) p s args' where "fmt = CHR ''%'' # CHR ''s'' # p" "args = Arg_string s # args'"
    | (int) p i args' where "fmt = CHR ''%'' # CHR ''l'' # CHR ''d'' # p" "args = Arg_int i # args'"
    | (uint) p i args' where "fmt = CHR ''%'' # CHR ''l'' # CHR ''u'' # p" "args = Arg_int i # args'"
    | (blank) p where "fmt = CHR '' '' # p"
    using less.prems by (cases fmt) (auto split: if_splits list.splits rec_arg.splits)
  then show ?case
  proof cases
    case string
    obtain bs m where b: "tcoff_puts (strlen s) s = Some bs" "tcoff_sizel (strlen s) = Some m" "of_nat (length bs) = m + strlen s"
      using puts_some by blast
    have "tcoff_record_length p args' (res + (m + strlen s)) = Some (Inr n)" using less.prems string b by simp
    from less.hyps[OF _ this] b(1,3) string show ?thesis by (auto intro!: step[of bs] simp: add.assoc)
  next
    case int
    obtain bs where b: "tcoff_putl (scast i) = Some bs" "tcoff_sizel (scast i) = Some (of_nat (length bs))"
      by (rule putl_some)
    then have "tcoff_record_length p args' (res + of_nat (length bs)) = Some (Inr n)" using less.prems int by simp
    from less.hyps[OF _ this] b int show ?thesis by (auto intro!: step[of bs] simp: add.assoc)
  next
    case uint
    then have "tcoff_record_length p args' (res + 4) = Some (Inr n)" using less.prems by simp
    from less.hyps[OF _ this] uint show ?thesis by (auto intro!: step[of "tcoff_putul (ucast i)"] simp: putul_length)
  next
    case blank
    then have "tcoff_record_length p args res = Some (Inr n)" using less.prems by simp
    from less.hyps[OF _ this] blank show ?thesis by auto
  qed (use less.prems in simp)
qed

text \<open>
  A record is its tag, the length that \<open>_tcoff_record_length\<close> computes from the format string
  and the arguments, and then exactly that many bytes.
\<close>

theorem record_length_agrees:
  assumes "tcoff_putrec tag fmt args = Some (Inr bs)"
  shows "\<exists>t l body. bs = t @ l @ body \<and> tcoff_putl tag = Some t \<and> tcoff_putl (of_nat (length body)) = Some l"
proof -
  obtain t where t: "tcoff_putl tag = Some t" by (rule putl_some)
  obtain n where n: "tcoff_record_length fmt args 0 = Some (Inr n)"
    using assms t by (auto simp: tcoff_putrec_def split: option.splits sum.splits)
  obtain l where l: "tcoff_putl n = Some l" by (rule putl_some)
  from record_length_prints[OF n] obtain body where
    "n = of_nat (length body)" "tcoff_print_rec fmt args (t @ l) = Some (Inr ((t @ l) @ body))" by auto
  then show ?thesis using assms t n l by (auto simp: tcoff_putrec_def)
qed

theorem record_length_agrees_witness:
  "\<exists>bs t l body. tcoff_putrec 2 ''%ld%s'' [Arg_int 300, Arg_string [65, 0]] = Some (Inr bs) \<and>
     bs = t @ l @ body \<and> tcoff_putl 2 = Some t \<and> tcoff_putl (of_nat (length body)) = Some l"
proof -
  obtain t where t: "tcoff_putl 2 = Some t" by (rule putl_some)
  obtain i where i: "tcoff_putl 300 = Some i" "tcoff_sizel 300 = Some (of_nat (length i))" by (rule putl_some)
  obtain k where k: "tcoff_putl 1 = Some k" "tcoff_sizel 1 = Some (of_nat (length k))" by (rule putl_some)
  obtain l where l: "tcoff_putl (of_nat (length i) + (of_nat (length k) + 1)) = Some l" by (rule putl_some)
  have "tcoff_putrec 2 ''%ld%s'' [Arg_int 300, Arg_string [65, 0]] = Some (Inr (t @ l @ i @ k @ [65]))"
    by (simp add: tcoff_putrec_def t i k l strlen_def tcoff_puts_def fwrite_def)
  from record_length_agrees[OF this] this show ?thesis by blast
qed

lemma occ21_reads_the_same:
  assumes "remaining f = c # r" "c \<noteq> 254" "tcoff_getl_test f = Some ((l, True), g)"
  shows "occ21_getl_test f = Some ((l, True), g)"
  using assms(2,3) fgetc_Cons[OF assms(1)]
  by (auto simp: occ21_getl_test_def tcoff_getl_test_def Let_def split: prod.splits option.splits if_splits)

lemma up_to_32_bits:
  "l <s 0 \<Longrightarrow> l \<le>s 0xFFFFFFFF" "0 \<le>s l \<Longrightarrow> l \<le>s 0xFFFFFFFF \<longleftrightarrow> unat l < 2 ^ 32" for l :: LONG
proof -
  show "l <s 0 \<Longrightarrow> l \<le>s 0xFFFFFFFF" by (simp add: word_sless_alt word_sle_eq)
  assume "0 \<le>s l"
  then have "l \<le>s 0xFFFFFFFF \<longleftrightarrow> int (unat l) \<le> int 0xFFFFFFFF" by (simp add: word_sle_eq nonneg_sint)
  also have "\<dots> \<longleftrightarrow> unat l < 2 ^ 32" by (simp only: of_nat_le_iff) auto
  finally show "l \<le>s 0xFFFFFFFF \<longleftrightarrow> unat l < 2 ^ 32" .
qed

lemma putl_first:
  assumes "tcoff_putl l = Some bs"
  shows "\<exists>c b. bs = c # b \<and> (c = 254 \<longleftrightarrow> \<not> l \<le>s 0xFFFFFFFF)"
proof (cases rule: putl_forms[of l])
  case (short c)
  have "c \<noteq> 254" using short(2) by auto
  moreover have "unat (ucast c :: LONG) < 2 ^ 32" using unsigned_less[of c, where ?'a = nat] by (simp add: unsigned_ucast_eq take_bit_nat_eq_self)
  then have "l \<le>s 0xFFFFFFFF" using up_to_32_bits[of l] short(3) not_nonneg(2)[of l] by (cases "l <s 0") auto
  ultimately show ?thesis using short(1) assms by (cases "l <s 0") auto
next
  case (long tag b m)
  show ?thesis
  proof (cases "l <s 0")
    case True
    then show ?thesis using up_to_32_bits(1)[OF True] long(1) assms by simp
  next
    case False
    have "l \<le>s 0xFFFFFFFF \<longleftrightarrow> unat m < 2 ^ 32" using up_to_32_bits(2)[of l] not_nonneg(2)[of l] False long(2) by simp
    then have "l \<le>s 0xFFFFFFFF \<longleftrightarrow> b \<noteq> 8" using long(6) by (simp add: not_le)
    moreover have "b \<noteq> 8 \<longleftrightarrow> (ucast tag :: OCTET) \<noteq> 254" using long(5) by auto
    ultimately show ?thesis using long(1) assms False by simp
  qed
qed

lemma occ21_reads_below:
  assumes "tcoff_putl l = Some bs" "l \<le>s 0xFFFFFFFF" "remaining f = bs @ r"
  shows "occ21_getl_test f = Some ((l, True), skip (length bs) f)"
  using putl_first[OF assms(1)] occ21_reads_the_same[OF _ _ getl_putl[OF assms(1,3)]] assms(2,3) by auto

text \<open>
  C36: of the numbers that \<open>tcoff_putl\<close> writes, the compiler's own reader reads back those below
  \<open>2 ^ 32\<close>; a larger one reads as zero, reported as good, with its digits left in the file.
\<close>

theorem compiler_reads_back_below_2_32:
  "\<exists>bs. tcoff_putl l = Some bs \<and>
     occ21_getl_test \<lparr>content = p @ bs @ r, fpos = length p\<rparr> =
       (if l \<le>s 0xFFFFFFFF then Some ((l, True), \<lparr>content = p @ bs @ r, fpos = length (p @ bs)\<rparr>)
        else Some ((0, True), \<lparr>content = p @ bs @ r, fpos = length p + 1\<rparr>))"
proof -
  obtain bs where bs: "tcoff_putl l = Some bs" by (rule putl_some)
  let ?f = "\<lparr>content = p @ bs @ r, fpos = length p\<rparr>"
  have f: "remaining ?f = bs @ r" by (simp add: remaining_def)
  show ?thesis
  proof (cases "l \<le>s 0xFFFFFFFF")
    case True
    then show ?thesis using occ21_reads_below[OF bs True f] bs by (simp add: skip_def)
  next
    case False
    then obtain b where "bs = 254 # b" using putl_first[OF bs] by auto
    then have "remaining ?f = 254 # b @ r" using f by simp
    from fgetc_Cons[OF this] show ?thesis using False bs by (auto simp: occ21_getl_test_def skip_def)
  qed
qed

lemma putl_length: "tcoff_putl l = Some bs \<Longrightarrow> tcoff_sizel l = Some (of_nat (length bs))"
  using putl_some[of l] by (metis option.inject)

end
