(* ===== verification/Librarian.thy ===== *)
theory Librarian
  imports TCOFF_Numbers
begin

text \<open>
  The librarian ilibr (bin/ilibr/ilibr.c): it reads object files, collects the exported and defined
  symbols of their modules in an index, sorts it and writes a library, the index followed by the
  object files. The locals of \<open>index_module\<close> are the record \<open>istate\<close>; the linked lists are lists.
  \<open>qsort\<close> is an insertion sort: C leaves the order of equal elements open, and nothing is proved of
  it. Opening files, messages and the origin text, which is written and never read, are left out.
\<close>


section \<open>Reading records\<close>

definition tcoff_getl :: "LONG io" where
  "tcoff_getl f =
     (case tcoff_getl_test f of
        None \<Rightarrow> None
      | Some ((n, ok), f) \<Rightarrow> if ok then io_return n f else io_fail End_of_file f)"

definition tcoff_gets :: "(OCTET list \<times> LONG) io" where
  "tcoff_gets = io_bind tcoff_gets_test (\<lambda>(str, len, ok).
     case str of Some s \<Rightarrow> if ok then io_return (s, len) else io_fail End_of_file | None \<Rightarrow> io_fail End_of_file)"

fun throw_bytes :: "nat \<Rightarrow> unit io" where
  "throw_bytes 0 f = io_return () f"
| "throw_bytes (Suc k) f = (case fgetc f of (None, f) \<Rightarrow> io_fail End_of_file f | (Some c, f) \<Rightarrow> throw_bytes k f)"

definition seek_on :: "LONG \<Rightarrow> unit io" where
  "seek_on l f = (case fseek_cur l f of (True, f) \<Rightarrow> io_return () f | (False, f) \<Rightarrow> io_fail End_of_file f)"

definition tcoff_throw_record :: "unit io" where
  "tcoff_throw_record = io_bind tcoff_getl (\<lambda>l. if 10240 \<le>s l then seek_on l else throw_bytes (nat (sint l)))"

partial_function (option) throw_value :: "cfile \<Rightarrow> (io_error + unit \<times> cfile) option" where
  "throw_value f =
     io_bind tcoff_getl (\<lambda>n f.
       if (ucast n :: INT32) \<in> {1, 4, 3} then io_bind tcoff_getl (\<lambda>_. io_return ()) f
       else if (ucast n :: INT32) \<in> {6, 7, 8, 9, 10, 11, 12} then io_bind throw_value (\<lambda>_. throw_value) f
       else if (ucast n :: INT32) \<in> {2, 5} then io_return () f
       else io_fail Bad_format f) f"

declare throw_value.simps [code]

partial_function (option) skip_index :: "cfile \<Rightarrow> (io_error + unit \<times> cfile) option" where
  "skip_index f =
     io_bind tcoff_getl (\<lambda>x.
     io_bind tcoff_throw_record (\<lambda>_ f. if x \<noteq> LIB_INDEX_END_TAG then skip_index f else io_return () f)) f"

declare skip_index.simps [code]

definition fcopy :: "cfile \<Rightarrow> (io_error + OCTET list) option" where
  "fcopy infs =
     (let tmppos = ftell infs
      in case io_bind tcoff_getl (\<lambda>x.
                io_bind tcoff_throw_record (\<lambda>_.
                  io_bind tcoff_getl (\<lambda>x.
                    if x = LIB_INDEX_START_TAG
                    then io_bind tcoff_throw_record (\<lambda>_. skip_index)
                    else (\<lambda>f. io_return () (fseek_set tmppos f))))) infs of
           None \<Rightarrow> None
         | Some (Inl e) \<Rightarrow> Some (Inl e)
         | Some (Inr (_, f)) \<Rightarrow> Some (Inr (drop (fpos f) (content f))))"

section \<open>The index\<close>

record s_index =
  ix_rec_len :: LONG
  ix_pos :: ULONG
  ix_trans_func :: LONG
  ix_err_mode :: LONG
  ix_lang :: LONG
  ix_desclen :: LONG
  ix_desc :: "OCTET list"
  ix_strlen :: LONG
  ix_is_origin :: bool
  ix_string :: "OCTET list"
  ix_fname :: string
  ix_total_size :: LONG
  ix_id :: LONG
  ix_defined :: bool

record istate =
  im_index :: "s_index list"
  im_total :: LONG
  im_stack :: "LONG list"
  im_level :: int
  im_sub_index :: "s_index list"
  im_start_pos :: ULONG
  im_trans_func :: LONG
  im_err_mode :: LONG
  im_mod_lang :: LONG
  im_origin :: bool
  im_n :: int

fun tcoff_sizes :: "LONG list \<Rightarrow> LONG option" where
  "tcoff_sizes [] = Some 0"
| "tcoff_sizes (l # ls) =
     (case (tcoff_sizel l, tcoff_sizes ls) of (Some m, Some n) \<Rightarrow> Some (m + n) | _ \<Rightarrow> None)"

definition entry_size :: "LONG \<Rightarrow> LONG option" where
  "entry_size rec_len = (case tcoff_sizes [INDEX_ENTRY_TAG, rec_len] of None \<Rightarrow> None | Some n \<Rightarrow> Some (n + rec_len))"

definition add_entry :: "OCTET list \<Rightarrow> LONG \<Rightarrow> bool \<Rightarrow> string \<Rightarrow> istate \<Rightarrow> istate io" where
  "add_entry str str_len origin fname st =
     io_bind (io_option (tcoff_sizes [im_trans_func st, im_err_mode st, im_mod_lang st, 0, str_len])) (\<lambda>n.
       let rec_len = 4 + n + str_len
       in io_bind (io_option (entry_size rec_len)) (\<lambda>total_size.
            case im_stack st of
              [] \<Rightarrow> (\<lambda>f. None)
            | i # _ \<Rightarrow>
                io_return (st\<lparr>im_total := im_total st + total_size,
                  im_sub_index :=
                    \<lparr>ix_rec_len = rec_len, ix_pos = im_start_pos st, ix_trans_func = im_trans_func st,
                     ix_err_mode = im_err_mode st, ix_lang = im_mod_lang st, ix_desclen = 0, ix_desc = [],
                     ix_strlen = str_len, ix_is_origin = origin, ix_string = str, ix_fname = fname,
                     ix_total_size = total_size, ix_id = i, ix_defined = origin\<rparr> # im_sub_index st\<rparr>)))"

definition next_id :: "istate \<Rightarrow> istate io" where
  "next_id st = (case im_stack st of [] \<Rightarrow> (\<lambda>f. None) | i # stack \<Rightarrow> io_return (st\<lparr>im_stack := (i + 1) # stack\<rparr>))"

definition in_module :: "istate \<Rightarrow> unit io" where
  "in_module st = (if im_level st \<le> 0 then io_fail Bad_format else io_return ())"

definition indexed :: "LONG \<Rightarrow> bool" where
  "indexed scope \<longleftrightarrow> EXPORT_USAGE AND scope \<noteq> 0 \<and> (UNINDEXED_USAGE OR CONDITIONAL_USAGE OR WEAK_USAGE) AND scope = 0"

definition index_section :: "string \<Rightarrow> istate \<Rightarrow> istate io" where
  "index_section fname st =
     io_bind (in_module st) (\<lambda>_.
     io_bind tcoff_getl (\<lambda>_.
     io_bind tcoff_getl (\<lambda>type.
     io_bind tcoff_getl (\<lambda>scope.
     io_bind tcoff_gets (\<lambda>(str, str_len).
     io_bind (if type = 0 \<and> indexed scope then add_entry str str_len False fname st else io_return st) next_id)))))"

definition index_symbol :: "bool \<Rightarrow> string \<Rightarrow> istate \<Rightarrow> istate io" where
  "index_symbol specific fname st =
     io_bind (in_module st) (\<lambda>_.
     io_bind tcoff_getl (\<lambda>_.
     io_bind tcoff_getl (\<lambda>scope.
     io_bind tcoff_gets (\<lambda>(str, str_len).
     io_bind (if specific then tcoff_getl else io_return 0) (\<lambda>_.
     io_bind (if indexed scope then add_entry str str_len (ORIGIN_USAGE AND scope \<noteq> 0) fname st else io_return st)
       next_id)))))"

fun update_entry :: "LONG \<Rightarrow> (s_index \<Rightarrow> s_index) \<Rightarrow> s_index list \<Rightarrow> s_index list" where
  "update_entry i g [] = []"
| "update_entry i g (e # es) = (if ix_id e \<noteq> i then e # update_entry i g es else g e # es)"

definition describe_entry :: "LONG \<Rightarrow> LONG \<Rightarrow> OCTET list \<Rightarrow> LONG \<Rightarrow> istate \<Rightarrow> istate io" where
  "describe_entry i desc_lang desc desc_len st =
     (case find (\<lambda>e. ix_id e = i) (im_sub_index st) of
        None \<Rightarrow> io_return st
      | Some e \<Rightarrow>
          if hd (ix_desc e @ [0]) \<noteq> 0 then io_fail Bad_format
          else io_bind (io_option (tcoff_sizes [ix_lang e, ix_desclen e])) (\<lambda>old.
               io_bind (io_option (tcoff_sizes [desc_lang, desc_len])) (\<lambda>new.
                 let rec_len = ix_rec_len e - (old + ix_desclen e) + (new + desc_len)
                 in io_bind (io_option (entry_size rec_len)) (\<lambda>total_size.
                      io_return (st\<lparr>im_total := im_total st - ix_total_size e + total_size,
                        im_sub_index := update_entry i (\<lambda>e. e\<lparr>ix_rec_len := rec_len, ix_total_size := total_size,
                          ix_lang := desc_lang, ix_desclen := desc_len, ix_desc := desc\<rparr>) (im_sub_index st)\<rparr>)))))"

definition index_descriptor :: "bool \<Rightarrow> istate \<Rightarrow> istate io" where
  "index_descriptor no_desc st =
     io_bind (in_module st) (\<lambda>_.
       if no_desc then io_bind tcoff_throw_record (\<lambda>_. io_return st)
       else io_bind tcoff_getl (\<lambda>_.
            io_bind tcoff_getl (\<lambda>i.
            io_bind tcoff_getl (\<lambda>desc_lang.
            io_bind tcoff_gets (\<lambda>(desc, desc_len). describe_entry i desc_lang desc desc_len st)))))"

definition define_entry :: "LONG \<Rightarrow> istate \<Rightarrow> istate" where
  "define_entry i st = st\<lparr>im_sub_index := update_entry i (\<lambda>e. e\<lparr>ix_defined := True\<rparr>) (im_sub_index st)\<rparr>"

definition index_define :: "bool \<Rightarrow> istate \<Rightarrow> istate io" where
  "index_define symbol st =
     io_bind (in_module st) (\<lambda>_.
     io_bind tcoff_getl (\<lambda>_.
     io_bind tcoff_getl (\<lambda>i.
     io_bind (if symbol then throw_value else io_return ()) (\<lambda>_. io_return (define_entry i st)))))"

definition start_module :: "bool \<Rightarrow> ULONG \<Rightarrow> istate \<Rightarrow> istate io" where
  "start_module no_desc start_pos st =
     io_bind (if im_level st = 0
              then io_bind tcoff_getl (\<lambda>_.
                   io_bind tcoff_getl (\<lambda>trans_func.
                   io_bind tcoff_getl (\<lambda>err_mode.
                   io_bind tcoff_getl (\<lambda>mod_lang.
                   io_bind tcoff_throw_record (\<lambda>_.
                     io_return (st\<lparr>im_origin := True, im_start_pos := start_pos, im_trans_func := trans_func,
                       im_err_mode := err_mode,
                       im_mod_lang := (if no_desc \<and> (mod_lang = LANG_OCCAM \<or> mod_lang = LANG_OCCAM_HARNESS)
                                       then LANG_NOT_KNOWN else mod_lang),
                       im_n := im_n st + 1\<rparr>))))))
              else io_bind tcoff_throw_record (\<lambda>_. io_return st))
       (\<lambda>st. io_return (st\<lparr>im_stack := 0 # im_stack st, im_level := im_level st + 1\<rparr>))"

definition end_module :: "istate \<Rightarrow> istate io" where
  "end_module st =
     (case im_stack st of
        [] \<Rightarrow> io_fail Bad_format
      | _ # stack \<Rightarrow>
          (let st = st\<lparr>im_level := im_level st - 1\<rparr>;
               st = (if im_level st = 0
                     then st\<lparr>im_index := im_sub_index st @ im_index st, im_sub_index := []\<rparr> else st);
               st = st\<lparr>im_stack := stack\<rparr>
           in io_bind tcoff_throw_record (\<lambda>_. io_return st)))"

definition index_version :: "istate \<Rightarrow> istate io" where
  "index_version st =
     io_bind tcoff_getl (\<lambda>_.
     io_bind tcoff_throw_record (\<lambda>_.
     io_bind tcoff_gets (\<lambda>_. if im_origin st then io_return st else (\<lambda>f. None))))"

definition index_record :: "bool \<Rightarrow> LONG \<Rightarrow> string \<Rightarrow> ULONG \<Rightarrow> LONG \<Rightarrow> istate \<Rightarrow> istate io" where
  "index_record no_desc start_tag fname start_pos x st =
     (if x = SECTION_TAG then index_section fname st
      else if x = SPECIFIC_SYMBOL_TAG \<or> x = SYMBOL_TAG then index_symbol (x = SPECIFIC_SYMBOL_TAG) fname st
      else if x = DESCRIPTOR_TAG then index_descriptor no_desc st
      else if x = DEFINE_LABEL_TAG then index_define False st
      else if x = DEFINE_SYMBOL_TAG then index_define True st
      else if x = START_MODULE_TAG then start_module no_desc start_pos st
      else if x = END_MODULE_TAG then end_module st
      else if x = LINKABLE_TAG \<and> start_tag \<noteq> LINKABLE_TAG \<or> x = LINKED_UNIT_TAG \<and> start_tag \<noteq> LINKED_UNIT_TAG
      then io_fail Mix
      else if x = VERSION_TAG then index_version st
      else io_bind tcoff_throw_record (\<lambda>_. io_return st))"

definition read_tag :: "(LONG \<times> bool) io" where
  "read_tag f = (case tcoff_getl_test f of None \<Rightarrow> None | Some (r, f) \<Rightarrow> io_return r f)"

partial_function (option) index_loop ::
    "bool \<Rightarrow> LONG \<Rightarrow> string \<Rightarrow> ULONG \<Rightarrow> istate \<Rightarrow> cfile \<Rightarrow> (io_error + istate \<times> cfile) option" where
  "index_loop no_desc start_tag fname fstart st f =
     (let p = ftell f
      in io_bind read_tag (\<lambda>x f.
           if snd x then io_bind (index_record no_desc start_tag fname (fstart + p) (fst x) st)
                           (index_loop no_desc start_tag fname fstart) f
           else io_return st f) f)"

declare index_loop.simps [code]

definition index_start :: "s_index list \<Rightarrow> LONG \<Rightarrow> istate" where
  "index_start index tot =
     \<lparr>im_index = index, im_total = tot, im_stack = [], im_level = 0, im_sub_index = [], im_start_pos = 0,
      im_trans_func = 0, im_err_mode = 0, im_mod_lang = 0, im_origin = False, im_n = 0\<rparr>"

definition index_module ::
    "bool \<Rightarrow> LONG \<Rightarrow> string \<Rightarrow> ULONG \<Rightarrow> s_index list \<Rightarrow> LONG \<Rightarrow> (s_index list \<times> LONG) io" where
  "index_module no_desc start_tag fname fstart index tot =
     io_bind (index_loop no_desc start_tag fname fstart (index_start index tot))
       (\<lambda>st. io_return (im_index st, im_total st))"

section \<open>Stripping and sorting\<close>

fun strip_loop :: "s_index list \<Rightarrow> s_index list \<Rightarrow> LONG \<Rightarrow> s_index list \<times> LONG" where
  "strip_loop [] new_index tot = (new_index, tot)"
| "strip_loop (e # index) new_index tot =
     (if ix_defined e then strip_loop index (e # new_index) tot
      else strip_loop index new_index (tot - ix_total_size e))"

definition strip_index :: "s_index list \<Rightarrow> LONG \<Rightarrow> s_index list \<times> LONG" where
  "strip_index index tot = strip_loop index [] tot"

partial_function (option) n_bits :: "LONG \<Rightarrow> INT32 \<Rightarrow> INT32 option" where
  "n_bits n tot = (if n \<noteq> 0 then n_bits (signed_drop_bit 1 n) (tot + ucast (n AND 1)) else Some tot)"

declare n_bits.simps [code]

fun strcmp :: "OCTET list \<Rightarrow> OCTET list \<Rightarrow> int" where
  "strcmp (x # xs) (y # ys) =
     (if x = y then (if x = 0 then 0 else strcmp xs ys) else if x < y then - 1 else 1)"
| "strcmp [] (y # ys) = (if y = 0 then 0 else - 1)"
| "strcmp (x # xs) [] = (if x = 0 then 0 else 1)"
| "strcmp [] [] = 0"

definition entry_bits :: "s_index \<Rightarrow> INT32 option" where
  "entry_bits e =
     (case (n_bits (ix_trans_func e) 0, n_bits (ix_err_mode e) 0) of (Some m, Some n) \<Rightarrow> Some (m + n) | _ \<Rightarrow> None)"

definition cmp2 :: "s_index \<Rightarrow> s_index \<Rightarrow> int option" where
  "cmp2 a b =
     (case (entry_bits a, entry_bits b) of
        (Some ac, Some bc) \<Rightarrow>
          Some (if bc <s ac then - 1 else if ac <s bc then 1
                else if ix_trans_func b <s ix_trans_func a then - 1
                else if ix_trans_func a <s ix_trans_func b then 1
                else if ix_err_mode b <s ix_err_mode a then - 1
                else if ix_err_mode a <s ix_err_mode b then 1
                else 0)
      | _ \<Rightarrow> None)"

definition cmp :: "s_index \<Rightarrow> s_index \<Rightarrow> int option" where
  "cmp a b =
     (if ix_is_origin a \<and> \<not> ix_is_origin b then Some (- 1)
      else if ix_is_origin b \<and> \<not> ix_is_origin a then Some 1
      else (let res = strcmp (ix_string a) (ix_string b)
            in if res = 0
               then (let ay = ix_err_mode a AND ATTRIB_INSTR_IO \<noteq> 0; bz = ix_err_mode b AND ATTRIB_INSTR_IO \<noteq> 0
                     in if ay \<and> \<not> bz then Some (- 1) else if \<not> ay \<and> bz then Some 1 else cmp2 a b)
               else Some res))"

fun insert_by :: "('a \<Rightarrow> 'a \<Rightarrow> int) \<Rightarrow> 'a \<Rightarrow> 'a list \<Rightarrow> 'a list" where
  "insert_by c x [] = [x]"
| "insert_by c x (y # ys) = (if c x y \<le> 0 then x # y # ys else y # insert_by c x ys)"

fun qsort :: "('a \<Rightarrow> 'a \<Rightarrow> int) \<Rightarrow> 'a list \<Rightarrow> 'a list" where
  "qsort c [] = []"
| "qsort c (x # xs) = insert_by c x (qsort c xs)"

definition sort_index :: "s_index list \<Rightarrow> (io_error + s_index list) option" where
  "sort_index index =
     (if index = [] then Some (Inl No_entries)
      else if list_ex (\<lambda>a. list_ex (\<lambda>b. cmp a b = None) index) index then None
      else Some (Inr (qsort (\<lambda>a b. the (cmp a b)) index)))"

section \<open>Writing the library\<close>

fun concat_options :: "'a list option list \<Rightarrow> 'a list option" where
  "concat_options [] = Some []"
| "concat_options (r # rs) = (case (r, concat_options rs) of (Some x, Some y) \<Rightarrow> Some (x @ y) | _ \<Rightarrow> None)"

definition index_size :: "LONG \<Rightarrow> LONG \<Rightarrow> ULONG option" where
  "index_size start_tag tot =
     (case tcoff_sizes [start_tag, 0, LIB_INDEX_START_TAG, 0, LIB_INDEX_END_TAG, 0] of
        None \<Rightarrow> None
      | Some n \<Rightarrow> Some (n + tot))"

definition write_entry :: "ULONG \<Rightarrow> s_index \<Rightarrow> OCTET list option" where
  "write_entry isize e =
     concat_options [tcoff_putl INDEX_ENTRY_TAG, tcoff_putl (ix_rec_len e), Some (tcoff_putul (ix_pos e + isize)),
       tcoff_putl (ix_trans_func e), tcoff_putl (ix_err_mode e), tcoff_putl (ix_lang e),
       tcoff_putl (ix_desclen e), fwrite (ix_desc e @ [0]) (ix_desclen e),
       tcoff_putl (ix_strlen e), fwrite (ix_string e @ [0]) (ix_strlen e)]"

definition putrec_empty :: "LONG \<Rightarrow> OCTET list option" where
  "putrec_empty tag = (case tcoff_putrec tag '''' [] of Some (Inr bs) \<Rightarrow> Some bs | _ \<Rightarrow> None)"

definition write_index :: "LONG \<Rightarrow> s_index list \<Rightarrow> LONG \<Rightarrow> OCTET list option" where
  "write_index start_tag index tot =
     (case index_size start_tag tot of
        None \<Rightarrow> None
      | Some isize \<Rightarrow>
          concat_options (putrec_empty start_tag # putrec_empty LIB_INDEX_START_TAG #
            map (write_entry isize) index @ [putrec_empty LIB_INDEX_END_TAG]))"

section \<open>The librarian\<close>

record lib_state =
  lib_start_tag :: LONG
  lib_fstart :: ULONG
  lib_index :: "s_index list"
  lib_total :: LONG

definition open_object :: "LONG \<Rightarrow> LONG io" where
  "open_object start_tag =
     io_bind read_tag (\<lambda>(x, ok).
       if \<not> ok \<or> \<not> (x = LINKED_UNIT_TAG \<or> x = LINKABLE_TAG) then io_fail Bad_format
       else if start_tag \<noteq> 0 \<and> x \<noteq> start_tag then io_fail Mix
       else io_bind tcoff_throw_record (\<lambda>_. io_return x))"

definition pass_index :: "bool io" where
  "pass_index f =
     (let tmppos = ftell f
      in io_bind tcoff_getl (\<lambda>x.
           if x = LIB_INDEX_START_TAG
           then io_bind tcoff_throw_record (\<lambda>_. io_bind skip_index (\<lambda>_. io_return True))
           else (\<lambda>f. io_return False (fseek_set tmppos f))) f)"

definition read_object :: "bool \<Rightarrow> string \<Rightarrow> lib_state \<Rightarrow> lib_state io" where
  "read_object no_desc fname st =
     io_bind (open_object (lib_start_tag st)) (\<lambda>start_tag.
     io_bind pass_index (\<lambda>is_library f.
       let fstart = (if is_library then lib_fstart st - ftell f else lib_fstart st)
       in io_bind (index_module no_desc start_tag fname fstart (lib_index st) (lib_total st)) (\<lambda>(index, tot) f.
            io_return \<lparr>lib_start_tag = start_tag, lib_fstart = fstart + ftell f, lib_index = index, lib_total = tot\<rparr> f) f))"

fun read_objects :: "bool \<Rightarrow> (string \<times> OCTET list) list \<Rightarrow> lib_state \<Rightarrow> (io_error + lib_state) option" where
  "read_objects no_desc [] st = Some (Inr st)"
| "read_objects no_desc ((fname, bs) # files) st =
     (case read_object no_desc fname st (fopen bs) of
        None \<Rightarrow> None
      | Some (Inl e) \<Rightarrow> Some (Inl e)
      | Some (Inr (st, f)) \<Rightarrow> read_objects no_desc files st)"

fun copy_objects :: "(string \<times> OCTET list) list \<Rightarrow> (io_error + OCTET list) option" where
  "copy_objects [] = Some (Inr [])"
| "copy_objects ((fname, bs) # files) =
     (case fcopy (fopen bs) of
        None \<Rightarrow> None
      | Some (Inl e) \<Rightarrow> Some (Inl e)
      | Some (Inr out) \<Rightarrow>
          (case copy_objects files of
             None \<Rightarrow> None
           | Some (Inl e) \<Rightarrow> Some (Inl e)
           | Some (Inr rest) \<Rightarrow> Some (Inr (out @ rest))))"

definition lib_start :: lib_state where
  "lib_start = \<lparr>lib_start_tag = 0, lib_fstart = 0, lib_index = [], lib_total = 0\<rparr>"

definition final_index :: "lib_state \<Rightarrow> (io_error + s_index list \<times> LONG) option" where
  "final_index st =
     (let (index, tot) = strip_index (lib_index st) (lib_total st)
      in case sort_index index of
           None \<Rightarrow> None
         | Some (Inl e) \<Rightarrow> Some (Inl e)
         | Some (Inr index) \<Rightarrow> Some (Inr (index, tot)))"

definition mk_index :: "bool \<Rightarrow> (string \<times> OCTET list) list \<Rightarrow> (io_error + OCTET list) option" where
  "mk_index no_desc files =
     (case read_objects no_desc files lib_start of
        None \<Rightarrow> None
      | Some (Inl e) \<Rightarrow> Some (Inl e)
      | Some (Inr st) \<Rightarrow>
          (case final_index st of
             None \<Rightarrow> None
           | Some (Inl e) \<Rightarrow> Some (Inl e)
           | Some (Inr (index, tot)) \<Rightarrow>
               (case write_index (lib_start_tag st) index tot of
                  None \<Rightarrow> None
                | Some out \<Rightarrow>
                    (case copy_objects files of
                       None \<Rightarrow> None
                     | Some (Inl e) \<Rightarrow> Some (Inl e)
                     | Some (Inr body) \<Rightarrow> Some (Inr (out @ body))))))"

end
