(* ===== verification/Librarian_Files.thy ===== *)
theory Librarian_Files
  imports Librarian
begin

text \<open>
  What the reading operations do to a file: they only move on in it, and what they read depends on
  nothing before its position. \<open>forward_intros\<close> collects the rules by which an operation is seen to
  move on.
\<close>

section \<open>What the operations do to the file\<close>

definition onward :: "cfile \<Rightarrow> cfile \<Rightarrow> bool" where
  "onward f g \<longleftrightarrow> content g = content f \<and> fpos f \<le> fpos g"

definition forward :: "'a io \<Rightarrow> bool" where
  "forward m \<longleftrightarrow> (\<forall>f x g. m f = Some (Inr (x, g)) \<longrightarrow> onward f g)"

named_theorems forward_intros

lemma onward_refl [simp]: "onward f f" by (simp add: onward_def)
lemma onward_trans: "onward f g \<Longrightarrow> onward g h \<Longrightarrow> onward f h" by (simp add: onward_def)

lemma forwardD: "forward m \<Longrightarrow> m f = Some (Inr (x, g)) \<Longrightarrow> onward f g" by (auto simp: forward_def)

lemma forward_bind [forward_intros]: "forward m \<Longrightarrow> (\<And>x. forward (k x)) \<Longrightarrow> forward (io_bind m k)"
  unfolding forward_def io_bind_Inr by (meson onward_trans)

lemma forward_if_applied [forward_intros]: "forward m \<Longrightarrow> forward n \<Longrightarrow> forward (\<lambda>f. if b then m f else n f)" by (cases b) simp_all

lemma forward_return [forward_intros]: "forward (io_return x)" by (simp add: forward_def)
lemma forward_fail [forward_intros]: "forward (io_fail e)" by (simp add: forward_def)
lemma forward_option [forward_intros]: "forward (io_option r)" by (simp add: forward_def)
lemma forward_none [forward_intros]: "forward (\<lambda>f. None)" by (simp add: forward_def)
lemma forward_if [forward_intros]: "forward m \<Longrightarrow> forward n \<Longrightarrow> forward (if b then m else n)" by simp
lemma forward_pair [forward_intros]: "(\<And>a b. p = (a, b) \<Longrightarrow> forward (k a b)) \<Longrightarrow> forward (case p of (a, b) \<Rightarrow> k a b)" by (cases p) simp
lemma forward_case [forward_intros]: "forward m \<Longrightarrow> (\<And>x. forward (k x)) \<Longrightarrow> forward (case r of None \<Rightarrow> m | Some x \<Rightarrow> k x)" by (cases r) simp_all
lemma forward_list [forward_intros]: "forward m \<Longrightarrow> (\<And>x xs. forward (k x xs)) \<Longrightarrow> forward (case l of [] \<Rightarrow> m | x # xs \<Rightarrow> k x xs)" by (cases l) simp_all

lemma fgetc_onward: "fgetc f = (r, g) \<Longrightarrow> onward f g"
  by (auto simp: fgetc_def onward_def split: if_splits)

lemma get_bytes_onward: "get_bytes k i res f = Some (r, g) \<Longrightarrow> onward f g"
  by (induction k arbitrary: i res f) (auto split: prod.splits option.splits if_splits dest!: fgetc_onward intro: onward_trans)

lemma getl_onward: "tcoff_getl_test f = Some (r, g) \<Longrightarrow> onward f g"
  by (auto simp: tcoff_getl_test_def Let_def split: prod.splits option.splits if_splits
      dest!: fgetc_onward get_bytes_onward intro: onward_trans)

lemma forward_read_tag [forward_intros]: "forward read_tag"
  by (auto simp: forward_def read_tag_def split: option.splits prod.splits dest: getl_onward)

lemma forward_getl [forward_intros]: "forward tcoff_getl"
  by (auto simp: forward_def tcoff_getl_def split: option.splits prod.splits if_splits dest: getl_onward)

lemma read_string_onward: "read_string k s f = (r, g) \<Longrightarrow> onward f g"
  by (induction k arbitrary: s f) (auto split: prod.splits option.splits dest!: fgetc_onward intro: onward_trans)

lemma forward_gets [forward_intros]: "forward tcoff_gets"
proof -
  have "forward tcoff_gets_test"
    by (auto simp: forward_def tcoff_gets_test_def Let_def split: option.splits prod.splits if_splits
        dest!: getl_onward read_string_onward intro: onward_trans)
  then show ?thesis unfolding tcoff_gets_def by (intro forward_intros)
qed

lemma forward_throw_bytes [forward_intros]: "forward (throw_bytes k)"
proof -
  have "throw_bytes k f = Some (Inr (x, g)) \<Longrightarrow> onward f g" for f x g
    by (induction k arbitrary: f) (auto split: prod.splits option.splits dest!: fgetc_onward intro: onward_trans)
  then show ?thesis by (simp add: forward_def)
qed

lemma forward_seek [forward_intros]: "0 \<le>s l \<Longrightarrow> forward (seek_on l)"
  by (auto simp: forward_def seek_on_def fseek_cur_def Let_def onward_def word_sle_eq split: prod.splits bool.splits if_splits)

lemma forward_throw_record [forward_intros]: "forward tcoff_throw_record"
proof -
  have "forward (if 10240 \<le>s l then seek_on l else throw_bytes (nat (sint l)))" for l
    by (cases "10240 \<le>s l") (auto simp: word_sle_eq intro: forward_intros)
  then show ?thesis unfolding tcoff_throw_record_def by (intro forward_bind forward_getl)
qed

lemma forward_rec: "(\<And>f r. rec f = Some r \<Longrightarrow> case r of Inl e \<Rightarrow> True | Inr (x, g) \<Rightarrow> onward f g) \<Longrightarrow> forward rec"
  by (fastforce simp: forward_def)

lemma forward_result: "forward (io_bind m k) \<Longrightarrow> io_bind m k f = Some r \<Longrightarrow> case r of Inl e \<Rightarrow> True | Inr (x, g) \<Rightarrow> onward f g"
  unfolding forward_def by (auto split: sum.splits simp del: io_bind_Inr)

lemma forward_throw_value [forward_intros]: "forward throw_value"
proof (rule forward_rec)
  fix f r assume "throw_value f = Some r"
  then show "case r of Inl e \<Rightarrow> True | Inr (x, g) \<Rightarrow> onward f g"
  proof (induction rule: throw_value.raw_induct[rotated, consumes 1])
    case (1 rec f r)
    have "forward rec" using 1(1) by (rule forward_rec)
    then show ?case by (intro forward_result[OF _ 1(2)] forward_intros)
  qed
qed

lemma forward_skip_index [forward_intros]: "forward skip_index"
proof (rule forward_rec)
  fix f r assume "skip_index f = Some r"
  then show "case r of Inl e \<Rightarrow> True | Inr (x, g) \<Rightarrow> onward f g"
  proof (induction rule: skip_index.raw_induct[rotated, consumes 1])
    case (1 rec f r)
    have "forward rec" using 1(1) by (rule forward_rec)
    then show ?case by (intro forward_result[OF _ 1(2)] forward_intros)
  qed
qed

lemma forward_index_record [forward_intros]: "forward (index_record no_desc start_tag fname start_pos x st)"
proof -
  have "forward (next_id st)" for st unfolding next_id_def by (intro forward_intros)
  moreover have "forward (in_module st)" for st unfolding in_module_def by (intro forward_intros)
  moreover have "forward (add_entry str n b fname st)" for str n b st
    unfolding add_entry_def Let_def by (intro forward_intros)
  moreover have "forward (describe_entry i l d n st)" for i l d n st
    unfolding describe_entry_def Let_def by (intro forward_intros)
  ultimately show ?thesis
    unfolding index_record_def index_section_def index_symbol_def index_descriptor_def index_define_def
      start_module_def end_module_def index_version_def Let_def
    by (intro forward_intros)
qed

lemma forward_index_loop [forward_intros]: "forward (index_loop no_desc start_tag fname fstart st)"
proof (rule forward_rec)
  fix f r assume "index_loop no_desc start_tag fname fstart st f = Some r"
  then show "case r of Inl e \<Rightarrow> True | Inr (x, g) \<Rightarrow> onward f g"
  proof (induction rule: index_loop.raw_induct[rotated, consumes 1])
    case (1 rec no_desc start_tag fname fstart st f r)
    have "forward (rec no_desc start_tag fname fstart st)" for no_desc start_tag fname fstart st
      using 1(1) by (rule forward_rec)
    then show ?case by (intro forward_result[OF _ 1(2)[unfolded Let_def]] forward_intros)
  qed
qed

end
