(* ===== verification/Librarian_Index.thy ===== *)
theory Librarian_Index
  imports Librarian_Files "HOL-Library.Multiset"
begin

text \<open>
  The index of a library: while it is built, the total is the sum of the sizes of its entries,
  every entry has the size of what is written for it, and its position is that of the start of a
  module (\<open>index_inv\<close>, \<open>lib_inv\<close>); so the index that is written has the size that was added to the
  positions, and they are right in the library.
\<close>

section \<open>The index while it is built\<close>

definition entry_ok :: "s_index \<Rightarrow> bool" where
  "entry_ok e \<longleftrightarrow>
     (\<exists>n. tcoff_sizes [ix_trans_func e, ix_err_mode e, ix_lang e, ix_desclen e, ix_strlen e] = Some n \<and>
        ix_rec_len e = 4 + n + ix_desclen e + ix_strlen e) \<and>
     entry_size (ix_rec_len e) = Some (ix_total_size e)"

definition total_sizes :: "s_index list \<Rightarrow> LONG" where
  "total_sizes es = sum_list (map ix_total_size es)"

definition index_inv :: "(ULONG \<Rightarrow> bool) \<Rightarrow> istate \<Rightarrow> bool" where
  "index_inv G st \<longleftrightarrow>
     (\<forall>e \<in> set (im_index st @ im_sub_index st). entry_ok e \<and> G (ix_pos e)) \<and>
     im_total st = total_sizes (im_index st @ im_sub_index st) \<and>
     (0 < im_level st \<longrightarrow> G (im_start_pos st)) \<and>
     im_level st = int (length (im_stack st))"

lemma tcoff_sizes_Cons: "tcoff_sizes (l # ls) = Some n \<longleftrightarrow> (\<exists>a b. tcoff_sizel l = Some a \<and> tcoff_sizes ls = Some b \<and> n = a + b)"
  by (auto split: option.splits)

lemma total_sizes_simps [simp]:
  "total_sizes [] = 0" "total_sizes (e # es) = ix_total_size e + total_sizes es"
  "total_sizes (es @ es') = total_sizes es + total_sizes es'"
  by (simp_all add: total_sizes_def)

lemma index_inv_add:
  assumes "add_entry str n b fname st f = Some (Inr (st', g))" "index_inv G st"
  shows "index_inv G st'"
proof -
  define rec where "rec m = \<lparr>ix_rec_len = 4 + m + n, ix_pos = im_start_pos st, ix_trans_func = im_trans_func st,
    ix_err_mode = im_err_mode st, ix_lang = im_mod_lang st, ix_desclen = 0, ix_desc = [], ix_strlen = n,
    ix_is_origin = b, ix_string = str, ix_fname = fname, ix_total_size = 0, ix_id = 0, ix_defined = b\<rparr>" for m
  from assms(1) obtain m tot i stack where
    s: "tcoff_sizes [im_trans_func st, im_err_mode st, im_mod_lang st, 0, n] = Some m" "entry_size (4 + m + n) = Some tot"
      "im_stack st = i # stack"
    and st': "st' = st\<lparr>im_total := im_total st + tot, im_sub_index := rec m\<lparr>ix_total_size := tot, ix_id := i\<rparr> # im_sub_index st\<rparr>"
    by (cases "im_stack st") (auto simp: add_entry_def Let_def rec_def simp del: tcoff_sizes.simps(2))
  have "entry_ok (rec m\<lparr>ix_total_size := tot, ix_id := i\<rparr>)"
    using s by (simp add: entry_ok_def rec_def del: tcoff_sizes.simps(2))
  moreover have "G (im_start_pos st)" using s(3) assms(2) by (simp add: index_inv_def)
  ultimately show ?thesis using assms(2) unfolding st' by (simp add: index_inv_def rec_def algebra_simps)
qed

lemma index_inv_next: "next_id st f = Some (Inr (st', g)) \<Longrightarrow> index_inv G st \<Longrightarrow> index_inv G st'"
  by (auto simp: next_id_def index_inv_def split: list.splits)

lemma update_found:
  assumes "find (\<lambda>e. ix_id e = i) es = Some e"
  shows "\<exists>xs ys. es = xs @ e # ys \<and> update_entry i h es = xs @ h e # ys"
  using assms
proof (induction es)
  case (Cons a es)
  show ?case
  proof (cases "ix_id a = i")
    case True
    then show ?thesis using Cons.prems by (intro exI[of _ "[]"] exI[of _ es]) simp
  next
    case False
    then obtain xs ys where "es = xs @ e # ys" "update_entry i h es = xs @ h e # ys" using Cons by auto
    then have "a # es = (a # xs) @ e # ys \<and> update_entry i h (a # es) = (a # xs) @ h e # ys" using False by simp
    then show ?thesis by blast
  qed
qed simp

lemma index_inv_describe:
  assumes "describe_entry i l d n st f = Some (Inr (st', g))" "index_inv G st"
  shows "index_inv G st'"
proof (cases "find (\<lambda>e. ix_id e = i) (im_sub_index st)")
  case None
  then show ?thesis using assms by (simp add: describe_entry_def)
next
  case (Some e)
  define old where "old = (ix_lang e, ix_desclen e)"
  from assms(1) Some obtain a b rec_len tot where
    s: "tcoff_sizes [ix_lang e, ix_desclen e] = Some a" "tcoff_sizes [l, n] = Some b"
      "rec_len = ix_rec_len e - (a + ix_desclen e) + (b + n)" "entry_size rec_len = Some tot"
    and st': "st' = st\<lparr>im_total := im_total st - ix_total_size e + tot,
      im_sub_index := update_entry i (\<lambda>e. e\<lparr>ix_rec_len := rec_len, ix_total_size := tot, ix_lang := l,
        ix_desclen := n, ix_desc := d\<rparr>) (im_sub_index st)\<rparr>"
    by (auto simp: describe_entry_def Let_def split: if_splits)
  let ?h = "\<lambda>e. e\<lparr>ix_rec_len := rec_len, ix_total_size := tot, ix_lang := l, ix_desclen := n, ix_desc := d\<rparr>"
  obtain xs ys where sub: "im_sub_index st = xs @ e # ys" "update_entry i ?h (im_sub_index st) = xs @ ?h e # ys"
    using update_found[OF Some] by blast
  have "entry_ok e" using assms(2) sub(1) by (simp add: index_inv_def)
  then have "entry_ok (?h e)" using s
    by (auto simp: entry_ok_def tcoff_sizes_Cons simp del: tcoff_sizes.simps(2))
  then show ?thesis using assms(2) sub unfolding st' by (simp add: index_inv_def algebra_simps)
qed

lemma update_defined:
  "total_sizes (update_entry i (\<lambda>e. e\<lparr>ix_defined := True\<rparr>) es) = total_sizes es"
  "(\<And>e. e \<in> set es \<Longrightarrow> entry_ok e \<and> G (ix_pos e)) \<Longrightarrow>
     e \<in> set (update_entry i (\<lambda>e. e\<lparr>ix_defined := True\<rparr>) es) \<Longrightarrow> entry_ok e \<and> G (ix_pos e)"
proof -
  show "total_sizes (update_entry i (\<lambda>e. e\<lparr>ix_defined := True\<rparr>) es) = total_sizes es"
    by (induction es) simp_all
  have ok: "entry_ok (e\<lparr>ix_defined := True\<rparr>) = entry_ok e" for e by (simp add: entry_ok_def del: tcoff_sizes.simps)
  assume a: "\<And>e. e \<in> set es \<Longrightarrow> entry_ok e \<and> G (ix_pos e)" "e \<in> set (update_entry i (\<lambda>e. e\<lparr>ix_defined := True\<rparr>) es)"
  have "set (update_entry i (\<lambda>e. e\<lparr>ix_defined := True\<rparr>) es) \<subseteq> set es \<union> (\<lambda>e. e\<lparr>ix_defined := True\<rparr>) ` set es"
    by (induction es) auto
  then obtain e' where "e' \<in> set es" "e = e' \<or> e = e'\<lparr>ix_defined := True\<rparr>" using a(2) by blast
  then show "entry_ok e \<and> G (ix_pos e)" using a(1)[of e'] ok by auto
qed

lemma index_inv_define: "index_inv G st \<Longrightarrow> index_inv G (define_entry i st)"
proof -
  assume a: "index_inv G st"
  have "entry_ok e \<and> G (ix_pos e)" if "e \<in> set (update_entry i (\<lambda>e. e\<lparr>ix_defined := True\<rparr>) (im_sub_index st))" for e
    using that by (rule update_defined(2)[rotated]) (use a in \<open>simp add: index_inv_def\<close>)
  then show ?thesis using a update_defined(1) unfolding index_inv_def define_entry_def by (simp add: ball_Un)
qed

lemma index_inv_record:
  assumes "index_record no_desc start_tag fname p x st f = Some (Inr (st', g))" "index_inv G st"
    "x = START_MODULE_TAG \<Longrightarrow> G p"
  shows "index_inv G st'"
proof -
  consider (sec) "index_section fname st f = Some (Inr (st', g))"
    | (sym) b where "index_symbol b fname st f = Some (Inr (st', g))"
    | (descr) "index_descriptor no_desc st f = Some (Inr (st', g))"
    | (defined) b where "index_define b st f = Some (Inr (st', g))"
    | (starts) "x = START_MODULE_TAG" "start_module no_desc p st f = Some (Inr (st', g))"
    | (finish) "end_module st f = Some (Inr (st', g))"
    | (unchanged) "st' = st"
    using assms(1) by (auto simp: index_record_def index_version_def split: if_splits)
  then show ?thesis
  proof cases
    case sec
    then show ?thesis using index_inv_next[OF _ index_inv_add[OF _ assms(2)]] index_inv_next[OF _ assms(2)]
      unfolding index_section_def by (auto split: if_splits)
  next
    case sym
    then show ?thesis using index_inv_next[OF _ index_inv_add[OF _ assms(2)]] index_inv_next[OF _ assms(2)]
      unfolding index_symbol_def by (auto split: if_splits)
  next
    case descr
    then show ?thesis using assms(2) index_inv_describe[OF _ assms(2)] unfolding index_descriptor_def by (auto split: if_splits)
  next
    case defined
    then show ?thesis using index_inv_define[OF assms(2)] unfolding index_define_def by auto
  next
    case starts
    let ?push = "\<lambda>st. st\<lparr>im_stack := 0 # im_stack st, im_level := im_level st + 1\<rparr>"
    show ?thesis
    proof (cases "im_level st = 0")
      case True
      then obtain t e l k where "st' = ?push (st\<lparr>im_origin := True, im_start_pos := p, im_trans_func := t,
          im_err_mode := e, im_mod_lang := l, im_n := k\<rparr>)"
        using starts(2) by (auto simp: start_module_def)
      then show ?thesis using assms(2) assms(3)[OF starts(1)] by (simp add: index_inv_def)
    next
      case False
      then have "st' = ?push st" using starts(2) by (auto simp: start_module_def)
      then show ?thesis using assms(2) False by (simp add: index_inv_def)
    qed
  next
    case finish
    then obtain i stack where stack: "im_stack st = i # stack" by (cases "im_stack st") (simp_all add: end_module_def)
    let ?st = "st\<lparr>im_level := im_level st - 1, im_stack := stack\<rparr>"
    have "st' = (if im_level st = 1 then ?st\<lparr>im_index := im_sub_index st @ im_index st, im_sub_index := []\<rparr> else ?st)"
      using finish stack by (simp add: end_module_def Let_def split: if_splits)
    then show ?thesis using assms(2) stack unfolding index_inv_def by (auto simp: add.commute)
  next
    case unchanged
    then show ?thesis using assms(2) by simp
  qed
qed

section \<open>Reading is local\<close>

definition extends :: "cfile \<Rightarrow> cfile \<Rightarrow> bool" where
  "extends f f' \<longleftrightarrow> (\<exists>r. remaining f' = remaining f @ r)"

lemma fgetc_extends:
  assumes "fgetc f = (Some c, g)" "extends f f'"
  shows "\<exists>g'. fgetc f' = (Some c, g') \<and> extends g g'"
proof -
  obtain r where r: "remaining f' = remaining f @ r" using assms(2) by (auto simp: extends_def)
  have p: "fpos f < length (content f)" "c = content f ! fpos f" "g = skip 1 f"
    using assms(1) by (auto simp: fgetc_def skip_def split: if_splits)
  then have f: "remaining f = c # remaining g" by (simp add: remaining_def Cons_nth_drop_Suc)
  then have "fgetc f' = (Some c, skip 1 f')" using fgetc_Cons r by simp
  moreover have "remaining (skip 1 f') = remaining g @ r" using r f by (simp add: remaining_skip)
  ultimately show ?thesis by (auto simp: extends_def)
qed

lemma get_bytes_extends:
  assumes "get_bytes k i res f = Some (Some x, g)" "extends f f'"
  shows "\<exists>g'. get_bytes k i res f' = Some (Some x, g')"
  using assms
proof (induction k arbitrary: i res f f')
  case (Suc k)
  obtain c h where h: "fgetc f = (Some c, h)" "8 * i < 64"
    "get_bytes k (Suc i) (res OR push_bit (8 * i) (ucast c)) h = Some (Some x, g)"
    using Suc.prems(1) by (auto split: prod.splits option.splits if_splits)
  obtain h' where "fgetc f' = (Some c, h')" "extends h h'" using fgetc_extends[OF h(1) Suc.prems(2)] by blast
  then show ?case using Suc.IH[OF h(3)] h(2) by simp
qed simp

lemma getl_extends:
  assumes "tcoff_getl_test f = Some ((x, True), g)" "extends f f'"
  shows "\<exists>g'. tcoff_getl_test f' = Some ((x, True), g')"
proof -
  obtain c h where h: "fgetc f = (Some c, h)"
    using assms(1) by (auto simp: tcoff_getl_test_def split: prod.splits option.splits)
  obtain h' where h': "fgetc f' = (Some c, h')" "extends h h'" using fgetc_extends[OF h assms(2)] by blast
  define tail where "tail neg c f = (if c \<le> 250 then Some ((if neg then NOT (ucast c) else ucast c, True), f)
     else (case get_bytes (2 ^ (unat c - 251)) 0 0 f of
             None \<Rightarrow> None
           | Some (None, f) \<Rightarrow> Some ((0, False), f)
           | Some (Some res, f) \<Rightarrow> Some ((if neg then NOT res else res :: LONG, True), f)))" for neg :: bool and c :: OCTET and f
  have tail: "\<exists>g'. tail neg c k' = Some ((x, True), g')" if "tail neg c k = Some ((x, True), g)" "extends k k'" for neg c k k'
    using that get_bytes_extends[OF _ that(2)] by (fastforce simp: tail_def split: if_splits option.splits prod.splits)
  show ?thesis
  proof (cases "c = 255")
    case True
    then obtain d k where k: "fgetc h = (Some d, k)" "tail True d k = Some ((x, True), g)"
      using assms(1) h by (auto simp: tcoff_getl_test_def tail_def Let_def split: prod.splits option.splits if_splits)
    obtain k' where "fgetc h' = (Some d, k')" "extends k k'" using fgetc_extends[OF k(1) h'(2)] by blast
    moreover obtain g' where "tail True d k' = Some ((x, True), g')" using tail[OF k(2)] calculation(2) by blast
    ultimately show ?thesis using True h' by (auto simp: tcoff_getl_test_def tail_def Let_def)
  next
    case False
    then have "tail False c h = Some ((x, True), g)" using assms(1) h by (simp add: tcoff_getl_test_def tail_def Let_def)
    then obtain g' where "tail False c h' = Some ((x, True), g')" using tail h'(2) by blast
    then show ?thesis using False h' by (auto simp: tcoff_getl_test_def tail_def Let_def)
  qed
qed

section \<open>The index of a file\<close>

definition module_at :: "OCTET list \<Rightarrow> nat \<Rightarrow> bool" where
  "module_at bs q \<longleftrightarrow> (case tcoff_getl_test \<lparr>content = bs, fpos = q\<rparr> of Some ((x, True), g) \<Rightarrow> x = START_MODULE_TAG | _ \<Rightarrow> False)"

lemma module_at_iff: "module_at bs q \<longleftrightarrow> (\<exists>g. tcoff_getl_test \<lparr>content = bs, fpos = q\<rparr> = Some ((START_MODULE_TAG, True), g))"
  by (auto simp: module_at_def split: option.splits prod.splits bool.splits)

lemma module_at_embedded:
  assumes "module_at bs q" "bs = xs @ ys" "length xs \<le> q"
  shows "module_at (pre @ ys @ post) (length pre + (q - length xs))"
proof -
  obtain g where g: "tcoff_getl_test \<lparr>content = bs, fpos = q\<rparr> = Some ((START_MODULE_TAG, True), g)"
    using assms(1) by (auto simp: module_at_iff)
  have "extends \<lparr>content = bs, fpos = q\<rparr> \<lparr>content = pre @ ys @ post, fpos = length pre + (q - length xs)\<rparr>"
    using assms(2,3) by (simp add: extends_def remaining_def)
  then show ?thesis using getl_extends[OF g] by (auto simp: module_at_iff)
qed

lemma module_at_length: "module_at bs q \<Longrightarrow> q < length bs"
  by (auto simp: module_at_iff tcoff_getl_test_def fgetc_def split: if_splits)

lemma index_inv_loop:
  assumes "index_loop no_desc start_tag fname fstart st f = Some r" "r = Inr (st', g)" "index_inv G st"
    "\<And>q. fpos f \<le> q \<Longrightarrow> module_at (content f) q \<Longrightarrow> G (fstart + of_nat q)"
  shows "index_inv G st'"
  using assms
proof (induction rule: index_loop.raw_induct[rotated, consumes 1])
  case (1 rec no_desc start_tag fname fstart st f r)
  have f: "\<lparr>content = content f, fpos = fpos f\<rparr> = f" by simp
  obtain p h where p: "read_tag f = Some (Inr (p, h))"
    "(if snd p then io_bind (index_record no_desc start_tag fname (fstart + ftell f) (fst p) st) (rec no_desc start_tag fname fstart) h
      else io_return st h) = Some (Inr (st', g))"
    using 1(2) unfolding 1(3) Let_def io_bind_Inr by blast
  obtain x ok where "p = (x, ok)" by (cases p)
  note x = p[unfolded this fst_conv snd_conv]
  show ?case
  proof (cases ok)
    case True
    then obtain st1 k where k: "index_record no_desc start_tag fname (fstart + ftell f) x st h = Some (Inr (st1, k))"
      "rec no_desc start_tag fname fstart st1 k = Some (Inr (st', g))" using x(2) by auto
    have "tcoff_getl_test f = Some ((x, True), h)"
      using x(1) True by (auto simp: read_tag_def split: option.splits)
    then have "G (fstart + ftell f)" if "x = START_MODULE_TAG"
      using 1(5)[of "fpos f"] that f unfolding module_at_iff ftell_def by auto
    then have inv: "index_inv G st1" using index_inv_record[OF k(1) 1(4)] by blast
    have "onward f h" "onward h k" using forwardD[OF forward_read_tag x(1)] forwardD[OF forward_index_record k(1)] .
    then have "content k = content f" "fpos f \<le> fpos k" by (auto simp: onward_def)
    then show ?thesis using 1(1)[OF k(2) refl inv] 1(5) by auto
  next
    case False
    then show ?thesis using x(2) 1(4) by simp
  qed
qed

section \<open>Whole object files\<close>

definition whole_object :: "bool \<Rightarrow> string \<Rightarrow> lib_state \<Rightarrow> OCTET list \<Rightarrow> bool" where
  "whole_object no_desc fname st bs =
     (case io_bind (open_object (lib_start_tag st)) (\<lambda>start_tag.
             io_bind pass_index (\<lambda>is_library f.
               index_loop no_desc start_tag fname
                 (if is_library then lib_fstart st - ftell f else lib_fstart st)
                 (index_start (lib_index st) (lib_total st)) f)) (fopen bs) of
        Some (Inr (im, g)) \<Rightarrow> fpos g = length bs \<and> im_sub_index im = []
      | _ \<Rightarrow> False)"

fun whole_objects :: "bool \<Rightarrow> (string \<times> OCTET list) list \<Rightarrow> lib_state \<Rightarrow> bool" where
  "whole_objects no_desc [] st = True"
| "whole_objects no_desc ((fname, bs) # files) st =
     (whole_object no_desc fname st bs \<and>
      (case read_object no_desc fname st (fopen bs) of
         Some (Inr (st', f)) \<Rightarrow> whole_objects no_desc files st'
       | _ \<Rightarrow> False))"

definition body_pos :: "OCTET list \<Rightarrow> ULONG \<Rightarrow> bool" where
  "body_pos body p \<longleftrightarrow> (\<exists>q. p = of_nat q \<and> module_at body q)"

definition lib_inv :: "OCTET list \<Rightarrow> OCTET list \<Rightarrow> lib_state \<Rightarrow> bool" where
  "lib_inv body pre st \<longleftrightarrow>
     lib_fstart st = of_nat (length pre) \<and> lib_total st = total_sizes (lib_index st) \<and>
     (\<forall>e \<in> set (lib_index st). entry_ok e \<and> body_pos body (ix_pos e))"

lemma getl_read_tag: "tcoff_getl f = Some (Inr (x, g)) \<longleftrightarrow> read_tag f = Some (Inr ((x, True), g))"
  by (auto simp: tcoff_getl_def read_tag_def split: option.splits prod.splits if_splits)

lemma pass_index_content: "pass_index f = Some (Inr (b, g)) \<Longrightarrow> content g = content f"
  unfolding pass_index_def Let_def io_bind_Inr
  by (auto simp: fseek_set_def split: if_splits dest!: forwardD[OF forward_getl] forwardD[OF forward_throw_record]
      forwardD[OF forward_skip_index] simp: onward_def)

lemma copy_after_index:
  assumes "open_object t (fopen bs) = Some (Inr (tag, f))" "pass_index f = Some (Inr (b, g))" "fcopy (fopen bs) = Some (Inr ys)"
  shows "content g = bs" "ys = drop (if b then fpos g else 0) bs"
proof -
  obtain x f' where x: "read_tag (fopen bs) = Some (Inr ((x, True), f'))" "tcoff_throw_record f' = Some (Inr ((), f))"
    using assms(1) unfolding open_object_def io_bind_Inr by (auto split: if_splits)
  have f: "content f = bs" using forwardD[OF forward_read_tag x(1)] forwardD[OF forward_throw_record x(2)] by (simp add: onward_def fopen_def)
  then show g: "content g = bs" using pass_index_content[OF assms(2)] by simp
  obtain y h where y: "tcoff_getl f = Some (Inr (y, h))" using assms(2) unfolding pass_index_def Let_def io_bind_Inr by blast
  have hc: "content h = bs" using forwardD[OF forward_getl y] f by (simp add: onward_def)
  have x': "tcoff_getl (fopen bs) = Some (Inr (x, f'))" using x(1) by (simp add: getl_read_tag)
  show "ys = drop (if b then fpos g else 0) bs"
  proof (cases "y = LIB_INDEX_START_TAG")
    case True
    obtain k where k: "tcoff_throw_record h = Some (Inr ((), k))" "skip_index k = Some (Inr ((), g))" "b"
      using assms(2) y True unfolding pass_index_def Let_def by auto
    show ?thesis using assms(3) x' x(2) y True k g unfolding fcopy_def Let_def by (simp add: io_bind_def)
  next
    case False
    then have "\<not> b" using assms(2) y unfolding pass_index_def Let_def by auto
    then show ?thesis using assms(3) x' x(2) y False hc unfolding fcopy_def Let_def
      by (simp add: io_bind_def io_return_def fseek_set_def ftell_def fopen_def)
  qed
qed

lemma read_object_inv:
  assumes "read_object no_desc fname st (fopen bs) = Some (Inr (st', f))" "whole_object no_desc fname st bs"
    "fcopy (fopen bs) = Some (Inr ys)" "body = pre @ ys @ post" "lib_inv body pre st"
  shows "lib_inv body (pre @ ys) st'"
proof -
  obtain tag h where h: "open_object (lib_start_tag st) (fopen bs) = Some (Inr (tag, h))"
    using assms(1) unfolding read_object_def io_bind_Inr by blast
  obtain b k where k: "pass_index h = Some (Inr (b, k))"
    using assms(1) h unfolding read_object_def io_bind_Inr by auto
  define fstart where "fstart = (if b then lib_fstart st - ftell k else lib_fstart st)"
  let ?im = "index_start (lib_index st) (lib_total st)"
  obtain im g where g: "index_loop no_desc tag fname fstart ?im k = Some (Inr (im, g))"
    and st': "st' = \<lparr>lib_start_tag = tag, lib_fstart = fstart + ftell g, lib_index = im_index im, lib_total = im_total im\<rparr>"
    using assms(1) h k unfolding read_object_def index_module_def fstart_def Let_def by auto
  have whole: "fpos g = length bs" "im_sub_index im = []"
    using assms(2) h k g unfolding whole_object_def fstart_def by (simp_all add: io_bind_def)
  note copied = copy_after_index[OF h k assms(3)]
  let ?cut = "if b then fpos k else 0"
  have fstart: "fstart = of_nat (length pre) - of_nat ?cut" using assms(5) by (simp add: fstart_def lib_inv_def ftell_def)
  have bs: "bs = take ?cut bs @ ys" using copied(2) by (cases b) simp_all
  have cut: "?cut \<le> length bs"
    using forwardD[OF forward_index_loop g] whole(1) by (simp add: onward_def)
  have pos: "body_pos body (fstart + of_nat q)" if "fpos k \<le> q" "module_at (content k) q" for q
  proof -
    have "?cut \<le> q" using that(1) by simp
    moreover have "module_at body (length pre + (q - ?cut))"
      using module_at_embedded[of bs q "take ?cut bs" ys pre post] that(2) copied(1) bs assms(4) cut calculation by simp
    ultimately show ?thesis unfolding body_pos_def fstart
      by (intro exI[of _ "length pre + (q - ?cut)"]) (simp add: of_nat_diff)
  qed
  have "index_inv (body_pos body) ?im" using assms(5) by (simp add: index_inv_def index_start_def lib_inv_def)
  then have inv: "index_inv (body_pos body) im" by (rule index_inv_loop[OF g refl]) (rule pos)
  have "lib_fstart st' = of_nat (length (pre @ ys))"
    using copied(2) whole(1) cut by (simp add: st' fstart ftell_def of_nat_diff)
  then show ?thesis using inv whole(2) by (simp add: lib_inv_def index_inv_def st')
qed

lemma read_objects_inv:
  assumes "read_objects no_desc files st = Some (Inr st')" "whole_objects no_desc files st"
    "copy_objects files = Some (Inr ys)" "body = pre @ ys" "lib_inv body pre st"
  shows "lib_inv body body st'"
  using assms
proof (induction files arbitrary: st pre ys)
  case (Cons a files)
  obtain fname bs where a: "a = (fname, bs)" by (cases a)
  obtain st1 f where r: "read_object no_desc fname st (fopen bs) = Some (Inr (st1, f))" "read_objects no_desc files st1 = Some (Inr st')"
    using Cons.prems(1) a by (auto split: option.splits sum.splits)
  obtain out rest where c: "fcopy (fopen bs) = Some (Inr out)" "copy_objects files = Some (Inr rest)" "ys = out @ rest"
    using Cons.prems(3) a by (auto split: option.splits sum.splits)
  have w: "whole_object no_desc fname st bs" "whole_objects no_desc files st1" using Cons.prems(2) a r(1) by simp_all
  have "lib_inv body (pre @ out) st1"
    using read_object_inv[OF r(1) w(1) c(1) _ Cons.prems(5)] Cons.prems(4) c(3) by simp
  then show ?case using Cons.IH[OF r(2) w(2) c(2)] Cons.prems(4) c(3) by simp
qed simp

section \<open>Writing the index\<close>

lemma tcoff_sizes_some: "\<exists>n. tcoff_sizes ls = Some n"
proof (induction ls)
  case (Cons l ls)
  obtain n where "tcoff_sizel l = Some n" using putl_some[of l] by blast
  then show ?case using Cons by auto
qed simp

lemma concat_options_Cons: "concat_options (r # rs) = Some y \<longleftrightarrow> (\<exists>a b. r = Some a \<and> concat_options rs = Some b \<and> y = a @ b)"
  by (auto split: option.splits)

lemma fwrite_length: "fwrite bs n = Some out \<Longrightarrow> of_nat (length out) = n"
  by (auto simp: fwrite_def split: if_splits)

lemma write_entry_length:
  assumes "entry_ok e" "write_entry isize e = Some bs"
  shows "of_nat (length bs) = ix_total_size e"
proof -
  obtain a b c d f g h i j where w: "tcoff_putl INDEX_ENTRY_TAG = Some a" "tcoff_putl (ix_rec_len e) = Some b"
    "tcoff_putl (ix_trans_func e) = Some c" "tcoff_putl (ix_err_mode e) = Some d" "tcoff_putl (ix_lang e) = Some f"
    "tcoff_putl (ix_desclen e) = Some g" "fwrite (ix_desc e @ [0]) (ix_desclen e) = Some h"
    "tcoff_putl (ix_strlen e) = Some i" "fwrite (ix_string e @ [0]) (ix_strlen e) = Some j"
    and bs: "bs = a @ b @ tcoff_putul (ix_pos e + isize) @ c @ d @ f @ g @ h @ i @ j"
    using assms(2) unfolding write_entry_def concat_options_Cons by auto
  have "ix_rec_len e = of_nat (length c + length d + length f + length g + length i) + 4 + ix_desclen e + ix_strlen e"
    using assms(1) w(3-6,8)[THEN putl_length] by (auto simp: entry_ok_def tcoff_sizes_Cons simp del: tcoff_sizes.simps(2))
  moreover have "ix_total_size e = of_nat (length a + length b) + ix_rec_len e"
    using assms(1) w(1,2)[THEN putl_length]
    by (auto simp: entry_ok_def entry_size_def tcoff_sizes_Cons simp del: tcoff_sizes.simps(2) split: option.splits)
  moreover have "of_nat (length h) = ix_desclen e" "of_nat (length j) = ix_strlen e"
    using w(7,9) fwrite_length by blast+
  ultimately show ?thesis by (simp add: bs putul_length)
qed

lemma write_entries_length:
  "\<forall>e \<in> set es. entry_ok e \<Longrightarrow> concat_options (map (write_entry isize) es @ rs) = Some bs \<Longrightarrow>
     \<exists>ent tl. bs = ent @ tl \<and> concat_options rs = Some tl \<and> of_nat (length ent) = total_sizes es"
proof (induction es arbitrary: bs)
  case (Cons e es)
  obtain a b where ab: "write_entry isize e = Some a" "concat_options (map (write_entry isize) es @ rs) = Some b" "bs = a @ b"
    using Cons.prems(2) by (auto simp: concat_options_Cons simp del: concat_options.simps(2))
  obtain ent tl where "b = ent @ tl" "concat_options rs = Some tl" "of_nat (length ent) = total_sizes es"
    using Cons.IH[OF _ ab(2)] Cons.prems(1) by auto
  moreover have "of_nat (length a) = ix_total_size e" using write_entry_length[OF _ ab(1)] Cons.prems(1) by simp
  ultimately show ?case using ab(3) by (intro exI[of _ "a @ ent"] exI[of _ tl]) simp
qed simp

lemma putrec_empty_length:
  "putrec_empty tag = Some bs \<Longrightarrow> tcoff_sizes [tag, 0] = Some (of_nat (length bs))"
  by (auto simp: putrec_empty_def tcoff_putrec_def split: option.splits sum.splits dest!: putl_length)

lemma write_index_length:
  assumes "write_index tag es tot = Some out" "index_size tag tot = Some isize" "\<forall>e \<in> set es. entry_ok e" "tot = total_sizes es"
  shows "of_nat (length out) = isize"
proof -
  have w: "concat_options (putrec_empty tag # putrec_empty LIB_INDEX_START_TAG #
      map (write_entry isize) es @ [putrec_empty LIB_INDEX_END_TAG]) = Some out"
    using assms(1,2) by (simp add: write_index_def)
  then obtain a b c where abc: "putrec_empty tag = Some a" "putrec_empty LIB_INDEX_START_TAG = Some b"
    "concat_options (map (write_entry isize) es @ [putrec_empty LIB_INDEX_END_TAG]) = Some c" "out = a @ b @ c"
    unfolding concat_options_Cons by blast
  obtain ent tl where e: "c = ent @ tl" "concat_options [putrec_empty LIB_INDEX_END_TAG] = Some tl" "of_nat (length ent) = total_sizes es"
    using write_entries_length[OF assms(3) abc(3)] by blast
  have tl: "putrec_empty LIB_INDEX_END_TAG = Some tl" using e(2) by (auto simp: concat_options_Cons simp del: concat_options.simps(2))
  note s = putrec_empty_length[OF abc(1)] putrec_empty_length[OF abc(2)] putrec_empty_length[OF tl]
  show ?thesis using assms(2,4) s e(1,3) abc(4)
    by (auto simp: index_size_def tcoff_sizes_Cons simp del: tcoff_sizes.simps(2) split: option.splits)
qed

section \<open>Stripping and sorting\<close>

lemma strip_loop_filter:
  "strip_loop es acc tot = (rev (filter ix_defined es) @ acc, tot - total_sizes (filter (\<lambda>e. \<not> ix_defined e) es))"
  by (induction es arbitrary: acc tot) simp_all

lemma total_sizes_filter: "total_sizes es - total_sizes (filter (\<lambda>e. \<not> P e) es) = total_sizes (filter P es)"
proof -
  have "total_sizes es = total_sizes (filter P es) + total_sizes (filter (\<lambda>e. \<not> P e) es)"
    by (induction es) (simp_all add: algebra_simps)
  then show ?thesis by simp
qed

lemma total_sizes_mset: "mset es = mset es' \<Longrightarrow> total_sizes es = total_sizes es'"
  unfolding total_sizes_def by (metis mset_map sum_mset_sum_list)

lemma mset_qsort [simp]: "mset (qsort c xs) = mset xs"
proof -
  have "mset (insert_by c x ys) = add_mset x (mset ys)" for x ys by (induction ys) auto
  then show ?thesis by (induction xs) simp_all
qed

lemma final_index_entries:
  assumes "final_index st = Some (Inr (index, tot))" "lib_total st = total_sizes (lib_index st)"
  shows "mset index = mset (filter ix_defined (lib_index st)) \<and> tot = total_sizes index"
proof -
  let ?es = "rev (filter ix_defined (lib_index st))"
  have "mset index = mset ?es" "tot = total_sizes (lib_index st) - total_sizes (filter (\<lambda>e. \<not> ix_defined e) (lib_index st))"
    using assms by (auto simp: final_index_def strip_index_def strip_loop_filter sort_index_def split: if_splits)
  then show ?thesis using total_sizes_filter total_sizes_mset[of index "filter ix_defined (lib_index st)"] by simp
qed

lemma lib_start_inv: "lib_inv body [] lib_start"
  by (simp add: lib_inv_def lib_start_def)

text \<open>
  C5: the library that the librarian writes from whole object files is the index followed by the
  objects without their own indices; the index takes exactly the size that was computed for it
  beforehand, and the position given in the index for a symbol is that of the start of a module
  in the library.
\<close>

theorem library_index_points_at_modules:
  assumes "mk_index no_desc files = Some (Inr out)" "whole_objects no_desc files lib_start" "length out < 2 ^ 32"
  shows "\<exists>st index tot isize header body.
    read_objects no_desc files lib_start = Some (Inr st) \<and> final_index st = Some (Inr (index, tot)) \<and>
    write_index (lib_start_tag st) index tot = Some header \<and> copy_objects files = Some (Inr body) \<and> out = header @ body \<and>
    index_size (lib_start_tag st) tot = Some isize \<and> length header = unat isize \<and>
    mset index = mset (filter ix_defined (lib_index st)) \<and>
    (\<forall>e \<in> set index. module_at out (unat (ix_pos e + isize)))"
proof -
  obtain st index tot header body where r: "read_objects no_desc files lib_start = Some (Inr st)"
    "final_index st = Some (Inr (index, tot))" "write_index (lib_start_tag st) index tot = Some header"
    "copy_objects files = Some (Inr body)" "out = header @ body"
    using assms(1) by (auto simp: mk_index_def split: option.splits sum.splits)
  have inv: "lib_inv body body st" using read_objects_inv[OF r(1) assms(2) r(4) _ lib_start_inv] by simp
  then have f: "mset index = mset (filter ix_defined (lib_index st))" "tot = total_sizes index"
    using final_index_entries[OF r(2)] by (simp_all add: lib_inv_def)
  have es: "entry_ok e \<and> body_pos body (ix_pos e)" if "e \<in> set index" for e
    using that inv mset_eq_setD[OF f(1)] by (auto simp: lib_inv_def)
  obtain isize where i: "index_size (lib_start_tag st) tot = Some isize"
    using tcoff_sizes_some by (fastforce simp: index_size_def split: option.splits simp del: tcoff_sizes.simps)
  have isize: "of_nat (length header) = isize" using write_index_length[OF r(3) i _ f(2)] es by blast
  have len: "length header < 2 ^ 64" using assms(3) r(5) by simp
  have "module_at out (unat (ix_pos e + isize))" if e: "e \<in> set index" for e
  proof -
    obtain q where q: "ix_pos e = of_nat q" "module_at body q" using es[OF e] by (auto simp: body_pos_def)
    have "q + length header < 2 ^ 64" using module_at_length[OF q(2)] assms(3) r(5) by simp
    then have "unat (ix_pos e + isize) = length header + q"
      unfolding q(1) isize[symmetric] of_nat_add[symmetric] by (simp only: unsigned_of_nat) (simp add: take_bit_nat_eq_self)
    then show ?thesis using module_at_embedded[of body q "[]" body header "[]"] q(2) r(5) by simp
  qed
  moreover have "length header = unat isize" unfolding isize[symmetric] using len
    by (simp only: unsigned_of_nat) (simp add: take_bit_nat_eq_self)
  ultimately show ?thesis using r i f(1) by blast
qed

section \<open>An example\<close>

definition sample_object :: "OCTET list" where
  "sample_object = [1, 0, 2, 4, 1, 2, 3, 0, 30, 3, 2, 1, 65, 14, 1, 0, 3, 0]"

definition sample_library :: "OCTET list" where
  "sample_library =
     [1, 0, 22, 0, 24, 10, 20, 0, 0, 0, 1, 2, 3, 0, 1, 65, 23, 0,
      1, 0, 2, 4, 1, 2, 3, 0, 30, 3, 2, 1, 65, 14, 1, 0, 3, 0]"

lemma sample_files:
  "\<exists>out. mk_index False [(''a'', sample_object), (''b'', sample_library)] = Some (Inr out) \<and> length out < 2 ^ 32"
  "whole_objects False [(''a'', sample_object), (''b'', sample_library)] lib_start"
proof -
  show "whole_objects False [(''a'', sample_object), (''b'', sample_library)] lib_start" by code_simp
  have "\<exists>out. mk_index False [(''a'', sample_object), (''b'', sample_library)] = Some (Inr out) \<and> length out = 66"
  proof -
    have "case mk_index False [(''a'', sample_object), (''b'', sample_library)] of Some (Inr out) \<Rightarrow> length out = 66 | _ \<Rightarrow> False"
      by code_simp
    then show ?thesis by (auto split: option.splits sum.splits)
  qed
  then show "\<exists>out. mk_index False [(''a'', sample_object), (''b'', sample_library)] = Some (Inr out) \<and> length out < 2 ^ 32"
    by auto
qed

theorem library_index_points_at_modules_witness:
  "\<exists>out st index tot isize header body.
    mk_index False [(''a'', sample_object), (''b'', sample_library)] = Some (Inr out) \<and>
    read_objects False [(''a'', sample_object), (''b'', sample_library)] lib_start = Some (Inr st) \<and>
    final_index st = Some (Inr (index, tot)) \<and> out = header @ body \<and> index_size (lib_start_tag st) tot = Some isize \<and>
    length header = unat isize \<and> (\<forall>e \<in> set index. module_at out (unat (ix_pos e + isize)))"
proof -
  obtain out where out: "mk_index False [(''a'', sample_object), (''b'', sample_library)] = Some (Inr out)" "length out < 2 ^ 32"
    using sample_files(1) by blast
  show ?thesis using library_index_points_at_modules[OF out(1) sample_files(2) out(2)] out(1) by blast
qed

section \<open>Damaged input\<close>

definition unclosed_object :: "OCTET list" where
  "unclosed_object = [1, 0, 2, 4, 1, 2, 3, 0, 30, 3, 2, 1, 65, 14, 1, 0]"

definition truncated_object :: "OCTET list" where
  "truncated_object = sample_object @ [20, 252, 0, 40]"

definition misplaces_module :: "bool \<Rightarrow> (string \<times> OCTET list) list \<Rightarrow> bool" where
  "misplaces_module no_desc files \<longleftrightarrow>
     (case mk_index no_desc files of
        Some (Inr out) \<Rightarrow>
          (case read_objects no_desc files lib_start of
             Some (Inr st) \<Rightarrow>
               (case (final_index st, lib_start_tag st) of
                  (Some (Inr (index, tot)), tag) \<Rightarrow>
                    (case index_size tag tot of
                       Some isize \<Rightarrow>
                         list_ex (\<lambda>e. let p = ix_pos e + isize
                           in if of_nat (length out) \<le> p then True else \<not> module_at out (unat p)) index
                     | None \<Rightarrow> False)
                | _ \<Rightarrow> False)
           | _ \<Rightarrow> False)
      | _ \<Rightarrow> False)"


end
