(* ===== verification/Librarian_Order.thy ===== *)
theory Librarian_Order
  imports Librarian_Index "HOL-Library.List_Lexorder" "HOL-Library.Product_Lexorder"
begin

text \<open>
  The order of the index: the comparison function compares keys in a linear order, so sorting
  ends and sorts; its counting of bits does not end for a negative number.
\<close>

section \<open>The order of the index\<close>

definition c_string :: "OCTET list \<Rightarrow> OCTET list" where
  "c_string s = takeWhile (\<lambda>c. c \<noteq> 0) s"

definition sign_of :: "'a :: linorder \<Rightarrow> 'a \<Rightarrow> int" where
  "sign_of x y = (if x < y then - 1 else if y < x then 1 else 0)"

lemma strcmp_sign: "strcmp s t = sign_of (c_string s) (c_string t)"
  by (induction s t rule: strcmp.induct) (auto simp: c_string_def sign_of_def word_gt_0)

lemma nonneg_halve: "0 \<le>s l \<Longrightarrow> signed_drop_bit 1 l = drop_bit 1 l" for l :: LONG
  by (intro bit_word_eqI) (auto simp: nonneg_bit bit_signed_drop_bit_iff bit_drop_bit_eq dest: bit_imp_le_length)

lemma n_bits_below:
  "unat n < 2 ^ j \<Longrightarrow> 0 \<le>s n \<Longrightarrow> \<exists>k. (\<forall>t. n_bits n t = Some (t + of_nat k)) \<and> k \<le> j"
proof (induction j arbitrary: n)
  case 0
  then have "n_bits n t = Some t" for t by (subst n_bits.simps) (simp add: unat_eq_zero)
  then show ?case by simp
next
  case (Suc j)
  have h: "unat (drop_bit 1 n) = unat n div 2" by (simp only: unat_drop_bit_eq) (simp add: drop_bit_eq_div)
  then have "unat (drop_bit 1 n) < 2 ^ j" "0 \<le>s drop_bit 1 n" using Suc.prems by (simp_all add: nonneg_unat)
  from Suc.IH[OF this] obtain k where k: "\<forall>t. n_bits (drop_bit 1 n) t = Some (t + of_nat k)" "k \<le> j" by blast
  show ?case
  proof (cases "n = 0")
    case True
    then have "n_bits n t = Some t" for t by (subst n_bits.simps) simp
    then show ?thesis by (intro exI[of _ 0]) simp
  next
    case False
    have "n_bits n t = Some (t + of_nat (k + of_bool (odd n)))" for t
      using False k(1) nonneg_halve[OF Suc.prems(2)] by (subst n_bits.simps) (simp add: and_one_eq mod_2_eq_odd)
    then show ?thesis using k(2) by (intro exI[of _ "k + of_bool (odd n)"]) simp
  qed
qed

definition ones :: "LONG \<Rightarrow> nat" where
  "ones n = (case n_bits n 0 of Some k \<Rightarrow> unat k | None \<Rightarrow> 0)"

lemma n_bits_ones:
  assumes "0 \<le>s n"
  shows "n_bits n 0 = Some (of_nat (ones n))" "ones n \<le> 63"
proof -
  obtain k where "n_bits n 0 = Some (of_nat k)" "k \<le> 63"
    using n_bits_below[of n 63] assms by (auto simp: nonneg_unat)
  moreover from this have "unat (of_nat k :: INT32) = k" by (simp only: unsigned_of_nat) (simp add: take_bit_nat_eq_self)
  ultimately show "n_bits n 0 = Some (of_nat (ones n))" "ones n \<le> 63" by (simp_all add: ones_def)
qed

lemma neg_bit: "l <s 0 \<longleftrightarrow> bit l 63" for l :: LONG
  using bit_last_iff[of l] by (simp add: word_sless_alt)

lemma n_bits_negative: "n <s 0 \<Longrightarrow> n_bits n t = None"
proof (rule ccontr)
  assume "n <s 0" "n_bits n t \<noteq> None"
  then obtain y where "n_bits n t = Some y" by blast
  then have "\<not> n <s 0"
  proof (induction rule: n_bits.raw_induct[rotated, consumes 1])
    case (1 rec n t y)
    have "bit (signed_drop_bit 1 n) 63 = bit n 63" by (simp add: bit_signed_drop_bit_iff)
    then show ?case using 1 unfolding neg_bit by (cases "n = 0") auto
  qed
  then show False using \<open>n <s 0\<close> by blast
qed

definition index_key :: "s_index \<Rightarrow> bool \<times> OCTET list \<times> bool \<times> int \<times> int \<times> int" where
  "index_key e =
     (\<not> ix_is_origin e, c_string (ix_string e), ix_err_mode e AND ATTRIB_INSTR_IO = 0,
      - int (ones (ix_trans_func e) + ones (ix_err_mode e)), - sint (ix_trans_func e), - sint (ix_err_mode e))"

definition sortable :: "s_index \<Rightarrow> bool" where
  "sortable e \<longleftrightarrow> 0 \<le>s ix_trans_func e \<and> 0 \<le>s ix_err_mode e"

lemma cmp_compares_keys:
  assumes "sortable a" "sortable b"
  shows "cmp a b = Some (sign_of (index_key a) (index_key b))"
proof -
  have bits: "entry_bits e = Some (of_nat (ones (ix_trans_func e) + ones (ix_err_mode e)))"
    "sint (of_nat (ones (ix_trans_func e) + ones (ix_err_mode e)) :: INT32) = int (ones (ix_trans_func e) + ones (ix_err_mode e))"
    if "sortable e" for e
  proof -
    have o: "ones (ix_trans_func e) \<le> 63" "ones (ix_err_mode e) \<le> 63" using that n_bits_ones by (auto simp: sortable_def)
    show "entry_bits e = Some (of_nat (ones (ix_trans_func e) + ones (ix_err_mode e)))"
      using that n_bits_ones by (simp add: entry_bits_def sortable_def)
    show "sint (of_nat (ones (ix_trans_func e) + ones (ix_err_mode e)) :: INT32) = int (ones (ix_trans_func e) + ones (ix_err_mode e))"
      using o by (simp only: signed_of_nat) (simp add: signed_take_bit_int_eq_self)
  qed
  have "cmp2 a b = Some (sign_of
      (- int (ones (ix_trans_func a) + ones (ix_err_mode a)), - sint (ix_trans_func a), - sint (ix_err_mode a))
      (- int (ones (ix_trans_func b) + ones (ix_err_mode b)), - sint (ix_trans_func b), - sint (ix_err_mode b)))"
    unfolding cmp2_def bits(1)[OF assms(1)] bits(1)[OF assms(2)] option.case prod.case word_sless_alt
      bits(2)[OF assms(1)] bits(2)[OF assms(2)]
    by (auto simp: sign_of_def)
  note cmp2 = this
  have pair: "sign_of (x, y) (x', y') = (if x = x' then sign_of y y' else sign_of x x')"
    for x x' :: "'a :: linorder" and y y' :: "'b :: linorder" by (auto simp: sign_of_def)
  show ?thesis
    unfolding cmp_def Let_def strcmp_sign cmp2 index_key_def pair
    by (cases "ix_is_origin a"; cases "ix_is_origin b"; cases "c_string (ix_string a) = c_string (ix_string b)")
       (auto simp: sign_of_def[where ?'a = bool] sign_of_def[where ?'a = "OCTET list"])
qed

lemma set_insert_by [simp]: "set (insert_by c x ys) = insert x (set ys)"
  by (induction ys) auto

lemma sorted_insert_by:
  assumes "\<And>y. y \<in> set ys \<Longrightarrow> c x y \<le> 0 \<longleftrightarrow> k x \<le> (k y :: 'k :: linorder)" "sorted (map k ys)"
  shows "sorted (map k (insert_by c x ys))"
  using assms by (induction ys) auto

lemma set_qsort [simp]: "set (qsort c xs) = set xs"
  by (induction xs) simp_all

lemma sorted_qsort:
  "(\<And>x y. x \<in> set xs \<Longrightarrow> y \<in> set xs \<Longrightarrow> c x y \<le> 0 \<longleftrightarrow> k x \<le> (k y :: 'k :: linorder)) \<Longrightarrow> sorted (map k (qsort c xs))"
  by (induction xs) (auto intro!: sorted_insert_by)

text \<open>
  C29: when the attributes of the modules are not negative, sorting ends and gives the same
  entries, origins first, then by name as C compares strings, then those with the most
  attributes.
\<close>

theorem index_is_sorted:
  assumes "\<forall>e \<in> set index. sortable e" "index \<noteq> []"
  shows "\<exists>es. sort_index index = Some (Inr es) \<and> mset es = mset index \<and> sorted (map index_key es)"
proof -
  have c: "cmp a b = Some (sign_of (index_key a) (index_key b))" if "a \<in> set index" "b \<in> set index" for a b
    using cmp_compares_keys assms(1) that by blast
  then have "\<not> list_ex (\<lambda>a. list_ex (\<lambda>b. cmp a b = None) index) index" by (auto simp: list_ex_iff)
  moreover have "sorted (map index_key (qsort (\<lambda>a b. the (cmp a b)) index))"
    by (rule sorted_qsort) (auto simp: c sign_of_def)
  ultimately show ?thesis using assms(2) by (simp add: sort_index_def)
qed

definition sample_entry :: "OCTET list \<Rightarrow> LONG \<Rightarrow> s_index" where
  "sample_entry name attr =
     \<lparr>ix_rec_len = 0, ix_pos = 0, ix_trans_func = 1, ix_err_mode = attr, ix_lang = 1, ix_desclen = 0, ix_desc = [],
      ix_strlen = 1, ix_is_origin = False, ix_string = name, ix_fname = [], ix_total_size = 0, ix_id = 0, ix_defined = True\<rparr>"

theorem index_is_sorted_witness:
  "\<exists>es. sort_index [sample_entry [66] 1, sample_entry [65] 1, sample_entry [65] 3] = Some (Inr es) \<and>
     mset es = mset [sample_entry [66] 1, sample_entry [65] 1, sample_entry [65] 3] \<and> sorted (map index_key es)"
  by (rule index_is_sorted) (simp_all add: sortable_def sample_entry_def word_sle_eq)

end
