(* ===== verification/TCOFF_Records.thy ===== *)
theory TCOFF_Records
  imports TCOFF_Numbers
begin

text \<open>
  What a program that reads TCOFF relies on, as the locale \<open>record_reader\<close>: the numbers that were
  written are read, and a record is passed over exactly. The librarian and the compiler have each
  their own reading functions, with different states, errors and ranges of numbers; both provide it.
\<close>

section \<open>Records\<close>

definition inside :: "cfile \<Rightarrow> bool" where
  "inside f \<longleftrightarrow> length (content f) < 2 ^ 63 \<and> fpos f \<le> length (content f)"

lemma inside_skip: "inside f \<Longrightarrow> n \<le> length (remaining f) \<Longrightarrow> inside (skip n f)"
  unfolding inside_def remaining_def by auto

definition record_of :: "LONG \<Rightarrow> OCTET list \<Rightarrow> bool" where
  "record_of tag bs \<longleftrightarrow> (\<exists>t l b. bs = t @ l @ b \<and> tcoff_putl tag = Some t \<and> tcoff_putl (of_nat (length b)) = Some l)"

lemma sint_of_nat: "n < 2 ^ 63 \<Longrightarrow> sint (of_nat n :: LONG) = int n"
  by (simp only: signed_of_nat) (simp add: signed_take_bit_int_eq_self)

lemma putrec_record: "tcoff_putrec tag fmt args = Some (Inr bs) \<Longrightarrow> record_of tag bs"
proof -
  assume rec: "tcoff_putrec tag fmt args = Some (Inr bs)"
  obtain t where t: "tcoff_putl tag = Some t" by (rule putl_some)
  obtain n where n: "tcoff_record_length fmt args 0 = Some (Inr n)"
    using rec t by (auto simp: tcoff_putrec_def split: option.splits sum.splits)
  obtain l where l: "tcoff_putl n = Some l" by (rule putl_some)
  from record_length_prints[OF n] obtain body where
    "n = of_nat (length body)" "tcoff_print_rec fmt args (t @ l) = Some (Inr ((t @ l) @ body))" by auto
  then show ?thesis using rec t n l by (auto simp: record_of_def tcoff_putrec_def)
qed

section \<open>Reading records\<close>

locale record_reader =
  fixes file_of :: "'s \<Rightarrow> cfile"
    and upon :: "cfile \<Rightarrow> 's \<Rightarrow> 's"
    and getl :: "(LONG, 's, 'e) run"
    and throw :: "(unit, 's, 'e) run"
    and readable :: "LONG \<Rightarrow> bool"
  assumes file_upon: "file_of (upon f s) = f"
    and upon_upon: "upon f (upon g s) = upon f s"
    and upon_file: "upon (file_of s) s = s"
    and getl_reads: "\<lbrakk>tcoff_putl l = Some bs; readable l; remaining (file_of s) = bs @ r\<rbrakk> \<Longrightarrow>
      getl s = Some (Inr (l, upon (skip (length bs) (file_of s)) s))"
    and throw_skips: "\<lbrakk>tcoff_putl (of_nat (length b)) = Some n; readable (of_nat (length b)); remaining (file_of s) = n @ b @ r; inside (file_of s)\<rbrakk> \<Longrightarrow>
      throw s = Some (Inr ((), upon (skip (length n + length b) (file_of s)) s))"
begin

lemma getl_then:
  "\<lbrakk>tcoff_putl l = Some bs; readable l; remaining (file_of s) = bs @ r\<rbrakk> \<Longrightarrow> io_bind getl k s = k l (upon (skip (length bs) (file_of s)) s)"
  by (simp add: io_bind_def getl_reads)

lemma throw_then:
  "\<lbrakk>tcoff_putl (of_nat (length b)) = Some l; readable (of_nat (length b)); remaining (file_of s) = l @ b @ r; inside (file_of s)\<rbrakk> \<Longrightarrow>
     io_bind throw k s = k () (upon (skip (length l + length b) (file_of s)) s)"
  by (simp add: io_bind_def throw_skips)

lemma remaining_upon: "remaining (file_of s) = bs @ r \<Longrightarrow> remaining (file_of (upon (skip (length bs) (file_of s)) s)) = r"
  by (simp add: file_upon remaining_skip)

lemma record_passes:
  assumes "record_of tag bs" "readable tag" "\<And>n. n \<le> length bs \<Longrightarrow> readable (of_nat n)"
    and "remaining (file_of s) = bs @ r" "inside (file_of s)"
  shows "\<exists>s'. getl s = Some (Inr (tag, s')) \<and> throw s' = Some (Inr ((), upon (skip (length bs) (file_of s)) s))"
proof -
  obtain t l b where b: "bs = t @ l @ b" "tcoff_putl tag = Some t" "tcoff_putl (of_nat (length b)) = Some l"
    using assms(1) by (auto simp: record_of_def)
  let ?s = "upon (skip (length t) (file_of s)) s"
  have r: "remaining (file_of s) = t @ (l @ b @ r)" "readable (of_nat (length b))" using assms(3,4) b(1) by simp_all
  have "inside (file_of ?s)" unfolding file_upon using r(1) by (intro inside_skip[OF assms(5)]) simp
  then have "throw ?s = Some (Inr ((), upon (skip (length l + length b) (file_of ?s)) ?s))"
    using remaining_upon[OF r(1)] by (intro throw_skips[OF b(3) r(2)])
  then show ?thesis using getl_reads[OF b(2) assms(2) r(1)] b(1) by (simp add: file_upon upon_upon add.assoc)
qed

end

end
