(* ===== verification/Librarian_Output.thy ===== *)
theory Librarian_Output
  imports Librarian_Order TCOFF_Records
begin

text \<open>
  A library as input: the index that is written is a sequence of records, passed over exactly.
\<close>

section \<open>Reading records\<close>

lemma getl_reads:
  assumes "tcoff_putl l = Some bs" "remaining f = bs @ r"
  shows "tcoff_getl f = Some (Inr (l, skip (length bs) f))"
  using getl_putl[OF assms] by (simp add: tcoff_getl_def io_return_def)

lemma throw_bytes_skips:
  "k \<le> length (remaining f) \<Longrightarrow> throw_bytes k f = Some (Inr ((), skip k f))"
proof (induction k arbitrary: f)
  case 0
  then show ?case by (simp add: io_return_def)
next
  case (Suc k)
  then obtain c r where "remaining f = c # r" by (cases "remaining f") auto
  then show ?case using Suc.IH[of "skip 1 f"] Suc.prems fgetc_Cons by (simp add: remaining_skip)
qed

lemma throw_record_skips:
  assumes "tcoff_putl (of_nat (length b)) = Some l" "remaining f = l @ b @ r" "inside f"
  shows "tcoff_throw_record f = Some (Inr ((), skip (length l + length b) f))"
proof -
  let ?f = "skip (length l) f"
  have fits: "fpos f + length l + length b \<le> length (content f)" "length (content f) < 2 ^ 63"
    using arg_cong[OF assms(2), of length] assms(3) by (auto simp: remaining_def inside_def)
  then have s: "sint (of_nat (length b) :: LONG) = int (length b)" by (intro sint_of_nat) simp
  have "(if 10240 \<le>s (of_nat (length b) :: LONG) then seek_on (of_nat (length b)) ?f else throw_bytes (length b) ?f) =
      Some (Inr ((), skip (length b) ?f))"
    using fits assms(2) s throw_bytes_skips[of "length b" ?f, unfolded remaining_skip]
    by (auto simp: seek_on_def fseek_cur_def io_return_def remaining_skip skip_def nat_add_distrib)
  then show ?thesis
    using getl_reads[OF assms(1,2)] s by (auto simp: tcoff_throw_record_def io_bind_def split: if_splits)
qed

interpretation ilibr: record_reader "\<lambda>f. f" "\<lambda>f _. f" tcoff_getl tcoff_throw_record "\<lambda>_. True"
  by unfold_locales (auto intro: getl_reads throw_record_skips)

lemma record_skips:
  assumes "record_of tag bs" "remaining f = bs @ r" "inside f"
  shows "\<exists>g. tcoff_getl f = Some (Inr (tag, g)) \<and> tcoff_throw_record g = Some (Inr ((), skip (length bs) f))"
  using ilibr.record_passes[OF assms(1) _ _ assms(2,3)] by simp

section \<open>A library as input\<close>

lemma skip_index_records:
  assumes "\<forall>b \<in> set bs. record_of INDEX_ENTRY_TAG b" "record_of LIB_INDEX_END_TAG e"
    "remaining f = concat bs @ e @ r" "inside f"
  shows "skip_index f = Some (Inr ((), skip (length (concat bs @ e)) f))"
  using assms(1,3,4)
proof (induction bs arbitrary: f)
  case Nil
  then show ?case using record_skips[OF assms(2), of f r] by (subst skip_index.simps) (auto simp: io_bind_def io_return_def)
next
  case (Cons b bs)
  have i: "inside (skip (length b) f)" using Cons.prems(2) by (intro inside_skip[OF Cons.prems(3)]) simp
  have "skip_index (skip (length b) f) = Some (Inr ((), skip (length (concat bs @ e)) (skip (length b) f)))"
    using Cons.prems(1,2) i by (intro Cons.IH) (simp_all add: remaining_skip)
  then show ?case using record_skips[of INDEX_ENTRY_TAG b f "concat bs @ e @ r"] Cons.prems
    by (subst skip_index.simps) (auto simp: io_bind_def add.assoc)
qed

lemma putrec_empty_record: "putrec_empty tag = Some bs \<Longrightarrow> record_of tag bs"
  by (auto simp: putrec_empty_def intro: putrec_record split: option.splits sum.splits)

lemma write_entry_record:
  assumes "entry_ok e" "write_entry isize e = Some bs"
  shows "record_of INDEX_ENTRY_TAG bs"
proof -
  obtain a b c where w: "tcoff_putl INDEX_ENTRY_TAG = Some a" "tcoff_putl (ix_rec_len e) = Some b" "bs = a @ b @ c"
    using assms(2) unfolding write_entry_def concat_options_Cons by auto
  have "of_nat (length bs) = of_nat (length a + length b) + ix_rec_len e"
    using write_entry_length[OF assms] assms(1) w(1,2)[THEN putl_length]
    by (auto simp: entry_ok_def entry_size_def tcoff_sizes_Cons simp del: tcoff_sizes.simps(2) split: option.splits)
  then have "ix_rec_len e = of_nat (length c)" by (simp add: w(3))
  then show ?thesis using w by (auto simp: record_of_def)
qed

lemma write_entries_records:
  "\<forall>e \<in> set es. entry_ok e \<Longrightarrow> concat_options (map (write_entry isize) es @ [z]) = Some out \<Longrightarrow>
     \<exists>bs tl. out = concat bs @ tl \<and> z = Some tl \<and> (\<forall>b \<in> set bs. record_of INDEX_ENTRY_TAG b)"
proof (induction es arbitrary: out)
  case Nil
  then show ?case by (auto split: option.splits intro!: exI[of _ "[]"])
next
  case (Cons e es)
  obtain a b where ab: "write_entry isize e = Some a" "concat_options (map (write_entry isize) es @ [z]) = Some b" "out = a @ b"
    using Cons.prems(2) by (auto simp: concat_options_Cons simp del: concat_options.simps(2))
  obtain bs tl where "b = concat bs @ tl" "z = Some tl" "\<forall>b \<in> set bs. record_of INDEX_ENTRY_TAG b"
    using Cons.IH[OF _ ab(2)] Cons.prems(1) by auto
  then show ?case using ab(3) write_entry_record[OF _ ab(1)] Cons.prems(1) by (intro exI[of _ "a # bs"] exI[of _ tl]) simp
qed

lemma copy_of_written:
  assumes "write_index tag es tot = Some header" "\<forall>e \<in> set es. entry_ok e" "length (header @ body) < 2 ^ 63"
  shows "fcopy (fopen (header @ body)) = Some (Inr body)"
proof -
  obtain isize where "concat_options (putrec_empty tag # putrec_empty LIB_INDEX_START_TAG #
      map (write_entry isize) es @ [putrec_empty LIB_INDEX_END_TAG]) = Some header"
    using assms(1) by (auto simp: write_index_def split: option.splits)
  then obtain a b c where abc: "putrec_empty tag = Some a" "putrec_empty LIB_INDEX_START_TAG = Some b"
    "concat_options (map (write_entry isize) es @ [putrec_empty LIB_INDEX_END_TAG]) = Some c" "header = a @ b @ c"
    unfolding concat_options_Cons by blast
  obtain bs e where e: "c = concat bs @ e" "putrec_empty LIB_INDEX_END_TAG = Some e" "\<forall>b \<in> set bs. record_of INDEX_ENTRY_TAG b"
    using write_entries_records[OF assms(2) abc(3)] by blast
  note recs = putrec_empty_record[OF abc(1)] putrec_empty_record[OF abc(2)] putrec_empty_record[OF e(2)]
  let ?f = "fopen (header @ body)"
  have f: "inside ?f" "remaining ?f = a @ b @ concat bs @ e @ body" using assms(3) abc(4) e(1) by (simp_all add: inside_def fopen_def remaining_def)
  have f2: "inside (skip (length a) ?f)" "remaining (skip (length a) ?f) = b @ concat bs @ e @ body"
    using f inside_skip[OF f(1), of "length a"] by (simp_all add: remaining_skip)
  have f3: "inside (skip (length a + length b) ?f)" "remaining (skip (length a + length b) ?f) = concat bs @ e @ body"
    using f inside_skip[OF f(1), of "length a + length b"] by (simp_all add: remaining_skip)
  obtain g where g: "tcoff_getl ?f = Some (Inr (tag, g))" "tcoff_throw_record g = Some (Inr ((), skip (length a) ?f))"
    using record_skips[OF recs(1) f(2,1)] by blast
  obtain h where h: "tcoff_getl (skip (length a) ?f) = Some (Inr (LIB_INDEX_START_TAG, h))"
    "tcoff_throw_record h = Some (Inr ((), skip (length a + length b) ?f))"
    using record_skips[OF recs(2) f2(2,1)] by auto
  have s: "skip_index (skip (length a + length b) ?f) = Some (Inr ((), skip (length (concat bs @ e)) (skip (length a + length b) ?f)))"
    by (rule skip_index_records[OF e(3) recs(3) f3(2,1)])
  show ?thesis using g h s abc(4) e(1) by (simp add: fcopy_def Let_def io_bind_def fopen_def)
qed

text \<open>
  C6: copying a library into another one copies its objects without its index: what the librarian
  writes is read over record by record, exactly up to the end of the index.
\<close>

theorem library_copies_its_objects:
  assumes "mk_index no_desc files = Some (Inr out)" "whole_objects no_desc files lib_start" "length out < 2 ^ 63"
  shows "\<exists>body. copy_objects files = Some (Inr body) \<and> fcopy (fopen out) = Some (Inr body)"
proof -
  obtain st index tot header body where r: "read_objects no_desc files lib_start = Some (Inr st)"
    "final_index st = Some (Inr (index, tot))" "write_index (lib_start_tag st) index tot = Some header"
    "copy_objects files = Some (Inr body)" "out = header @ body"
    using assms(1) by (auto simp: mk_index_def split: option.splits sum.splits)
  have inv: "lib_inv body body st" using read_objects_inv[OF r(1) assms(2) r(4) _ lib_start_inv] by simp
  then have "mset index = mset (filter ix_defined (lib_index st))"
    using final_index_entries[OF r(2)] by (simp add: lib_inv_def)
  then have "set index = set (filter ix_defined (lib_index st))" by (rule mset_eq_setD)
  then have "\<forall>e \<in> set index. entry_ok e" using inv by (simp add: lib_inv_def)
  then show ?thesis using copy_of_written[OF r(3)] assms(3) r(4,5) by blast
qed

theorem library_copies_its_objects_witness:
  "\<exists>out body. mk_index False [(''a'', sample_object), (''b'', sample_library)] = Some (Inr out) \<and>
     copy_objects [(''a'', sample_object), (''b'', sample_library)] = Some (Inr body) \<and> fcopy (fopen out) = Some (Inr body)"
proof -
  obtain out where out: "mk_index False [(''a'', sample_object), (''b'', sample_library)] = Some (Inr out)" "length out < 2 ^ 32"
    using sample_files(1) by blast
  have "length out < 2 ^ 63" using out(2) by simp
  then show ?thesis using library_copies_its_objects[OF out(1) sample_files(2)] out(1) by blast
qed

end
