(* ===== verification/OCC_Names.thy ===== *)
theory OCC_Names
  imports "HOL-Library.Word"
begin

text \<open>
  The table of names of the compiler (compiler/occ21/fe/strpool.c). A name is a node of the table,
  and everywhere else in the compiler two names are compared by their addresses. The nodes are
  the list \<open>word_nodes\<close>, an address is an index into it; the chain of a hash value lists the
  addresses of its nodes. A string is given by the characters that can be read at its address,
  of which the first \<open>len\<close> are the name; \<open>None\<close> is reading beyond them.
\<close>

section \<open>The table\<close>

definition HASHSIZE :: nat where "HASHSIZE = 511"

record name_table =
  word_nodes :: "string list"
  nametable :: "nat list list"

definition empty_table :: name_table where
  "empty_table = \<lparr>word_nodes = [], nametable = replicate HASHSIZE []\<rparr>"

definition hashed_chars :: "nat \<Rightarrow> nat list" where
  "hashed_chars len =
     (if len > 4 then [0, 1, 2, 3, len div 2, len - 4, len - 3, len - 2, len - 1]
      else if len = 1 then [0]
      else if len = 2 then [0, 1]
      else if len = 3 then [0, 1, 2]
      else [0, 1, 2, 3])"

definition hash_name :: "string \<Rightarrow> nat \<Rightarrow> nat option" where
  "hash_name s len =
     (if \<forall>i\<in>set (hashed_chars len). i < length s
      then Some (unat (sum_list (map (\<lambda>i. of_char (s ! i)) (hashed_chars len)) + (if len > 4 then of_nat len else 0) :: 32 word) mod HASHSIZE)
      else None)"

definition same_name :: "string list \<Rightarrow> string \<Rightarrow> nat \<Rightarrow> nat \<Rightarrow> bool" where
  "same_name nodes s len a \<longleftrightarrow> length (nodes ! a) = len \<and> take len s = nodes ! a"

definition lookupword :: "string \<Rightarrow> nat \<Rightarrow> name_table \<Rightarrow> (nat \<times> name_table) option" where
  "lookupword s len t =
     (case hash_name s len of
        None \<Rightarrow> None
      | Some h \<Rightarrow>
          if length s < len then None
          else (case find (same_name (word_nodes t) s len) (nametable t ! h) of
                  Some a \<Rightarrow> Some (a, t)
                | None \<Rightarrow>
                    let a = length (word_nodes t)
                    in Some (a, t\<lparr>word_nodes := word_nodes t @ [take len s],
                                  nametable := (nametable t)[h := a # nametable t ! h]\<rparr>)))"

section \<open>One node for each name\<close>

lemma hash_name_less: "hash_name s len = Some h \<Longrightarrow> h < HASHSIZE"
  by (auto simp: hash_name_def HASHSIZE_def split: if_splits)

lemma hashed_within: "i \<in> set (hashed_chars len) \<Longrightarrow> 0 < len \<Longrightarrow> i < len"
  by (auto simp: hashed_chars_def split: if_splits)

lemma hash_name_take:
  assumes "0 < len" "len \<le> length s"
  shows "hash_name s len = hash_name (take len s) (length (take len s))" "hash_name s len \<noteq> None"
proof -
  have in_len: "i < len" if "i \<in> set (hashed_chars len)" for i
    using that assms(1) by (rule hashed_within)
  then have chars: "map (\<lambda>i. of_char (s ! i)) (hashed_chars len) = map (\<lambda>i. of_char (take len s ! i) :: 32 word) (hashed_chars len)"
    by simp
  have within: "\<forall>i\<in>set (hashed_chars len). i < length s" "\<forall>i\<in>set (hashed_chars len). i < len"
    using in_len assms(2) by (auto intro: less_le_trans)
  show "hash_name s len = hash_name (take len s) (length (take len s))"
    using assms(2) by (simp only: hash_name_def chars length_take min_absorb2 if_P[OF within(1)] if_P[OF within(2)])
  show "hash_name s len \<noteq> None" using within by (simp add: hash_name_def)
qed

text \<open>
  The addresses in a chain are those of the names with its hash value. Of the empty name nothing
  is said: its hash value is taken from the characters behind it.
\<close>

definition table_ok :: "name_table \<Rightarrow> bool" where
  "table_ok t \<longleftrightarrow>
     length (nametable t) = HASHSIZE \<and>
     (\<forall>h < HASHSIZE. \<forall>a \<in> set (nametable t ! h). a < length (word_nodes t)) \<and>
     (\<forall>a < length (word_nodes t). \<forall>h. word_nodes t ! a \<noteq> [] \<longrightarrow>
        hash_name (word_nodes t ! a) (length (word_nodes t ! a)) = Some h \<longrightarrow> a \<in> set (nametable t ! h)) \<and>
     (\<forall>a < length (word_nodes t). \<forall>b < length (word_nodes t). word_nodes t ! a = word_nodes t ! b \<longrightarrow>
        word_nodes t ! a \<noteq> [] \<longrightarrow> a = b)"

lemma empty_table_ok: "table_ok empty_table"
  by (simp add: table_ok_def empty_table_def)

lemma lookupword_finds:
  assumes ok: "table_ok t" and a: "a < length (word_nodes t)" "word_nodes t ! a = take len s"
    and len: "0 < len" "len \<le> length s"
  shows "lookupword s len t = Some (a, t)"
proof -
  obtain h where h: "hash_name s len = Some h" using hash_name_take(2)[OF len] by auto
  have less: "h < HASHSIZE" using h by (rule hash_name_less)
  have ne: "word_nodes t ! a \<noteq> []" using a(2) len by auto
  have "hash_name (word_nodes t ! a) (length (word_nodes t ! a)) = Some h"
    using h hash_name_take(1)[OF len] a(2) by simp
  then have "a \<in> set (nametable t ! h)" using ok a(1) ne unfolding table_ok_def by blast
  moreover have "same_name (word_nodes t) s len a" using a(2) len by (simp add: same_name_def)
  ultimately obtain b where b: "find (same_name (word_nodes t) s len) (nametable t ! h) = Some b"
    by (metis find_None_iff not_Some_eq)
  then have "b \<in> set (nametable t ! h)" "same_name (word_nodes t) s len b"
    by (auto simp: find_Some_iff)
  then have "b < length (word_nodes t)" "word_nodes t ! b = word_nodes t ! a"
    using ok less a(2) by (auto simp: table_ok_def same_name_def)
  then have "b = a" using ok a(1) ne unfolding table_ok_def by metis
  then show ?thesis using h b len by (simp add: lookupword_def)
qed

lemma lookupword_adds:
  assumes ok: "table_ok t" and new: "\<And>a. a < length (word_nodes t) \<Longrightarrow> word_nodes t ! a \<noteq> take len s"
    and len: "0 < len" "len \<le> length s"
  shows "\<exists>t'. lookupword s len t = Some (length (word_nodes t), t') \<and> table_ok t' \<and> word_nodes t' = word_nodes t @ [take len s]"
proof -
  obtain h where h: "hash_name s len = Some h" using hash_name_take(2)[OF len] by auto
  have less: "h < HASHSIZE" using h by (rule hash_name_less)
  have h': "hash_name (take len s) (length (take len s)) = Some h" using h hash_name_take(1)[OF len] by simp
  have none: "find (same_name (word_nodes t) s len) (nametable t ! h) = None"
    using ok less new unfolding find_None_iff table_ok_def same_name_def by metis
  define t' where "t' = t\<lparr>word_nodes := word_nodes t @ [take len s],
    nametable := (nametable t)[h := length (word_nodes t) # nametable t ! h]\<rparr>"
  have "length (nametable t') = HASHSIZE" using ok by (simp add: t'_def table_ok_def)
  moreover have "\<forall>k < HASHSIZE. \<forall>a \<in> set (nametable t' ! k). a < length (word_nodes t')"
  proof (intro allI impI ballI)
    fix k a assume k: "k < HASHSIZE" and a: "a \<in> set (nametable t' ! k)"
    have "a = length (word_nodes t) \<or> a \<in> set (nametable t ! k)"
      using a less ok by (cases "k = h") (simp_all add: t'_def table_ok_def)
    moreover have "\<forall>a \<in> set (nametable t ! k). a < length (word_nodes t)" using ok k unfolding table_ok_def by blast
    ultimately show "a < length (word_nodes t')" by (auto simp: t'_def)
  qed
  moreover have "\<forall>a < length (word_nodes t'). \<forall>k. word_nodes t' ! a \<noteq> [] \<longrightarrow>
      hash_name (word_nodes t' ! a) (length (word_nodes t' ! a)) = Some k \<longrightarrow> a \<in> set (nametable t' ! k)"
  proof (intro allI impI)
    fix a k assume a: "a < length (word_nodes t')" "word_nodes t' ! a \<noteq> []"
      "hash_name (word_nodes t' ! a) (length (word_nodes t' ! a)) = Some k"
    have k: "k < HASHSIZE" using a(3) by (rule hash_name_less)
    show "a \<in> set (nametable t' ! k)"
    proof (cases "a < length (word_nodes t)")
      case True
      then have "a \<in> set (nametable t ! k)" using ok a unfolding table_ok_def by (simp add: t'_def nth_append)
      then show ?thesis using less ok by (cases "k = h") (simp_all add: t'_def table_ok_def)
    next
      case False
      then have "a = length (word_nodes t)" using a(1) by (simp add: t'_def)
      moreover from this have "k = h" using a(3) h' by (simp add: t'_def)
      ultimately show ?thesis using less ok by (simp add: t'_def table_ok_def)
    qed
  qed
  moreover have "\<forall>a < length (word_nodes t'). \<forall>b < length (word_nodes t'). word_nodes t' ! a = word_nodes t' ! b \<longrightarrow>
      word_nodes t' ! a \<noteq> [] \<longrightarrow> a = b"
    using ok new unfolding table_ok_def t'_def by (simp add: nth_append less_Suc_eq) (metis less_irrefl)
  ultimately have "table_ok t'" by (simp only: table_ok_def simp_thms)
  then show ?thesis using h none len by (auto simp: lookupword_def t'_def Let_def)
qed

lemma lookupword_interns:
  assumes "table_ok t" "0 < len" "len \<le> length s"
  shows "\<exists>a t'. lookupword s len t = Some (a, t') \<and> table_ok t' \<and> a < length (word_nodes t') \<and>
    word_nodes t' ! a = take len s \<and> (\<exists>new. word_nodes t' = word_nodes t @ new)"
proof (cases "\<exists>a < length (word_nodes t). word_nodes t ! a = take len s")
  case True
  then show ?thesis using lookupword_finds[OF assms(1) _ _ assms(2,3)] assms(1) by fastforce
next
  case False
  then show ?thesis using lookupword_adds[OF assms(1) _ assms(2,3)] by fastforce
qed

text \<open>The words of a source text are looked up one after the other.\<close>

fun lookup_all :: "(string \<times> nat) list \<Rightarrow> name_table \<Rightarrow> (nat list \<times> name_table) option" where
  "lookup_all [] t = Some ([], t)"
| "lookup_all ((s, len) # ws) t =
     (case lookupword s len t of
        None \<Rightarrow> None
      | Some (a, t) \<Rightarrow> (case lookup_all ws t of None \<Rightarrow> None | Some (as, t) \<Rightarrow> Some (a # as, t)))"

lemma lookup_all_interns:
  assumes "table_ok t" "\<And>s len. (s, len) \<in> set ws \<Longrightarrow> 0 < len \<and> len \<le> length s"
  shows "\<exists>as t'. lookup_all ws t = Some (as, t') \<and> table_ok t' \<and> length as = length ws \<and>
    (\<forall>i < length ws. as ! i < length (word_nodes t') \<and> word_nodes t' ! (as ! i) = take (snd (ws ! i)) (fst (ws ! i))) \<and>
    (\<exists>new. word_nodes t' = word_nodes t @ new)"
  using assms
proof (induction ws arbitrary: t)
  case (Cons w ws)
  obtain s len where w: "w = (s, len)" by (cases w)
  obtain a t1 where 1: "lookupword s len t = Some (a, t1)" "table_ok t1" "a < length (word_nodes t1)"
      "word_nodes t1 ! a = take len s" "\<exists>new. word_nodes t1 = word_nodes t @ new"
    using lookupword_interns[OF Cons.prems(1), of len s] Cons.prems(2)[of s len] w by auto
  obtain as t2 where 2: "lookup_all ws t1 = Some (as, t2)" "table_ok t2" "length as = length ws"
      "\<forall>i < length ws. as ! i < length (word_nodes t2) \<and> word_nodes t2 ! (as ! i) = take (snd (ws ! i)) (fst (ws ! i))"
      "\<exists>new. word_nodes t2 = word_nodes t1 @ new"
    using Cons.IH[OF 1(2)] Cons.prems(2) by fastforce
  have "\<forall>i < length (w # ws). (a # as) ! i < length (word_nodes t2) \<and>
      word_nodes t2 ! ((a # as) ! i) = take (snd ((w # ws) ! i)) (fst ((w # ws) ! i))"
    using 1(3,4) 2(4,5) w by (auto simp: nth_Cons nth_append split: nat.splits)
  moreover have "\<exists>new. word_nodes t2 = word_nodes t @ new" using 1(5) 2(5) by auto
  ultimately show ?case using w 1(1) 2(1,2,3) by simp
qed simp

text \<open>C12: Names looked up in any order have the same node exactly if they are the same string,
  however the strings are stored.\<close>

theorem same_node_iff_same_name:
  assumes "\<And>s len. (s, len) \<in> set ws \<Longrightarrow> 0 < len \<and> len \<le> length s"
  shows "\<exists>as t. lookup_all ws empty_table = Some (as, t) \<and> length as = length ws \<and>
    (\<forall>i < length ws. \<forall>j < length ws. (as ! i = as ! j) = (take (snd (ws ! i)) (fst (ws ! i)) = take (snd (ws ! j)) (fst (ws ! j))))"
proof -
  obtain as t where t: "lookup_all ws empty_table = Some (as, t)" "table_ok t" "length as = length ws"
      "\<forall>i < length ws. as ! i < length (word_nodes t) \<and> word_nodes t ! (as ! i) = take (snd (ws ! i)) (fst (ws ! i))"
    using lookup_all_interns[OF empty_table_ok assms] by blast
  have inj: "a = b" if "a < length (word_nodes t)" "b < length (word_nodes t)" "word_nodes t ! a = word_nodes t ! b"
      "word_nodes t ! a \<noteq> []" for a b
    using t(2) that unfolding table_ok_def by blast
  have "(as ! i = as ! j) = (take (snd (ws ! i)) (fst (ws ! i)) = take (snd (ws ! j)) (fst (ws ! j)))"
    if ij: "i < length ws" "j < length ws" for i j
  proof -
    note i = t(4)[rule_format, OF ij(1)] and j = t(4)[rule_format, OF ij(2)]
    have "take (snd (ws ! i)) (fst (ws ! i)) \<noteq> []" using assms[of "fst (ws ! i)" "snd (ws ! i)"] ij(1) by auto
    then show ?thesis using inj[of "as ! i" "as ! j"] i j by (metis (no_types))
  qed
  then show ?thesis by (intro exI[of _ as] exI[of _ t] conjI t(1,3)) blast
qed

theorem same_node_iff_same_name_witness:
  "\<exists>as t. lookup_all [(''PROC p'', 4), (''PROCESS'', 4), (''PRI'', 3)] empty_table = Some (as, t) \<and>
     as ! 0 = as ! 1 \<and> as ! 1 \<noteq> as ! 2"
proof -
  let ?ws = "[(''PROC p'', 4), (''PROCESS'', 4), (''PRI'', 3)] :: (string \<times> nat) list"
  obtain as t where t: "lookup_all ?ws empty_table = Some (as, t)"
      "\<forall>i < length ?ws. \<forall>j < length ?ws. (as ! i = as ! j) = (take (snd (?ws ! i)) (fst (?ws ! i)) = take (snd (?ws ! j)) (fst (?ws ! j)))"
    using same_node_iff_same_name[of ?ws] by (force simp del: lookup_all.simps)
  show ?thesis using t(1) t(2)[rule_format, of 0 1] t(2)[rule_format, of 1 2] by (intro exI[of _ as] exI[of _ t]) (simp del: lookup_all.simps)
qed

text \<open>The empty name is hashed by the four characters behind it: it has more than one node.\<close>

theorem empty_name_has_two_nodes:
  "map_option fst (lookup_all [(''(INT'', 0), (''()  '', 0)] empty_table) = Some [0, 1]"
  by code_simp

end
