(* ===== verification/OCC_Library.thy ===== *)
theory OCC_Library
  imports TCOFF_IO
begin

text \<open>
  What the compiler keeps of the libraries it reads (compiler/occ21/fe/objlib.c and objtrans.c,
  include/objlib.h): their entries with the definitions of each for several processors, the
  modules these are in, and the pairs of names of \<open>#PRAGMA TRANSLATE\<close>. A name is its string. A
  module is shared between the definitions in it and is given by its address, an index into the
  list of all modules. A C string is what is before the first NUL.
\<close>

type_synonym BIT32 = "32 word"

definition cstring :: "string \<Rightarrow> string" where
  "cstring s = takeWhile (\<lambda>c. c \<noteq> CHR 0x00) s"

section \<open>Libraries in store\<close>

record module_t =
  m_name :: string
  m_seek_ptr :: LONG
  m_id_val :: INT32
  m_filenum :: INT32
  m_instr :: BIT32
  m_attr :: BIT32
  m_size :: INT32

definition ORIGIN_NOT_FOUND :: INT32 where "ORIGIN_NOT_FOUND = - 1"
definition ORIGIN_FOUND :: INT32 where "ORIGIN_FOUND = - 2"
definition ORIGIN_WS :: BIT32 where "ORIGIN_WS = - 1"

record procdef_t =
  p_module :: nat
  p_ws :: INT32
  p_vs :: INT32
  p_ms :: INT32
  p_offset :: "INT32 option"

record libentry_t =
  l_name :: string
  l_procdefs :: "procdef_t list"
  l_bits :: BIT32
  l_hash :: BIT32

definition LIBENTRY_BIT_DESC_SENT :: BIT32 where "LIBENTRY_BIT_DESC_SENT = 0x01"
definition LIBENTRY_BIT_COMPATIBLE :: BIT32 where "LIBENTRY_BIT_COMPATIBLE = 0x02"
definition LIBENTRY_BIT_COMPATIBLE_ERR :: BIT32 where "LIBENTRY_BIT_COMPATIBLE_ERR = 0x04"
definition LIBENTRY_BIT_NESTED_TIMER :: BIT32 where "LIBENTRY_BIT_NESTED_TIMER = 0x08"
definition LIBENTRY_BIT_NESTED_PLACE :: BIT32 where "LIBENTRY_BIT_NESTED_PLACE = 0x10"
definition LIBENTRY_BIT_NESTED_PORT :: BIT32 where "LIBENTRY_BIT_NESTED_PORT = 0x20"

definition search_libentries :: "libentry_t list \<Rightarrow> string \<Rightarrow> libentry_t option" where
  "search_libentries es name = find (\<lambda>e. l_name e = name) es"

fun update_libentry :: "string \<Rightarrow> (libentry_t \<Rightarrow> libentry_t) \<Rightarrow> libentry_t list \<Rightarrow> libentry_t list" where
  "update_libentry name f [] = []"
| "update_libentry name f (e # es) = (if l_name e = name then f e # es else e # update_libentry name f es)"

definition search_modulechain :: "module_t list \<Rightarrow> nat list \<Rightarrow> LONG \<Rightarrow> nat option" where
  "search_modulechain mods chain seek_val = find (\<lambda>a. m_seek_ptr (mods ! a) = seek_val) chain"

section \<open>Processor types\<close>

record fe_data =
  fe_lang :: BIT32
  ptype :: BIT32
  pattr :: BIT32
  fe_suppress_compat :: bool
  fe_read_all_libs :: bool

definition FE_LANG_OCCAM :: BIT32 where "FE_LANG_OCCAM = 1"
definition FE_LANG_CONFIG2 :: BIT32 where "FE_LANG_CONFIG2 = 2"
definition FE_LANG_CONFIG3 :: BIT32 where "FE_LANG_CONFIG3 = 4"
definition ARCH_T :: BIT32 where "ARCH_T = 0x100000"
definition ATTRIB_FPU_CALLING_MASK :: BIT32 where "ATTRIB_FPU_CALLING_MASK = 0xC0000"
definition ATTRIB_NON_FPU_CALLING :: BIT32 where "ATTRIB_NON_FPU_CALLING = 0x40000"
definition ATTRIB_FPU_CALLING :: BIT32 where "ATTRIB_FPU_CALLING = 0x80000"
definition ATTRIB_IO_MASK :: BIT32 where "ATTRIB_IO_MASK = 0x1800"
definition INSTR_NO_SEMAPHORE :: BIT32 where "INSTR_NO_SEMAPHORE = 0x8000"
definition INSTR_NO_DEVICE :: BIT32 where "INSTR_NO_DEVICE = 0x10000"

definition T450_INSTR :: BIT32 where
  "T450_INSTR = ARCH_T OR 0x1 OR 0x2 OR 0x4 OR 0x8 OR 0x10 OR 0x20 OR 0x40 OR 0x80 OR 0x200 OR 0x400
     OR 0x2000 OR 0x4000 OR 0x2000000 OR 0x4000000 OR 0x8000000 OR 0xE0000"

definition configuring_lang :: "fe_data \<Rightarrow> bool" where
  "configuring_lang fe \<longleftrightarrow> fe_lang fe AND FE_LANG_OCCAM = 0"

definition compatible_call :: "fe_data \<Rightarrow> BIT32 \<Rightarrow> BIT32 \<Rightarrow> bool" where
  "compatible_call fe callee_instr callee_attr \<longleftrightarrow>
     (if fe_suppress_compat fe then True
      else ptype fe OR callee_instr = ptype fe \<and> pattr fe OR callee_attr = pattr fe)"

section \<open>The definition for the processor\<close>

record lib_node =
  nd_name :: string
  nd_function :: bool
  nd_real_results :: "bool list"
  nd_external :: libentry_t

datatype lib_message = Calling_convention string | Lib_wrong_target string | Lib_wrong_io string | Lib_wrong_io_config string

definition lookup_procdef :: "fe_data \<Rightarrow> module_t list \<Rightarrow> libentry_t \<Rightarrow> procdef_t option" where
  "lookup_procdef fe mods e =
     (if configuring_lang fe
      then find (\<lambda>p. compatible_call fe (m_instr (mods ! p_module p)) (m_attr (mods ! p_module p))) (l_procdefs e)
      else (case l_procdefs e of [] \<Rightarrow> None | p # _ \<Rightarrow> Some p))"

definition has_bit :: "BIT32 \<Rightarrow> BIT32 \<Rightarrow> bool" where "has_bit b w \<longleftrightarrow> w AND b \<noteq> 0"

definition set_bits_of :: "BIT32 \<Rightarrow> libentry_t \<Rightarrow> libentry_t" where
  "set_bits_of b e = e\<lparr>l_bits := l_bits e OR b\<rparr>"

definition check_fpu_calling_convention ::
  "procdef_t option \<Rightarrow> lib_node \<Rightarrow> bool \<Rightarrow> procdef_t option \<times> lib_node \<times> lib_message list" where
  "check_fpu_calling_convention procdef nd check =
     (if procdef \<noteq> None \<and> nd_function nd \<and> length (nd_real_results nd) = 1 \<and> hd (nd_real_results nd)
      then if check \<and> \<not> has_bit LIBENTRY_BIT_COMPATIBLE_ERR (l_bits (nd_external nd))
           then (None, nd\<lparr>nd_external := set_bits_of LIBENTRY_BIT_COMPATIBLE_ERR (nd_external nd)\<rparr>, [Calling_convention (nd_name nd)])
           else (None, nd, [])
      else (procdef, nd, []))"

definition fpu_attempt ::
  "fe_data \<Rightarrow> module_t list \<Rightarrow> bool \<Rightarrow> bool \<Rightarrow> procdef_t option \<Rightarrow> lib_node \<Rightarrow> procdef_t option \<times> lib_node \<times> lib_message list" where
  "fpu_attempt fe mods check allow_fpu_calls procdef nd =
     (if allow_fpu_calls \<and> procdef = None \<and> ptype fe AND ARCH_T \<noteq> 0 \<and> pattr fe AND ATTRIB_FPU_CALLING \<noteq> 0
      then check_fpu_calling_convention
             (lookup_procdef (fe\<lparr>pattr := (pattr fe AND NOT ATTRIB_FPU_CALLING_MASK) OR ATTRIB_NON_FPU_CALLING\<rparr>) mods (nd_external nd))
             nd check
      else (procdef, nd, []))"

definition t450_attempt :: "fe_data \<Rightarrow> module_t list \<Rightarrow> procdef_t option \<Rightarrow> libentry_t \<Rightarrow> procdef_t option" where
  "t450_attempt fe mods procdef e =
     (if procdef = None \<and> ptype fe = T450_INSTR
      then lookup_procdef (fe\<lparr>ptype := ptype fe OR (INSTR_NO_SEMAPHORE OR INSTR_NO_DEVICE)\<rparr>) mods e
      else procdef)"

definition wrong_target :: "fe_data \<Rightarrow> module_t list \<Rightarrow> lib_node \<Rightarrow> lib_message" where
  "wrong_target fe mods nd =
     (if lookup_procdef (fe\<lparr>pattr := (pattr fe AND NOT ATTRIB_IO_MASK) OR ATTRIB_INSTR_IO\<rparr>) mods (nd_external nd) \<noteq> None
      then if configuring_lang fe then Lib_wrong_io_config (nd_name nd) else Lib_wrong_io (nd_name nd)
      else Lib_wrong_target (nd_name nd))"

definition get_procdef ::
  "fe_data \<Rightarrow> module_t list \<Rightarrow> lib_node \<Rightarrow> bool \<Rightarrow> bool \<Rightarrow> procdef_t option \<times> lib_node \<times> lib_message list" where
  "get_procdef fe mods nd check allow_fpu_calls =
     (let p = lookup_procdef fe mods (nd_external nd);
          (p, nd, msgs) = fpu_attempt fe mods check allow_fpu_calls p nd;
          p = t450_attempt fe mods p (nd_external nd)
      in if check \<and> p = None \<and> \<not> has_bit LIBENTRY_BIT_COMPATIBLE_ERR (l_bits (nd_external nd))
         then (p, nd\<lparr>nd_external := set_bits_of LIBENTRY_BIT_COMPATIBLE_ERR (nd_external nd)\<rparr>, msgs @ [wrong_target fe mods nd])
         else (p, nd, msgs))"

definition compiledforcorrectproc :: "fe_data \<Rightarrow> module_t list \<Rightarrow> lib_node \<Rightarrow> bool \<Rightarrow> bool" where
  "compiledforcorrectproc fe mods nd allow_fpu_calls \<longleftrightarrow> fst (get_procdef fe mods nd False allow_fpu_calls) \<noteq> None"

definition getlibwsandvs :: "fe_data \<Rightarrow> module_t list \<Rightarrow> lib_node \<Rightarrow> bool \<Rightarrow> INT32 \<times> INT32" where
  "getlibwsandvs fe mods nd allow_fpu_calls =
     (case fst (get_procdef fe mods nd True allow_fpu_calls) of
        None \<Rightarrow> (0, 0)
      | Some p \<Rightarrow> (p_ws p, p_vs p))"

definition getlibwsandvsandms :: "fe_data \<Rightarrow> module_t list \<Rightarrow> lib_node \<Rightarrow> bool \<Rightarrow> INT32 \<times> INT32 \<times> INT32" where
  "getlibwsandvsandms fe mods nd allow_fpu_calls =
     (case fst (get_procdef fe mods nd True allow_fpu_calls) of
        None \<Rightarrow> (0, 0, 0)
      | Some p \<Rightarrow> (p_ws p, p_vs p, p_ms p))"

section \<open>Translation of names\<close>

record fe_translate_data_s =
  trans_internals :: "(string \<times> string) list"
  trans_externals :: "(string \<times> string) list"
  globalnames :: "libentry_t list"
  thrownentries :: "string list"

definition init_translate :: fe_translate_data_s where
  "init_translate = \<lparr>trans_internals = [], trans_externals = [], globalnames = [], thrownentries = []\<rparr>"

definition search_translations :: "(string \<times> string) list \<Rightarrow> string \<Rightarrow> (string \<times> string) option" where
  "search_translations ts name = find (\<lambda>t. fst t = name) ts"

definition lookup_translations :: "(string \<times> string) list \<Rightarrow> string \<Rightarrow> string" where
  "lookup_translations ts name = (case search_translations ts name of None \<Rightarrow> name | Some t \<Rightarrow> snd t)"

definition translate_from_internal :: "fe_translate_data_s \<Rightarrow> string \<Rightarrow> string" where
  "translate_from_internal tr name = lookup_translations (trans_internals tr) name"

definition translate_descriptor :: "fe_translate_data_s \<Rightarrow> string \<Rightarrow> nat \<Rightarrow> string \<Rightarrow> nat \<Rightarrow> (string \<times> string) option" where
  "translate_descriptor tr old_name i descriptor len =
     (let loc = lookup_translations (trans_externals tr) old_name
      in if loc = old_name then Some (old_name, descriptor)
         else if i + length old_name \<le> length (cstring descriptor) \<and> length (cstring descriptor) \<le> len
         then Some (loc, take i (cstring descriptor) @ cstring loc @ drop (i + length old_name) (cstring descriptor))
         else None)"

definition throwawayname :: "string \<Rightarrow> fe_translate_data_s \<Rightarrow> fe_translate_data_s" where
  "throwawayname name tr =
     (if name \<in> set (thrownentries tr) then tr else tr\<lparr>thrownentries := name # thrownentries tr\<rparr>)"

definition rememberallnames :: "libentry_t list \<Rightarrow> fe_translate_data_s \<Rightarrow> fe_translate_data_s" where
  "rememberallnames es tr = tr\<lparr>globalnames := rev es @ globalnames tr\<rparr>"

datatype translate_warning = Illegal_char string char | Duplicate_in string | Duplicate_ex string | Sequence string

definition illegal_char :: "string \<Rightarrow> char option" where
  "illegal_char ex_name = find (\<lambda>c. c \<in> {CHR 0x00, CHR '' '', CHR ''('', CHR '')''}) ex_name"

definition setup_translation ::
  "string \<Rightarrow> string \<Rightarrow> fe_translate_data_s \<Rightarrow> (translate_warning + fe_translate_data_s)" where
  "setup_translation in_name ex_name tr =
     (case illegal_char ex_name of
        Some c \<Rightarrow> Inl (Illegal_char in_name c)
      | None \<Rightarrow>
          (case search_translations (trans_internals tr) in_name of
             Some t \<Rightarrow> if snd t = ex_name then Inr tr else Inl (Duplicate_in in_name)
           | None \<Rightarrow>
               if search_translations (trans_externals tr) ex_name \<noteq> None then Inl (Duplicate_ex ex_name)
               else if search_libentries (globalnames tr) in_name \<noteq> None \<or> search_libentries (globalnames tr) ex_name \<noteq> None
                 \<or> ex_name \<in> set (thrownentries tr) then Inl (Sequence ex_name)
               else Inr (tr\<lparr>trans_internals := (in_name, ex_name) # trans_internals tr,
                            trans_externals := (ex_name, in_name) # trans_externals tr\<rparr>)))"

end
