(* ===== verification/OCC_Reader.thy ===== *)
theory OCC_Reader
  imports OCC_Library
begin

text \<open>
  The object file reader of the compiler (compiler/occ21/fe/objrdr.c): it finds the descriptors of
  a library or object file one after the other, enters what they describe, and gives their lines
  to the lexer. The variables of objrdr.c are the record \<open>reader\<close>, which holds the file, too; an
  operation is in the monad of \<open>TCOFF_IO\<close> over it, where \<open>None\<close> is undefined behaviour or not
  ending and the left of the sum is a fatal error. Memory that runs out, a negative size given to
  \<open>memalloc\<close> among it, is the error \<open>Lex_abort\<close>. A \<open>char\<close> is signed.
\<close>

section \<open>State\<close>

datatype lex_error =
  LEX_EOF | LEX_TCOFF_BAD_DESC string | LEX_TCOFF_NOT_LINKED | LEX_TCOFF_WRONG_FORMAT
| LEX_TCOFF_UNMATCHED_ENDMODULE | Lex_abort

datatype rd_message =
  SYN_DIFFERENT_DESCRIPTORS string | SYN_STDLIB_HAS_VS string | LEX_MISSING_ENTRYPOINT string
| SYN_NOTHING_IN_LIB string | SYN_BAD_PRAGMA_DIRECTIVE string

record reader =
  infile :: cfile
  currentfilenum :: INT32
  libfilename :: string
  libentries :: "libentry_t list"
  modules :: "module_t list"
  localmodules :: "nat list"
  libwname :: "string option"
  current_module_seekpos :: LONG
  module_instr :: BIT32
  module_attr :: BIT32
  in_descriptor :: bool
  descriptor_indent :: nat
  sub_desc :: string
  reading_module :: bool
  module_level :: INT32
  library_eof :: bool
  current_symbol_value :: INT32
  current_module_size :: INT32
  current_module :: "nat option"
  file_is_a_library :: bool
  in_linked_text_section :: bool
  already_read_a_text_segment :: bool
  fe_translates :: fe_translate_data_s
  messages :: "rd_message list"

type_synonym 'a rd = "('a, reader, lex_error) run"

definition LINKED_INPUT_FILE :: "fe_data \<Rightarrow> bool" where
  "LINKED_INPUT_FILE fe \<longleftrightarrow> fe_lang fe AND (FE_LANG_CONFIG2 OR FE_LANG_CONFIG3) \<noteq> 0"

definition rd_get :: "(reader \<Rightarrow> 'a) \<Rightarrow> 'a rd" where
  "rd_get f s = io_return (f s) s"

definition rd_update :: "(reader \<Rightarrow> reader) \<Rightarrow> unit rd" where
  "rd_update f s = io_return () (f s)"

definition issue :: "rd_message \<Rightarrow> reader \<Rightarrow> reader" where
  "issue m s = s\<lparr>messages := messages s @ [m]\<rparr>"

definition init_obj_reader :: "INT32 \<Rightarrow> string \<Rightarrow> reader" where
  "init_obj_reader filenum filename =
     \<lparr>infile = fopen [], currentfilenum = filenum, libfilename = filename, libentries = [], modules = [], localmodules = [],
      libwname = None, current_module_seekpos = 0, module_instr = 0, module_attr = 0, in_descriptor = False,
      descriptor_indent = 0, sub_desc = [], reading_module = False, module_level = 0, library_eof = False,
      current_symbol_value = 0, current_module_size = 0, current_module = None, file_is_a_library = False,
      in_linked_text_section = False, already_read_a_text_segment = False, fe_translates = init_translate, messages = []\<rparr>"

section \<open>Input\<close>

definition getl_from_tcoff :: "LONG rd" where
  "getl_from_tcoff s =
     (case occ21_getl_test (infile s) of
        None \<Rightarrow> None
      | Some ((n, ok), f) \<Rightarrow> if ok then io_return n (s\<lparr>infile := f\<rparr>) else io_fail LEX_EOF s)"

fun getul_loop :: "nat \<Rightarrow> nat \<Rightarrow> ULONG \<Rightarrow> ULONG rd" where
  "getul_loop 0 i l s = io_return l s"
| "getul_loop (Suc k) i l s =
     (case fgetc (infile s) of
        (None, f) \<Rightarrow> io_fail LEX_EOF s
      | (Some c, f) \<Rightarrow> getul_loop k (Suc i) (l OR push_bit (8 * i) (ucast c)) (s\<lparr>infile := f\<rparr>))"

definition getul_from_tcoff :: "ULONG rd" where
  "getul_from_tcoff = getul_loop 4 0 0"

definition chars :: "OCTET list \<Rightarrow> string" where
  "chars bs = map (\<lambda>b. char_of (unat b)) bs"

definition octets :: "string \<Rightarrow> OCTET list" where
  "octets s = map of_char s"

definition getbytes_from_tcoff :: "INT32 \<Rightarrow> string rd" where
  "getbytes_from_tcoff len s =
     (if len <s 0 then io_fail Lex_abort s
      else (case read_string (unat len) [] (infile s) of
              (None, f) \<Rightarrow> io_fail LEX_EOF s
            | (Some str, f) \<Rightarrow> io_return (chars str) (s\<lparr>infile := f\<rparr>)))"

definition throw_bytes_from_tcoff :: "LONG \<Rightarrow> unit rd" where
  "throw_bytes_from_tcoff l s =
     (case fseek_cur l (infile s) of
        (True, f) \<Rightarrow> io_return () (s\<lparr>infile := f\<rparr>)
      | (False, f) \<Rightarrow> io_fail LEX_EOF s)"

definition throw_record_from_tcoff :: "unit rd" where
  "throw_record_from_tcoff = io_bind getl_from_tcoff throw_bytes_from_tcoff"

section \<open>Entering a name\<close>

definition libentry_of :: "string \<Rightarrow> BIT32 \<Rightarrow> reader \<Rightarrow> libentry_t \<times> reader" where
  "libentry_of name hash s =
     (case search_libentries (libentries s) name of
        None \<Rightarrow>
          let e = \<lparr>l_name = name, l_procdefs = [], l_bits = 0, l_hash = hash\<rparr>
          in (e, s\<lparr>libentries := e # libentries s\<rparr>)
      | Some e \<Rightarrow> (e, if l_hash e \<noteq> hash then issue (SYN_DIFFERENT_DESCRIPTORS (cstring name)) s else s))"

definition module_of :: "LONG \<Rightarrow> BIT32 \<Rightarrow> BIT32 \<Rightarrow> reader \<Rightarrow> nat \<times> reader" where
  "module_of seek_val instr attr s =
     (case search_modulechain (modules s) (localmodules s) seek_val of
        None \<Rightarrow>
          let a = length (modules s)
          in (a, s\<lparr>modules := modules s @
               [\<lparr>m_name = ''?'', m_seek_ptr = seek_val, m_id_val = ORIGIN_NOT_FOUND, m_filenum = currentfilenum s,
                 m_instr = instr, m_attr = attr, m_size = 0\<rparr>],
               localmodules := a # localmodules s\<rparr>)
      | Some a \<Rightarrow> (a, s))"

definition update_module :: "nat \<Rightarrow> (module_t \<Rightarrow> module_t) \<Rightarrow> reader \<Rightarrow> reader" where
  "update_module a f s = s\<lparr>modules := (modules s)[a := f (modules s ! a)]\<rparr>"

fun set_offset :: "module_t list \<Rightarrow> LONG \<Rightarrow> INT32 \<Rightarrow> procdef_t list \<Rightarrow> procdef_t list" where
  "set_offset mods seek_val v [] = []"
| "set_offset mods seek_val v (p # ps) =
     (if m_seek_ptr (mods ! p_module p) = seek_val then p\<lparr>p_offset := Some v\<rparr> # ps
      else p # set_offset mods seek_val v ps)"

definition save_libentry :: "libentry_t \<Rightarrow> reader \<Rightarrow> reader" where
  "save_libentry e s = s\<lparr>libentries := update_libentry (l_name e) (\<lambda>_. e) (libentries s)\<rparr>"

definition add_procdef :: "fe_data \<Rightarrow> bool \<Rightarrow> nat \<Rightarrow> BIT32 \<Rightarrow> BIT32 \<Rightarrow> BIT32 \<Rightarrow> reader \<Rightarrow> libentry_t \<Rightarrow> libentry_t" where
  "add_procdef fe compatible a ws vs ms s e =
     (if configuring_lang fe \<or> l_procdefs e = [] \<and> compatible
      then e\<lparr>l_procdefs :=
             \<lparr>p_module = a, p_ws = ws, p_vs = vs, p_ms = ms,
              p_offset = (if LINKED_INPUT_FILE fe then Some (current_symbol_value s) else None)\<rparr> # l_procdefs e\<rparr>
      else e)"

definition must_send :: "fe_data \<Rightarrow> bool \<Rightarrow> BIT32 \<Rightarrow> libentry_t \<Rightarrow> bool" where
  "must_send fe compatible ws e \<longleftrightarrow>
     ws \<noteq> ORIGIN_WS \<and> \<not> has_bit LIBENTRY_BIT_DESC_SENT (l_bits e) \<and>
     (LINKED_INPUT_FILE fe \<or> compatible \<or> fe_read_all_libs fe)"

definition process_externalname ::
  "fe_data \<Rightarrow> string \<Rightarrow> LONG \<Rightarrow> BIT32 \<Rightarrow> BIT32 \<Rightarrow> BIT32 \<Rightarrow> BIT32 \<Rightarrow> BIT32 \<Rightarrow> BIT32 \<Rightarrow> bool \<Rightarrow> reader \<Rightarrow> bool \<times> reader" where
  "process_externalname fe name seek_val ws vs ms instr attr hash in_libindex s =
     (let compatible = compatible_call fe instr attr;
          (e, s) = libentry_of name hash s;
          e = (if compatible then set_bits_of LIBENTRY_BIT_COMPATIBLE e else e);
          (a, s) = module_of seek_val instr attr s;
          s = (if ws = ORIGIN_WS then update_module a (\<lambda>m. m\<lparr>m_name := name, m_id_val := ORIGIN_FOUND\<rparr>) s else s);
          s = (if LINKED_INPUT_FILE fe then s\<lparr>current_module := Some a\<rparr> else s)
      in if LINKED_INPUT_FILE fe \<and> file_is_a_library s \<and> \<not> in_libindex
         then (True, save_libentry (e\<lparr>l_procdefs := set_offset (modules s) seek_val (current_symbol_value s) (l_procdefs e)\<rparr>) s)
         else let e = add_procdef fe compatible a ws vs ms s e
              in if must_send fe compatible ws e
                 then (False, save_libentry (set_bits_of LIBENTRY_BIT_DESC_SENT e) s)
                 else (True, save_libentry e s))"

section \<open>Descriptors\<close>

fun strstr :: "string \<Rightarrow> string \<Rightarrow> nat option" where
  "strstr [] needle = (if needle = [] then Some 0 else None)"
| "strstr (c # s) needle =
     (if take (length needle) (c # s) = needle then Some 0 else map_option Suc (strstr s needle))"

definition desc_name :: "string \<Rightarrow> (string \<times> nat) option" where
  "desc_name desc =
     (let desc = cstring desc;
          start = (if strstr desc ''PROC '' = Some 0 then Some 5
                   else case strstr desc '' FUNCTION '' of
                          Some i \<Rightarrow> Some (i + 10)
                        | None \<Rightarrow> if strstr desc ''MOBILE PROC '' = Some 0 then Some 12 else None)
      in case start of
           None \<Rightarrow> None
         | Some i \<Rightarrow>
             let spaces = length (takeWhile (\<lambda>c. c = CHR '' '') (drop i desc));
                 str = drop (i + spaces) desc;
                 name = takeWhile (\<lambda>c. c \<noteq> CHR '' '' \<and> c \<noteq> CHR ''('') str
             in if name = str then None else Some (name, i + spaces))"

definition isalpha :: "char \<Rightarrow> bool" where
  "isalpha c \<longleftrightarrow> (let n = of_char c :: nat in 65 \<le> n \<and> n \<le> 90 \<or> 97 \<le> n \<and> n \<le> 122)"

definition isdigit :: "char \<Rightarrow> bool" where
  "isdigit c \<longleftrightarrow> (let n = of_char c :: nat in 48 \<le> n \<and> n \<le> 57)"

definition is_occam_syntax :: "string \<Rightarrow> bool" where
  "is_occam_syntax s =
     (case s of [] \<Rightarrow> False | c # s \<Rightarrow> isalpha c \<and> list_all (\<lambda>c. isalpha c \<or> isdigit c \<or> c = CHR ''.'') s)"

definition descriptor_hash :: "string \<Rightarrow> BIT32" where
  "descriptor_hash s = foldl (\<lambda>hash c. push_bit 1 hash XOR scast (of_char c :: OCTET)) 0xdeaddead s"

definition occ21_sizel :: "LONG \<Rightarrow> LONG option" where
  "occ21_sizel l =
     (let sz = (if l <s 0 then 2 else 1);
          l = (if l <s 0 then NOT l else l)
      in if l <s 0 \<or> 250 <s l
         then (case number_bytes l of None \<Rightarrow> None | Some (tag, bytes) \<Rightarrow> Some (sz + of_nat bytes))
         else Some sz)"

definition sizes_of :: "LONG \<Rightarrow> LONG \<Rightarrow> LONG \<Rightarrow> INT32 option" where
  "sizes_of ws vs ms =
     (case (occ21_sizel ws, occ21_sizel vs, occ21_sizel ms) of
        (Some a, Some b, Some c) \<Rightarrow> Some (ucast a + ucast b + ucast c)
      | _ \<Rightarrow> None)"

definition origin_name :: "string \<Rightarrow> string rd" where
  "origin_name str s =
     (case libwname s of
        None \<Rightarrow> io_return str s
      | Some w \<Rightarrow> if CHR 0x00 \<in> set str then None else io_return (''{'' @ w @ ''}'' @ str) s)"

definition descriptor_symbol :: "bool \<Rightarrow> string \<Rightarrow> (string \<times> nat) rd" where
  "descriptor_symbol in_libindex descriptor =
     io_bind (if in_libindex then throw_record_from_tcoff else io_return ()) (\<lambda>_.
       case desc_name descriptor of
         None \<Rightarrow> io_fail (LEX_TCOFF_BAD_DESC (cstring descriptor))
       | Some r \<Rightarrow> io_return r)"

definition enter_descriptor ::
  "fe_data \<Rightarrow> LONG \<Rightarrow> bool \<Rightarrow> BIT32 \<Rightarrow> BIT32 \<Rightarrow> bool \<Rightarrow> LONG \<Rightarrow> LONG \<Rightarrow> LONG \<Rightarrow> string \<Rightarrow> nat \<Rightarrow> string \<Rightarrow> nat \<Rightarrow> string option rd" where
  "enter_descriptor fe seek_val in_libindex instr attr in_stdlib ws vs ms name i descriptor len s =
     (let s = (if in_stdlib \<and> vs \<noteq> 0 then issue (SYN_STDLIB_HAS_VS (cstring name)) s else s)
      in case translate_descriptor (fe_translates s) name i descriptor len of
           None \<Rightarrow> None
         | Some (name, descriptor) \<Rightarrow>
             if ws \<noteq> - 1 \<and> \<not> in_stdlib \<and> \<not> is_occam_syntax (cstring name)
             then io_return None (s\<lparr>fe_translates := throwawayname name (fe_translates s)\<rparr>)
             else (case process_externalname fe name seek_val (ucast ws) (ucast vs) (ucast ms) instr attr
                          (descriptor_hash (cstring descriptor)) in_libindex s of
                     (junked, s) \<Rightarrow> io_return (if junked then None else Some (cstring descriptor)) s))"

definition process_descstring :: "fe_data \<Rightarrow> LONG \<Rightarrow> bool \<Rightarrow> BIT32 \<Rightarrow> BIT32 \<Rightarrow> bool \<Rightarrow> string option rd" where
  "process_descstring fe seek_val in_libindex instr attr in_stdlib =
     io_bind getl_from_tcoff (\<lambda>len.
     io_bind getl_from_tcoff (\<lambda>ws.
     io_bind getl_from_tcoff (\<lambda>vs.
     io_bind getl_from_tcoff (\<lambda>ms.
     io_bind (io_option (sizes_of ws vs ms)) (\<lambda>n.
     io_bind (getbytes_from_tcoff (ucast len - n)) (\<lambda>descriptor.
       if ws = - 1
       then if \<not> in_libindex then io_return None
            else io_bind getl_from_tcoff (\<lambda>len.
                 io_bind (getbytes_from_tcoff (ucast len)) (\<lambda>str.
                 io_bind (origin_name str) (\<lambda>name.
                   enter_descriptor fe seek_val in_libindex instr attr in_stdlib ws vs ms name 0 descriptor (length str))))
       else io_bind (descriptor_symbol in_libindex descriptor) (\<lambda>(name, i).
              enter_descriptor fe seek_val in_libindex instr attr in_stdlib ws vs ms name i descriptor (length descriptor))))))))"

section \<open>The records of a file\<close>

datatype rec_result = Next | Skip | Found string | Stop_reading

definition found :: "string option \<Rightarrow> rec_result rd" where
  "found d =
     (case d of
        None \<Rightarrow> io_return Next
      | Some descriptor \<Rightarrow> io_bind (rd_update (\<lambda>s. s\<lparr>in_descriptor := True, descriptor_indent := 0\<rparr>)) (\<lambda>_.
          io_return (Found descriptor)))"

definition throw_record :: "rec_result rd" where
  "throw_record = io_bind throw_record_from_tcoff (\<lambda>_. io_return Next)"

definition rd_index_start :: "rec_result rd" where
  "rd_index_start = io_bind (rd_update (\<lambda>s. s\<lparr>libwname := Some (libfilename s)\<rparr>)) (\<lambda>_. throw_record)"

definition rd_index_entry :: "fe_data \<Rightarrow> bool \<Rightarrow> rec_result rd" where
  "rd_index_entry fe in_stdlib =
     io_bind (rd_update (\<lambda>s. s\<lparr>file_is_a_library := True\<rparr>)) (\<lambda>_.
     io_bind getl_from_tcoff (\<lambda>_.
     io_bind getul_from_tcoff (\<lambda>seek_val.
     io_bind getl_from_tcoff (\<lambda>instr.
     io_bind getl_from_tcoff (\<lambda>attr.
     io_bind getl_from_tcoff (\<lambda>lang.
       if (ucast lang :: INT32) = LANG_OCCAM
       then io_bind (process_descstring fe (scast (ucast seek_val :: INT32)) True (ucast instr) (ucast attr) in_stdlib) found
       else io_bind throw_record_from_tcoff (\<lambda>_. throw_record)))))))"

definition rd_start_module :: "rec_result rd" where
  "rd_start_module =
     io_bind (rd_get (\<lambda>s. ftell (infile s))) (\<lambda>seekpos.
     io_bind (rd_update (\<lambda>s. s\<lparr>module_level := module_level s + 1\<rparr>)) (\<lambda>_.
     io_bind getl_from_tcoff (\<lambda>_.
     io_bind getl_from_tcoff (\<lambda>instr.
     io_bind getl_from_tcoff (\<lambda>attr.
     io_bind getl_from_tcoff (\<lambda>_.
     io_bind throw_record_from_tcoff (\<lambda>_.
     io_bind (rd_get module_level) (\<lambda>level.
       if level = 1
       then io_bind (io_option (occ21_sizel START_MODULE_TAG)) (\<lambda>n.
            io_bind (rd_update (\<lambda>s. s\<lparr>current_module_seekpos := seekpos - n, reading_module := True,
              module_instr := ucast instr, module_attr := ucast attr, current_module_size := 0,
              current_module := None, in_linked_text_section := False, already_read_a_text_segment := False\<rparr>)) (\<lambda>_.
              io_return Next))
       else io_return Next))))))))"

definition enter_origin :: "fe_data \<Rightarrow> string \<Rightarrow> reader \<Rightarrow> reader" where
  "enter_origin fe name s =
     snd (process_externalname fe (cstring name) (current_module_seekpos s) ORIGIN_WS 0 0 (module_instr s) (module_attr s) 0 False s)"

definition rd_symbol_in_module :: "fe_data \<Rightarrow> rec_result rd" where
  "rd_symbol_in_module fe =
     io_bind getl_from_tcoff (\<lambda>_.
     io_bind getl_from_tcoff (\<lambda>usage.
       let x = (ucast usage :: INT32)
       in if x OR (EXPORT_USAGE OR ORIGIN_USAGE) = x
          then io_bind getl_from_tcoff (\<lambda>len.
               io_bind (getbytes_from_tcoff (ucast len)) (\<lambda>name.
               io_bind (rd_update (enter_origin fe name)) (\<lambda>_. io_return Next)))
          else throw_record))"

definition rd_descriptor_in_module :: "fe_data \<Rightarrow> bool \<Rightarrow> rec_result rd" where
  "rd_descriptor_in_module fe in_stdlib =
     io_bind getl_from_tcoff (\<lambda>_.
     io_bind getl_from_tcoff (\<lambda>_.
     io_bind getl_from_tcoff (\<lambda>lang.
       if (ucast lang :: INT32) = LANG_OCCAM
       then io_bind (rd_get (\<lambda>s. (current_module_seekpos s, module_instr s, module_attr s))) (\<lambda>(seekpos, instr, attr).
            io_bind (process_descstring fe seekpos False instr attr in_stdlib) found)
       else throw_record)))"

definition in_module_body :: "reader \<Rightarrow> bool" where
  "in_module_body s \<longleftrightarrow> reading_module s \<and> module_level s = 1"

definition rd_end_module :: "fe_data \<Rightarrow> rec_result rd" where
  "rd_end_module fe =
     io_bind (rd_update (\<lambda>s. s\<lparr>module_level := module_level s - 1\<rparr>)) (\<lambda>_.
     io_bind (rd_get module_level) (\<lambda>level.
       if level <s 0 then io_fail LEX_TCOFF_UNMATCHED_ENDMODULE
       else io_bind throw_record_from_tcoff (\<lambda>_.
            io_bind (rd_update (\<lambda>s.
              case current_module s of
                Some a \<Rightarrow> if LINKED_INPUT_FILE fe \<and> level = 0
                          then update_module a (\<lambda>m. m\<lparr>m_size := current_module_size s\<rparr>) s else s
              | None \<Rightarrow> s)) (\<lambda>_. io_return Next))))"

definition rd_index_end :: "fe_data \<Rightarrow> rec_result rd" where
  "rd_index_end fe =
     io_bind throw_record_from_tcoff (\<lambda>_. io_return (if LINKED_INPUT_FILE fe then Next else Stop_reading))"

definition rd_define_symbol :: "fe_data \<Rightarrow> rec_result rd" where
  "rd_define_symbol fe =
     (if LINKED_INPUT_FILE fe
      then io_bind getl_from_tcoff (\<lambda>_.
           io_bind getl_from_tcoff (\<lambda>_.
           io_bind getl_from_tcoff (\<lambda>expression.
             if expression \<noteq> CO_VALUE_TAG then io_fail Lex_abort
             else io_bind getl_from_tcoff (\<lambda>v.
                  io_bind (rd_update (\<lambda>s. s\<lparr>current_symbol_value := ucast v\<rparr>)) (\<lambda>_. io_return Next)))))
      else io_return Skip)"

definition rd_load_text :: "fe_data \<Rightarrow> rec_result rd" where
  "rd_load_text fe =
     io_bind (rd_get (\<lambda>s. LINKED_INPUT_FILE fe \<and> in_linked_text_section s \<and> \<not> already_read_a_text_segment s)) (\<lambda>b.
       if b
       then io_bind getl_from_tcoff (\<lambda>_.
            io_bind getl_from_tcoff (\<lambda>len.
            io_bind (throw_bytes_from_tcoff len) (\<lambda>_.
            io_bind (rd_update (\<lambda>s. s\<lparr>current_module_size := ucast (scast (current_module_size s) + len),
              already_read_a_text_segment := True\<rparr>)) (\<lambda>_. io_return Next))))
       else io_return Skip)"

definition rd_section :: "fe_data \<Rightarrow> rec_result rd" where
  "rd_section fe =
     (if LINKED_INPUT_FILE fe
      then io_bind getl_from_tcoff (\<lambda>_.
           io_bind getl_from_tcoff (\<lambda>type.
           io_bind getl_from_tcoff (\<lambda>_.
             if (ucast type :: INT32) AND EXECUTE_SECTION \<noteq> 0
             then io_bind getl_from_tcoff (\<lambda>len.
                  io_bind (getbytes_from_tcoff (ucast len)) (\<lambda>name.
                  io_bind (rd_update (\<lambda>s. s\<lparr>in_linked_text_section := (cstring name = ''linked%text'')\<rparr>)) (\<lambda>_.
                    io_return Next)))
             else throw_record)))
      else throw_record)"

definition read_tcoff_record :: "fe_data \<Rightarrow> bool \<Rightarrow> INT32 \<Rightarrow> rec_result rd" where
  "read_tcoff_record fe in_stdlib x =
     io_bind (rd_get in_module_body) (\<lambda>in_module.
       if x = LIB_INDEX_START_TAG then rd_index_start
       else if x = INDEX_ENTRY_TAG then rd_index_entry fe in_stdlib
       else if x = START_MODULE_TAG then rd_start_module
       else if x = SYMBOL_TAG then if in_module then rd_symbol_in_module fe else throw_record
       else if x = DESCRIPTOR_TAG then if in_module then rd_descriptor_in_module fe in_stdlib else throw_record
       else if x = END_MODULE_TAG then rd_end_module fe
       else if x = LIB_INDEX_END_TAG then rd_index_end fe
       else if x = DEFINE_SYMBOL_TAG then rd_define_symbol fe
       else if x = LOAD_TEXT_TAG then rd_load_text fe
       else if x = SECTION_TAG then rd_section fe
       else io_return Skip)"

definition getl_or_end :: "(LONG \<times> bool) rd" where
  "getl_or_end s =
     (case occ21_getl_test (infile s) of
        None \<Rightarrow> None
      | Some (r, f) \<Rightarrow> io_return r (s\<lparr>infile := f\<rparr>))"

partial_function (option) find_descriptor :: "fe_data \<Rightarrow> bool \<Rightarrow> reader \<Rightarrow> (lex_error + string option \<times> reader) option" where
  "find_descriptor fe in_stdlib s =
     io_bind getl_or_end (\<lambda>r s.
       if \<not> snd r then io_return None s
       else io_bind (read_tcoff_record fe in_stdlib (ucast (fst r))) (\<lambda>r s.
         case r of
           Next \<Rightarrow> find_descriptor fe in_stdlib s
         | Skip \<Rightarrow> io_bind throw_record_from_tcoff (\<lambda>_ s. find_descriptor fe in_stdlib s) s
         | Found d \<Rightarrow> io_return (Some d) s
         | Stop_reading \<Rightarrow> io_return None s) s) s"

declare find_descriptor.simps [code]

definition next_descriptor :: "fe_data \<Rightarrow> bool \<Rightarrow> unit rd" where
  "next_descriptor fe in_stdlib =
     io_bind (find_descriptor fe in_stdlib) (\<lambda>d.
       rd_update (\<lambda>s. case d of None \<Rightarrow> s\<lparr>library_eof := True\<rparr> | Some d \<Rightarrow> s\<lparr>sub_desc := d\<rparr>))"

section \<open>The lines of a descriptor\<close>

definition strchr :: "string \<Rightarrow> char \<Rightarrow> nat option" where
  "strchr s c = (let n = length (takeWhile (\<lambda>d. d \<noteq> c) s) in if n < length s then Some n else None)"

definition first_char :: "string \<Rightarrow> char" where
  "first_char s = (case s of [] \<Rightarrow> CHR 0x00 | c # _ \<Rightarrow> c)"

definition ends_mobile_header :: "string \<Rightarrow> nat \<Rightarrow> string \<Rightarrow> bool" where
  "ends_mobile_header sub len text \<longleftrightarrow>
     (case strstr sub text of None \<Rightarrow> False | Some i \<Rightarrow> i < len \<and> 2 < i)"

definition next_indent :: "string \<Rightarrow> nat \<Rightarrow> nat \<Rightarrow> nat" where
  "next_indent sub len indent =
     (if indent = 0 \<and> len \<noteq> 0 \<and> sub ! (len - 1) = CHR '')'' then 2
      else if indent = 2 then 4
      else if indent = 0 \<and> len > 11 \<and>
        (ends_mobile_header sub len '') IMPLEMENTS '' \<or> ends_mobile_header sub len '') FORK'' \<or> ends_mobile_header sub len '') SUSPEND'')
      then 2
      else indent)"

definition extra_attributes :: "string \<Rightarrow> BIT32" where
  "extra_attributes sub =
     (if take 2 sub = '':-''
      then (if strstr sub ''TIMER'' \<noteq> None then LIBENTRY_BIT_NESTED_TIMER else 0) OR
           (if strstr sub ''PLACE'' \<noteq> None then LIBENTRY_BIT_NESTED_PLACE else 0) OR
           (if strstr sub ''PORT'' \<noteq> None then LIBENTRY_BIT_NESTED_PORT else 0)
      else 0)"

definition note_attributes :: "BIT32 \<Rightarrow> reader \<Rightarrow> reader option" where
  "note_attributes b s =
     (if b = 0 then Some s
      else case libentries s of
             [] \<Rightarrow> None
           | e # es \<Rightarrow> Some (s\<lparr>libentries := set_bits_of b e # es\<rparr>))"

definition descriptor_line :: "nat \<Rightarrow> string rd" where
  "descriptor_line cap s =
     (let sub = sub_desc s;
          end = strchr sub CHR 0x0A;
          len = (case end of None \<Rightarrow> length sub | Some n \<Rightarrow> n);
          indent = (if first_char sub = CHR '' '' \<or> first_char sub = CHR '':'' then 0 else descriptor_indent s);
          line = replicate indent CHR '' '' @ take len sub @ [CHR 0x0A]
      in if cap < length line + 1 then None
         else if end = None \<or> first_char sub = CHR '':''
         then (case note_attributes (extra_attributes sub) s of
                 None \<Rightarrow> None
               | Some s \<Rightarrow> io_return line (s\<lparr>descriptor_indent := indent, in_descriptor := False\<rparr>))
         else io_return line (s\<lparr>descriptor_indent := next_indent sub len indent, sub_desc := drop (len + 1) sub\<rparr>))"

definition readdescriptorline :: "fe_data \<Rightarrow> nat \<Rightarrow> bool \<Rightarrow> string option rd" where
  "readdescriptorline fe cap in_stdlib =
     io_bind (\<lambda>s. if \<not> library_eof s \<and> \<not> in_descriptor s then next_descriptor fe in_stdlib s else io_return () s) (\<lambda>_.
     io_bind (rd_get library_eof) (\<lambda>eof.
       if eof then io_return None
       else io_bind (descriptor_line cap) (\<lambda>line. io_return (Some line))))"

section \<open>Opening and closing\<close>

definition open_descfile :: "fe_data \<Rightarrow> OCTET list \<Rightarrow> unit rd" where
  "open_descfile fe bs =
     io_bind (rd_update (\<lambda>s. s\<lparr>infile := fopen bs, library_eof := False\<rparr>)) (\<lambda>_.
     io_bind getl_from_tcoff (\<lambda>tag.
       if LINKED_INPUT_FILE fe \<and> tag \<noteq> LINKED_UNIT_TAG then io_fail LEX_TCOFF_NOT_LINKED
       else if \<not> LINKED_INPUT_FILE fe \<and> tag \<noteq> LINKABLE_TAG then io_fail LEX_TCOFF_WRONG_FORMAT
       else io_bind throw_record_from_tcoff (\<lambda>_.
            rd_update (\<lambda>s. s\<lparr>module_level := 0, in_descriptor := False, reading_module := False,
              libwname := None, file_is_a_library := False\<rparr>))))"

definition patch_entry :: "string \<Rightarrow> reader \<Rightarrow> libentry_t option \<times> reader" where
  "patch_entry name s =
     (case search_libentries (libentries s) name of
        None \<Rightarrow> (None, issue (LEX_MISSING_ENTRYPOINT (cstring name)) s)
      | Some e \<Rightarrow>
          let e = e\<lparr>l_procdefs := rev (l_procdefs e)\<rparr>
          in (Some e, save_libentry e s))"

fun patch_entries :: "string list \<Rightarrow> reader \<Rightarrow> libentry_t option list \<times> reader" where
  "patch_entries [] s = ([], s)"
| "patch_entries (name # names) s =
     (let (e, s) = patch_entry name s; (es, s) = patch_entries names s in (e # es, s))"

definition patchdescriptors :: "fe_data \<Rightarrow> string \<Rightarrow> string list \<Rightarrow> reader \<Rightarrow> libentry_t option list \<times> reader" where
  "patchdescriptors fe filename entrypointlist s =
     (let (es, s) = patch_entries entrypointlist s;
          module_found = list_ex (\<lambda>e. has_bit LIBENTRY_BIT_COMPATIBLE (l_bits e)) (libentries s);
          s = (if \<not> configuring_lang fe \<and> \<not> module_found then issue (SYN_NOTHING_IN_LIB filename) s else s)
      in (es, s\<lparr>fe_translates := rememberallnames (libentries s) (fe_translates s), libentries := [],
                localmodules := [], current_module_seekpos := 0\<rparr>))"

end
