(* ===== verification/OCC_Descriptor.thy ===== *)
theory OCC_Descriptor
  imports OCC_Library
begin

text \<open>
  The descriptors that the compiler writes of its routines (compiler/occ21/fe/objlib.c, generating a
  descriptor): the header in occam, what it does, and how it uses its channels. The nodes of the
  parse tree are datatypes with what is read of them; the hash of a type (\<open>typehash_names\<close>) and
  whether a routine inputs or outputs on a channel parameter (\<open>fe_paraminputoroutputon\<close>) are computed
  elsewhere in the compiler and are fields. An anonymous channel type, whose name begins with
  \<open>$anon.\<close>, has a constructor of its own. The buffer is the text written: it is doubled when the next string might not fit, which is enough for
  strings of up to 512 characters, the size it begins with.
\<close>

section \<open>Types and routines\<close>

datatype basic_type =
  S_BOOL | S_BYTE | S_INT | S_INT16 | S_INT32 | S_INT64 | S_UINT | S_UINT16 | S_UINT32 | S_UINT64
| S_REAL32 | S_REAL64 | S_TIMER | S_ANY | S_BARRIER

datatype dtype =
  Basic basic_type
| N_TYPEDECL string BIT32
| Mobile_typedecl string BIT32 BIT32
| Anon_chantype BIT32 dprotocol
| N_PROCTYPEDECL string BIT32
| S_FULLBARRIER
| S_MOBILE dtype
| S_ANYCHANTYPE BIT32
| S_ANYPROCTYPE
| S_ANYMOBILETYPE
| S_ARRAY INT32 "string option" dtype
| S_CHAN dprotocol BIT32
| S_PORT dprotocol BIT32
and dprotocol =
  N_TPROTDEF string BIT32
| N_SPROTDEF string BIT32
| S_COLON2 dtype dtype
| Protocol_type dtype

definition TypeAttr_marked_in :: BIT32 where "TypeAttr_marked_in = 0x10"
definition TypeAttr_marked_out :: BIT32 where "TypeAttr_marked_out = 0x20"
definition TypeAttr_shared :: BIT32 where "TypeAttr_shared = 0x200"
definition TypeAttr_undefined :: BIT32 where "TypeAttr_undefined = 0x1000"
definition TypeAttr_fixed :: BIT32 where "TypeAttr_fixed = 0x2000"

datatype param_tag = N_PARAM | N_VALPARAM | N_RESULTPARAM | Hidden_param

record dparam =
  pm_tag :: param_tag
  pm_name :: string
  pm_type :: dtype
  pm_attr :: BIT32
  pm_inputs :: bool
  pm_outputs :: bool

datatype routine_tag = Routine_proc | Routine_mproc string BIT32 | Routine_function "dtype list"

record routine =
  rt_tag :: routine_tag
  rt_name :: string
  rt_params :: "dparam list"
  rt_forks :: bool
  rt_suspends :: bool
  rt_nested_pripar :: bool
  rt_nested_timer :: bool
  rt_nested_place :: bool
  rt_nested_port :: bool

section \<open>Writing types\<close>

fun tagstring :: "basic_type \<Rightarrow> string" where
  "tagstring S_BOOL = ''BOOL''"
| "tagstring S_BYTE = ''BYTE''"
| "tagstring S_INT = ''INT''"
| "tagstring S_INT16 = ''INT16''"
| "tagstring S_INT32 = ''INT32''"
| "tagstring S_INT64 = ''INT64''"
| "tagstring S_UINT = ''UINT''"
| "tagstring S_UINT16 = ''UINT16''"
| "tagstring S_UINT32 = ''UINT32''"
| "tagstring S_UINT64 = ''UINT64''"
| "tagstring S_REAL32 = ''REAL32''"
| "tagstring S_REAL64 = ''REAL64''"
| "tagstring S_TIMER = ''TIMER''"
| "tagstring S_ANY = ''ANY''"
| "tagstring S_BARRIER = ''BARRIER''"

definition digit_char :: "nat \<Rightarrow> char" where
  "digit_char d = char_of (if d < 10 then 48 + d else 55 + d)"

fun hex_digits :: "nat \<Rightarrow> BIT32 \<Rightarrow> string" where
  "hex_digits 0 n = []"
| "hex_digits (Suc k) n = hex_digits k (drop_bit 4 n) @ [digit_char (unat (take_bit 4 n))]"

fun decimal :: "nat \<Rightarrow> string" where
  "decimal n = (if n < 10 then [digit_char n] else decimal (n div 10) @ [digit_char (n mod 10)])"

declare decimal.simps [simp del]

definition write_descnumber :: "INT32 \<Rightarrow> string" where
  "write_descnumber n = (if n <s 0 then ''-'' @ decimal (nat (- sint n)) else decimal (unat n))"

definition write_desctypehash :: "BIT32 \<Rightarrow> string" where
  "write_desctypehash h = ''@#'' @ hex_digits 8 h"

definition type_marked :: "BIT32 \<Rightarrow> BIT32 \<Rightarrow> bool" where
  "type_marked b attr \<longleftrightarrow> attr AND b \<noteq> 0"

fun write_desctype :: "dtype \<Rightarrow> string" and write_descprotocol :: "dprotocol \<Rightarrow> string" where
  "write_desctype (Basic b) = tagstring b"
| "write_desctype (N_TYPEDECL name h) = name @ write_desctypehash h"
| "write_desctype (Mobile_typedecl name h attr) =
     (if type_marked TypeAttr_shared attr then ''SHARED '' else []) @ name @ write_desctypehash h @
     (if type_marked TypeAttr_marked_out attr then ''!'' else if type_marked TypeAttr_marked_in attr then ''?'' else [])"
| "write_desctype (Anon_chantype attr p) =
     (if type_marked TypeAttr_shared attr then ''SHARED '' else []) @ ''CHAN OF '' @ write_descprotocol p"
| "write_desctype (N_PROCTYPEDECL name h) = name @ write_desctypehash h"
| "write_desctype S_FULLBARRIER = ''BARRIER''"
| "write_desctype (S_MOBILE t) = ''MOBILE '' @ write_desctype t"
| "write_desctype (S_ANYCHANTYPE attr) =
     (if type_marked TypeAttr_shared attr then ''SHARED '' else []) @ ''MOBILE.CHAN'' @
     (if type_marked TypeAttr_marked_in attr then ''?'' else if type_marked TypeAttr_marked_out attr then ''!'' else [])"
| "write_desctype S_ANYPROCTYPE = ''MOBILE.PROC''"
| "write_desctype S_ANYMOBILETYPE = ''MOBILE.ANY''"
| "write_desctype (S_ARRAY dim literal t) =
     ''['' @ (if dim \<noteq> - 1 then write_descnumber dim else case literal of None \<Rightarrow> [] | Some n \<Rightarrow> n) @ '']'' @ write_desctype t"
| "write_desctype (S_CHAN p attr) = ''CHAN OF '' @ write_descprotocol p"
| "write_desctype (S_PORT p attr) = ''PORT OF '' @ write_descprotocol p"
| "write_descprotocol (N_TPROTDEF name h) = name @ write_desctypehash h"
| "write_descprotocol (N_SPROTDEF name h) = name @ write_desctypehash h"
| "write_descprotocol (S_COLON2 l r) = write_desctype l @ ''::'' @ write_desctype r"
| "write_descprotocol (Protocol_type t) = write_desctype t"

fun write_desctypelist :: "dtype list \<Rightarrow> string" where
  "write_desctypelist [] = []"
| "write_desctypelist [t] = write_desctype t"
| "write_desctypelist (t # ts) = write_desctype t @ '','' @ write_desctypelist ts"

section \<open>Writing a header\<close>

fun same_type :: "dtype \<Rightarrow> dtype \<Rightarrow> bool" and same_protocol :: "dprotocol \<Rightarrow> dprotocol \<Rightarrow> bool" where
  "same_type (Basic a) u = (case u of Basic b \<Rightarrow> a = b \<and> a \<noteq> S_ANY \<and> a \<noteq> S_BARRIER | _ \<Rightarrow> False)"
| "same_type (S_CHAN p _) u = (case u of S_CHAN q _ \<Rightarrow> same_protocol p q | _ \<Rightarrow> False)"
| "same_type (S_PORT p _) u = (case u of S_PORT q _ \<Rightarrow> same_protocol p q | _ \<Rightarrow> False)"
| "same_type (S_ARRAY m _ t) u = (case u of S_ARRAY n _ v \<Rightarrow> m = n \<and> same_type t v | _ \<Rightarrow> False)"
| "same_type _ u = False"
| "same_protocol (N_TPROTDEF _ _) q = (case q of N_TPROTDEF _ _ \<Rightarrow> True | _ \<Rightarrow> False)"
| "same_protocol (N_SPROTDEF _ _) q = (case q of N_SPROTDEF _ _ \<Rightarrow> True | _ \<Rightarrow> False)"
| "same_protocol (Protocol_type t) q = (case q of Protocol_type u \<Rightarrow> same_type t u | _ \<Rightarrow> False)"
| "same_protocol (S_COLON2 _ _) q = False"

definition sametypeparam :: "dparam option \<Rightarrow> dparam \<Rightarrow> bool" where
  "sametypeparam p1 p2 =
     (case p1 of
        None \<Rightarrow> False
      | Some p1 \<Rightarrow> pm_tag p1 = pm_tag p2 \<and> same_type (pm_type p1) (pm_type p2))"

definition short_name :: "bool \<Rightarrow> nat \<Rightarrow> dparam \<Rightarrow> dparam" where
  "short_name short_names paramno p =
     (if short_names \<and> 2 < length (pm_name p) then p\<lparr>pm_name := ''p'' @ decimal paramno\<rparr> else p)"

definition param_specifier :: "dparam \<Rightarrow> string" where
  "param_specifier p =
     (if pm_tag p = N_VALPARAM then ''VAL ''
      else if pm_tag p = N_RESULTPARAM then ''RESULT ''
      else if type_marked TypeAttr_undefined (pm_attr p) then ''UNDEFINED ''
      else if type_marked TypeAttr_fixed (pm_attr p) then ''FIXED ''
      else [])"

definition visible_name :: "string \<Rightarrow> string" where
  "visible_name name =
     (let base = takeWhile (\<lambda>c. c \<noteq> CHR ''$'') name; suffix = drop (length base) name
      in if suffix = ''$.cli'' then base @ ''!''
         else if suffix = ''$.svr'' then base @ ''?''
         else name)"

fun element_type :: "dtype \<Rightarrow> dtype" where
  "element_type (S_ARRAY _ _ t) = element_type t"
| "element_type t = t"

definition direction :: "dtype \<Rightarrow> string" where
  "direction t =
     (let attr = (case element_type t of S_CHAN _ a \<Rightarrow> a | S_PORT _ a \<Rightarrow> a | _ \<Rightarrow> 0)
      in if type_marked TypeAttr_marked_in attr then ''?'' else if type_marked TypeAttr_marked_out attr then ''!'' else [])"

definition write_descparam :: "dparam option \<Rightarrow> dparam \<Rightarrow> nat \<Rightarrow> bool \<Rightarrow> string" where
  "write_descparam old p paramno short_names =
     (if sametypeparam old p then [] else param_specifier p @ write_desctype (pm_type p) @ '' '') @
     visible_name (pm_name (short_name short_names paramno p)) @ direction (pm_type p)"

definition isnamedformal :: "dparam \<Rightarrow> bool" where
  "isnamedformal p \<longleftrightarrow> pm_tag p \<noteq> Hidden_param"

definition DESC_LINE_LENGTH :: nat where "DESC_LINE_LENGTH = 72"

fun write_descparams :: "dparam option \<Rightarrow> nat \<Rightarrow> bool \<Rightarrow> bool \<Rightarrow> dparam list \<Rightarrow> nat \<Rightarrow> string" where
  "write_descparams lastparam paramno short_names merge_types [] line_len = []"
| "write_descparams lastparam paramno short_names merge_types (p # ps) line_len =
     (if isnamedformal p
      then let paramno = paramno + 1;
               lastparam = (if merge_types then lastparam else None);
               text = write_descparam lastparam p paramno short_names;
               old_len = line_len + 1
           in if DESC_LINE_LENGTH < old_len + length text
              then '','' @ [CHR 0x0A] @ text @ write_descparams (Some p) paramno short_names merge_types ps (length text)
              else '','' @ text @ write_descparams (Some p) paramno short_names merge_types ps (old_len + length text)
      else write_descparams lastparam paramno short_names merge_types ps line_len)"

definition header_start :: "routine \<Rightarrow> string \<Rightarrow> string" where
  "header_start rt name =
     (case rt_tag rt of
        Routine_proc \<Rightarrow> ''PROC ''
      | Routine_mproc _ _ \<Rightarrow> ''MOBILE PROC ''
      | Routine_function ts \<Rightarrow> write_desctypelist ts @ '' FUNCTION '') @ name @ ''(''"

definition header_end :: "routine \<Rightarrow> string" where
  "header_end rt =
     (case rt_tag rt of Routine_mproc ty h \<Rightarrow> '') IMPLEMENTS '' @ ty @ write_desctypehash h | _ \<Rightarrow> '')'') @
     (if rt_forks rt then '' FORK'' else []) @ (if rt_suspends rt then '' SUSPEND'' else []) @ [CHR 0x0A]"

definition write_descheader :: "routine \<Rightarrow> string \<Rightarrow> bool \<Rightarrow> bool \<Rightarrow> string" where
  "write_descheader rt name short_names merge_types =
     (let start = header_start rt name
      in start @
         (case dropWhile (\<lambda>p. \<not> isnamedformal p) (rt_params rt) of
            [] \<Rightarrow> []
          | p # ps \<Rightarrow>
              (let text = write_descparam None p 1 short_names
               in text @ write_descparams (Some p) 1 short_names merge_types ps (length start + length text))) @
         header_end rt)"

section \<open>The use of channels\<close>

fun renamed_params :: "bool \<Rightarrow> nat \<Rightarrow> dparam list \<Rightarrow> dparam list" where
  "renamed_params short_names paramno [] = []"
| "renamed_params short_names paramno (p # ps) =
     (if isnamedformal p then short_name short_names (paramno + 1) p # renamed_params short_names (paramno + 1) ps
      else p # renamed_params short_names paramno ps)"

definition is_channel :: "dtype \<Rightarrow> bool" where
  "is_channel t \<longleftrightarrow> (case element_type t of S_CHAN _ _ \<Rightarrow> True | S_PORT _ _ \<Rightarrow> True | _ \<Rightarrow> False)"

definition param_usage :: "bool \<Rightarrow> dparam \<Rightarrow> string" where
  "param_usage add_spaces p =
     (if pm_tag p = N_PARAM \<and> is_channel (pm_type p)
      then (if pm_inputs p then (if add_spaces then ''    '' else []) @ pm_name p @ ''?'' @ [CHR 0x0A] else []) @
           (if pm_outputs p then (if add_spaces then ''    '' else []) @ pm_name p @ ''!'' @ [CHR 0x0A] else [])
      else [])"

definition write_paramusage :: "dparam list \<Rightarrow> bool \<Rightarrow> string" where
  "write_paramusage ps add_spaces = concat (map (param_usage add_spaces) ps)"

fun write_desc_attrs :: "bool \<Rightarrow> (bool \<times> string) list \<Rightarrow> string" where
  "write_desc_attrs first [] = []"
| "write_desc_attrs first ((attribute, tag) # as) =
     (if attribute then (if first then ''--'' else '' '') @ tag @ write_desc_attrs False as
      else write_desc_attrs first as)"

definition create_descriptor_string :: "routine \<Rightarrow> string option \<Rightarrow> bool \<Rightarrow> bool \<Rightarrow> bool \<Rightarrow> string" where
  "create_descriptor_string rt nameptr short_names merge_types add_spaces =
     write_descheader rt (case nameptr of None \<Rightarrow> rt_name rt | Some name \<Rightarrow> name) short_names merge_types @
     (if add_spaces then ''  '' else []) @ (if rt_nested_pripar rt then ''PRI PAR'' else ''SEQ'') @ [CHR 0x0A] @
     write_paramusage (renamed_params short_names 0 (rt_params rt)) add_spaces @ '':'' @
     write_desc_attrs True [(rt_nested_timer rt, ''TIMER''), (rt_nested_place rt, ''PLACE''), (rt_nested_port rt, ''PORT'')]"

end
