(* ===== verification/OCC_Writer.thy ===== *)
theory OCC_Writer
  imports OCC_Reader OCC_Descriptor
begin

text \<open>
  The object file writer of the compiler (compiler/occ21/be/objwrt.c): the records of a module, with
  the symbol and the descriptor of each entry point, the code, and the patches for calls of
  library routines. The variables of objwrt.c are the record \<open>writer\<close>; \<open>objfile\<close> is what has been
  written. The number of a symbol is its place among the symbol records.
\<close>

section \<open>State\<close>

definition OBJ_FILE_WRT_NO_IMPORT_ORIGINS :: BIT32 where "OBJ_FILE_WRT_NO_IMPORT_ORIGINS = 0x01"
definition OBJ_FILE_WRT_NO_EXPORT_ORIGINS :: BIT32 where "OBJ_FILE_WRT_NO_EXPORT_ORIGINS = 0x02"
definition OBJ_FILE_WRT_PRI_TEXT_SECTION :: BIT32 where "OBJ_FILE_WRT_PRI_TEXT_SECTION = 0x04"
definition OBJ_FILE_WRT_OCCAM_HARNESS :: BIT32 where "OBJ_FILE_WRT_OCCAM_HARNESS = 0x08"
definition OBJ_FILE_WRT_NO_WS_SYMBOLS :: BIT32 where "OBJ_FILE_WRT_NO_WS_SYMBOLS = 0x10"
definition OBJ_FILE_WRT_MERGE_DESCRIPTORS :: BIT32 where "OBJ_FILE_WRT_MERGE_DESCRIPTORS = 0x20"
definition OBJ_FILE_WRT_SHORT_DESCRIPTORS :: BIT32 where "OBJ_FILE_WRT_SHORT_DESCRIPTORS = 0x40"
definition OBJ_FILE_WRT_SPACES_DESCRIPTORS :: BIT32 where "OBJ_FILE_WRT_SPACES_DESCRIPTORS = 0x80"

record wr_options =
  object_file_wrt_flags :: BIT32
  configuring :: bool
  processortype :: BIT32
  processorattr :: BIT32
  sourcefilename :: string
  sourcehash :: BIT32
  chanaspointer :: bool
  target_bigendian :: bool
  hast9alphaprobs :: bool
  info_line :: string
  tool_name :: string
  wordshift :: nat
  libpatchsize :: INT32

record writer =
  objfile :: "OCTET list"
  commentchain :: "string list"
  reversed_commentchain :: bool
  written_comment :: bool
  refno :: INT32
  exported_origin_id :: INT32
  local_text :: INT32
  code_size :: ULONG
  seek_position_of_startmodule :: LONG
  text_name :: string
  language_name :: INT32
  wr_modules :: "module_t list"

type_synonym 'a wr = "('a, writer, io_error) run"

definition INVALID_SYMBOL_ID :: INT32 where "INVALID_SYMBOL_ID = - 1"

definition wr_flag :: "wr_options \<Rightarrow> BIT32 \<Rightarrow> bool" where
  "wr_flag opts b \<longleftrightarrow> object_file_wrt_flags opts AND b \<noteq> 0"

definition LINKED_OUTPUT_FILE :: "wr_options \<Rightarrow> bool" where
  "LINKED_OUTPUT_FILE opts \<longleftrightarrow> configuring opts"

definition wr_get :: "(writer \<Rightarrow> 'a) \<Rightarrow> 'a wr" where
  "wr_get f w = io_return (f w) w"

definition wr_update :: "(writer \<Rightarrow> writer) \<Rightarrow> unit wr" where
  "wr_update f w = io_return () (f w)"

definition put_octets :: "OCTET list \<Rightarrow> unit wr" where
  "put_octets bs = wr_update (\<lambda>w. w\<lparr>objfile := objfile w @ bs\<rparr>)"

definition putl :: "LONG \<Rightarrow> unit wr" where
  "putl l = io_bind (io_option (tcoff_putl l)) put_octets"

definition putrec :: "LONG \<Rightarrow> string \<Rightarrow> rec_arg list \<Rightarrow> unit wr" where
  "putrec tag fmt args w =
     (case tcoff_putrec tag fmt args of
        None \<Rightarrow> None
      | Some (Inl e) \<Rightarrow> io_fail e w
      | Some (Inr bs) \<Rightarrow> put_octets bs w)"

definition text_arg :: "string \<Rightarrow> rec_arg" where
  "text_arg s = Arg_string (octets s)"

definition init_obj_writer :: "wr_options \<Rightarrow> writer \<Rightarrow> writer" where
  "init_obj_writer opts w =
     w\<lparr>language_name := (if wr_flag opts OBJ_FILE_WRT_OCCAM_HARNESS then LANG_OCCAM_HARNESS else LANG_OCCAM), refno := 0\<rparr>"

definition process_hcomment :: "string \<Rightarrow> writer \<Rightarrow> writer" where
  "process_hcomment s w = w\<lparr>commentchain := cstring s # commentchain w\<rparr>"

definition setup_text_linkage_name :: "string option \<Rightarrow> writer \<Rightarrow> writer" where
  "setup_text_linkage_name name w =
     w\<lparr>text_name := (case name of None \<Rightarrow> ''pri%text%base'' | Some n \<Rightarrow> cstring n)\<rparr>"

definition objwrt_get_section_name :: "wr_options \<Rightarrow> writer \<Rightarrow> string" where
  "objwrt_get_section_name opts w =
     (if wr_flag opts OBJ_FILE_WRT_PRI_TEXT_SECTION then ''pri%text%base'' else text_name w)"

section \<open>Symbols and descriptors\<close>

definition p_symbol_id :: "INT32 \<Rightarrow> INT32 \<Rightarrow> string \<Rightarrow> INT32 \<Rightarrow> INT32 wr" where
  "p_symbol_id type scope s origin_id =
     io_bind (if type \<noteq> 0 then putrec SECTION_TAG ''%ld%ld%s'' [Arg_int type, Arg_int scope, text_arg s]
              else if origin_id \<noteq> INVALID_SYMBOL_ID
              then putrec SPECIFIC_SYMBOL_TAG ''%ld%s%ld'' [Arg_int scope, text_arg s, Arg_int origin_id]
              else putrec SYMBOL_TAG ''%ld%s'' [Arg_int scope, text_arg s]) (\<lambda>_.
     io_bind (wr_get refno) (\<lambda>n.
     io_bind (wr_update (\<lambda>w. w\<lparr>refno := n + 1\<rparr>)) (\<lambda>_. io_return n)))"

definition put_descriptor :: "LONG \<Rightarrow> string \<Rightarrow> LONG \<Rightarrow> LONG \<Rightarrow> LONG \<Rightarrow> unit wr" where
  "put_descriptor i str ws vs ms =
     (let str = cstring str; str_len = of_nat (length str)
      in io_bind (io_option (occ21_sizel ws)) (\<lambda>sws.
         io_bind (io_option (occ21_sizel vs)) (\<lambda>svs.
         io_bind (io_option (occ21_sizel ms)) (\<lambda>sms.
         io_bind (wr_get (\<lambda>w. scast (language_name w))) (\<lambda>lang.
           let pseudo_str_len = sws + svs + sms + str_len
           in io_bind (io_option (occ21_sizel i)) (\<lambda>si.
              io_bind (io_option (occ21_sizel lang)) (\<lambda>sl.
              io_bind (io_option (occ21_sizel pseudo_str_len)) (\<lambda>sp.
                let rec_len = si + sl + sp + pseudo_str_len
                in io_bind (putl DESCRIPTOR_TAG) (\<lambda>_.
                   io_bind (putl rec_len) (\<lambda>_.
                   io_bind (putl i) (\<lambda>_.
                   io_bind (putl lang) (\<lambda>_.
                   io_bind (putl pseudo_str_len) (\<lambda>_.
                   io_bind (putl ws) (\<lambda>_.
                   io_bind (putl vs) (\<lambda>_.
                   io_bind (putl ms) (\<lambda>_.
                   put_octets (octets str)))))))))))))))))"

section \<open>The start of a module\<close>

definition put_comment :: "string \<Rightarrow> unit wr" where
  "put_comment s = putrec COMMENT_TAG ''%ld%ld%s'' [Arg_int 0, Arg_int 1, text_arg s]"

fun put_comments :: "string list \<Rightarrow> unit wr" where
  "put_comments [] = io_return ()"
| "put_comments (s # ss) = io_bind (put_comment s) (\<lambda>_. put_comments ss)"

definition write_preamble :: "wr_options \<Rightarrow> unit wr" where
  "write_preamble opts =
     io_bind (putrec (if LINKED_OUTPUT_FILE opts then LINKED_UNIT_TAG else LINKABLE_TAG) '''' []) (\<lambda>_.
     io_bind (wr_update (\<lambda>w. w\<lparr>seek_position_of_startmodule := of_nat (length (objfile w))\<rparr>)) (\<lambda>_.
     io_bind (wr_get language_name) (\<lambda>lang.
     io_bind (putrec START_MODULE_TAG ''%ld%ld%ld%s''
       [Arg_int (processortype opts), Arg_int (processorattr opts),
        Arg_int (if LINKED_OUTPUT_FILE opts then LANG_LINKED else lang), text_arg (if chanaspointer opts then [] else ''Old chans'')]) (\<lambda>_.
     putrec VERSION_TAG ''%s%s'' [text_arg (tool_name opts), text_arg (sourcefilename opts)]))))"

definition write_version_comments :: "wr_options \<Rightarrow> unit wr" where
  "write_version_comments opts =
     io_bind (wr_get written_comment) (\<lambda>b.
       if b then io_return ()
       else io_bind (put_comment (info_line opts)) (\<lambda>_.
            io_bind (if hast9alphaprobs opts then put_comment ''T9000 Alpha'' else io_return ()) (\<lambda>_.
            wr_update (\<lambda>w. w\<lparr>written_comment := True\<rparr>))))"

definition write_standard_symbols :: "wr_options \<Rightarrow> unit wr" where
  "write_standard_symbols opts =
     io_bind (wr_get (objwrt_get_section_name opts)) (\<lambda>name.
     io_bind (p_symbol_id (EXECUTE_SECTION OR READ_SECTION) EXPORT_USAGE name INVALID_SYMBOL_ID) (\<lambda>text_base.
     io_bind (putrec SET_LOAD_POINT_TAG ''%ld'' [Arg_int text_base]) (\<lambda>_.
       if LINKED_OUTPUT_FILE opts then io_return ()
       else io_bind (p_symbol_id 0 LOCAL_USAGE ''local%text'' INVALID_SYMBOL_ID) (\<lambda>n.
            io_bind (wr_update (\<lambda>w. w\<lparr>local_text := n\<rparr>)) (\<lambda>_.
            putrec DEFINE_LABEL_TAG ''%ld'' [Arg_int n])))))"

definition unique_id :: "wr_options \<Rightarrow> string" where
  "unique_id opts = sourcefilename opts @ '':'' @ hex_digits 8 (sourcehash opts)"

definition export_origin :: "wr_options \<Rightarrow> unit wr" where
  "export_origin opts =
     (if wr_flag opts OBJ_FILE_WRT_NO_EXPORT_ORIGINS
      then wr_update (\<lambda>w. w\<lparr>exported_origin_id := INVALID_SYMBOL_ID\<rparr>)
      else io_bind (p_symbol_id 0 (ORIGIN_USAGE OR EXPORT_USAGE) (unique_id opts) INVALID_SYMBOL_ID) (\<lambda>n.
           if LINKED_OUTPUT_FILE opts then wr_update (\<lambda>w. w\<lparr>exported_origin_id := INVALID_SYMBOL_ID\<rparr>)
           else io_bind (wr_update (\<lambda>w. w\<lparr>exported_origin_id := n\<rparr>)) (\<lambda>_.
                put_descriptor (scast n) [] (- 1) 0 0)))"

definition write_hcomments :: "wr_options \<Rightarrow> unit wr" where
  "write_hcomments opts =
     io_bind (wr_update (\<lambda>w. if reversed_commentchain w then w
       else w\<lparr>commentchain := rev (commentchain w), reversed_commentchain := True\<rparr>)) (\<lambda>_.
     io_bind (wr_get commentchain) (\<lambda>cs.
     io_bind (put_comments cs) (\<lambda>_.
     wr_update (\<lambda>w. w\<lparr>commentchain := []\<rparr>))))"

definition write_id :: "wr_options \<Rightarrow> unit wr" where
  "write_id opts =
     io_bind (write_preamble opts) (\<lambda>_.
     io_bind (write_version_comments opts) (\<lambda>_.
     io_bind (put_comment (if target_bigendian opts then ''.ENDIAN big'' else ''.ENDIAN little'')) (\<lambda>_.
     io_bind (write_standard_symbols opts) (\<lambda>_.
     io_bind (export_origin opts) (\<lambda>_.
     write_hcomments opts)))))"

section \<open>Entry points\<close>

record entry_point =
  ep_routine :: routine
  ep_datasize :: INT32
  ep_vsusage :: INT32
  ep_msusage :: INT32

definition adjusted_offset :: "wr_options \<Rightarrow> INT32 \<Rightarrow> INT32" where
  "adjusted_offset opts offset = (if wordshift opts = 3 then offset * 2 else offset)"

definition ws_symbols :: "wr_options \<Rightarrow> string \<Rightarrow> (INT32 \<times> INT32 \<times> INT32) wr" where
  "ws_symbols opts name =
     (if wr_flag opts OBJ_FILE_WRT_NO_WS_SYMBOLS then io_return (INVALID_SYMBOL_ID, INVALID_SYMBOL_ID, INVALID_SYMBOL_ID)
      else io_bind (wr_get exported_origin_id) (\<lambda>org.
           io_bind (p_symbol_id 0 (EXPORT_USAGE OR UNINDEXED_USAGE) (name @ [CHR 0x27] @ ''ws'') org) (\<lambda>label_ws.
           io_bind (p_symbol_id 0 (EXPORT_USAGE OR UNINDEXED_USAGE) (name @ [CHR 0x27] @ ''vs'') org) (\<lambda>label_vs.
           io_bind (p_symbol_id 0 (EXPORT_USAGE OR UNINDEXED_USAGE) (name @ [CHR 0x27] @ ''ms'') org) (\<lambda>label_ms.
           io_return (label_ws, label_vs, label_ms))))))"

definition define_value :: "INT32 \<Rightarrow> INT32 \<Rightarrow> unit wr" where
  "define_value n v = putrec DEFINE_SYMBOL_TAG ''%ld%ld%ld'' [Arg_int n, Arg_int CO_VALUE_TAG, Arg_int v]"

definition define_in_text :: "INT32 \<Rightarrow> INT32 \<Rightarrow> unit wr" where
  "define_in_text n v =
     io_bind (wr_get local_text) (\<lambda>t.
       putrec DEFINE_SYMBOL_TAG ''%ld%ld%ld%ld%ld%ld''
         [Arg_int n, Arg_int PLUS_OP, Arg_int SV_VALUE_TAG, Arg_int t, Arg_int CO_VALUE_TAG, Arg_int v])"

definition define_entry_symbols :: "wr_options \<Rightarrow> string \<Rightarrow> INT32 \<Rightarrow> entry_point \<Rightarrow> INT32 \<Rightarrow> unit wr" where
  "define_entry_symbols opts name n ep offset =
     (if LINKED_OUTPUT_FILE opts then define_value n (adjusted_offset opts offset)
      else io_bind (ws_symbols opts name) (\<lambda>(label_ws, label_vs, label_ms).
           io_bind (define_in_text n (adjusted_offset opts offset)) (\<lambda>_.
             if wr_flag opts OBJ_FILE_WRT_NO_WS_SYMBOLS then io_return ()
             else io_bind (define_value label_ws (ep_datasize ep)) (\<lambda>_.
                  io_bind (define_value label_vs (ep_vsusage ep)) (\<lambda>_.
                  define_value label_ms (ep_msusage ep))))))"

definition entry_descriptor :: "wr_options \<Rightarrow> fe_translate_data_s \<Rightarrow> entry_point \<Rightarrow> string" where
  "entry_descriptor opts tr ep =
     create_descriptor_string (ep_routine ep) (Some (translate_from_internal tr (rt_name (ep_routine ep))))
       (wr_flag opts OBJ_FILE_WRT_SHORT_DESCRIPTORS) (wr_flag opts OBJ_FILE_WRT_MERGE_DESCRIPTORS)
       (wr_flag opts OBJ_FILE_WRT_SPACES_DESCRIPTORS)"

definition write_entry_desc :: "wr_options \<Rightarrow> fe_translate_data_s \<Rightarrow> entry_point \<Rightarrow> INT32 \<Rightarrow> unit wr" where
  "write_entry_desc opts tr ep offset =
     (let name = translate_from_internal tr (rt_name (ep_routine ep))
      in io_bind (wr_get exported_origin_id) (\<lambda>org.
         io_bind (p_symbol_id 0 (EXPORT_USAGE OR ROUTINE_USAGE) name org) (\<lambda>n.
         io_bind (define_entry_symbols opts name n ep offset) (\<lambda>_.
         io_bind (put_descriptor (scast n) (entry_descriptor opts tr ep) (scast (ep_datasize ep)) (scast (ep_vsusage ep)) (scast (ep_msusage ep))) (\<lambda>_.
           if LINKED_OUTPUT_FILE opts then putrec DEFINE_MAIN_TAG ''%ld'' [Arg_int n] else io_return ())))))"

definition write_local_entry :: "wr_options \<Rightarrow> fe_translate_data_s \<Rightarrow> string \<Rightarrow> INT32 \<Rightarrow> unit wr" where
  "write_local_entry opts tr name offset =
     (if LINKED_OUTPUT_FILE opts then io_return ()
      else io_bind (wr_get exported_origin_id) (\<lambda>org.
           io_bind (p_symbol_id 0 (LOCAL_USAGE OR ROUTINE_USAGE) (translate_from_internal tr name) org) (\<lambda>n.
           define_in_text n offset)))"

section \<open>Code\<close>

definition write_debug_string :: "OCTET list \<Rightarrow> LONG \<Rightarrow> unit wr" where
  "write_debug_string s len =
     io_bind (io_option (occ21_sizel 0)) (\<lambda>z.
     io_bind (io_option (occ21_sizel len)) (\<lambda>n.
     io_bind (putl COMMENT_TAG) (\<lambda>_.
     io_bind (putl (z + z + n + len)) (\<lambda>_.
     io_bind (putl 0) (\<lambda>_.
     io_bind (putl 0) (\<lambda>_.
     io_bind (putl len) (\<lambda>_.
     io_bind (io_option (fwrite s len)) put_octets)))))))"

definition write_code_block_start :: "ULONG \<Rightarrow> unit wr" where
  "write_code_block_start len =
     io_bind (if 0 < len
              then io_bind (io_option (occ21_sizel len)) (\<lambda>n.
                   io_bind (putl LOAD_TEXT_TAG) (\<lambda>_.
                   io_bind (putl (n + len)) (\<lambda>_. putl len)))
              else io_return ()) (\<lambda>_.
     wr_update (\<lambda>w. w\<lparr>code_size := len\<rparr>))"

definition write_code_block :: "ULONG \<Rightarrow> OCTET list \<Rightarrow> unit wr" where
  "write_code_block buflen buffer =
     (if 0 < buflen then io_bind (io_option (fwrite buffer buflen)) put_octets else io_return ())"

definition write_end_module :: "unit wr" where
  "write_end_module = putrec END_MODULE_TAG '''' []"

definition saved_seek_position :: "writer \<Rightarrow> LONG" where
  "saved_seek_position w = seek_position_of_startmodule w"

section \<open>Library calls\<close>

record library_call =
  lc_node :: lib_node
  lc_offset :: INT32

definition origin_symbol :: "wr_options \<Rightarrow> nat \<Rightarrow> INT32 wr" where
  "origin_symbol opts a =
     io_bind (wr_get (\<lambda>w. wr_modules w ! a)) (\<lambda>m.
       if wr_flag opts OBJ_FILE_WRT_NO_IMPORT_ORIGINS then io_return INVALID_SYMBOL_ID
       else if m_id_val m = ORIGIN_NOT_FOUND then io_return INVALID_SYMBOL_ID
       else if m_id_val m = ORIGIN_FOUND
       then io_bind (p_symbol_id 0 (IMPORT_USAGE OR ORIGIN_USAGE) (m_name m) INVALID_SYMBOL_ID) (\<lambda>n.
            io_bind (wr_update (\<lambda>w. w\<lparr>wr_modules := (wr_modules w)[a := m\<lparr>m_id_val := n\<rparr>]\<rparr>)) (\<lambda>_. io_return n))
       else io_return (m_id_val m))"

definition adjust_point :: "INT32 \<Rightarrow> unit wr" where
  "adjust_point adjust =
     (if adjust \<noteq> 0 then putrec ADJUST_POINT_TAG ''%ld%ld'' [Arg_int CO_VALUE_TAG, Arg_int adjust] else io_return ())"

definition patch_call :: "wr_options \<Rightarrow> fe_data \<Rightarrow> fe_translate_data_s \<Rightarrow> INT32 \<Rightarrow> library_call \<Rightarrow> INT32 \<Rightarrow> INT32 wr" where
  "patch_call opts fe tr instruction c pos =
     io_bind (wr_get (\<lambda>w. fst (get_procdef fe (wr_modules w) (lc_node c) False (configuring opts)))) (\<lambda>p.
       case p of
         None \<Rightarrow> (\<lambda>w. None)
       | Some p \<Rightarrow>
           io_bind (adjust_point (lc_offset c - pos)) (\<lambda>_.
           io_bind (origin_symbol opts (p_module p)) (\<lambda>origin_id.
           io_bind (p_symbol_id 0 IMPORT_USAGE (translate_from_internal tr (nd_name (lc_node c))) origin_id) (\<lambda>label.
           io_bind (putrec LOAD_PREFIX_TAG ''%ld%ld%ld%ld%ld%ld%ld''
             [Arg_int (libpatchsize opts), Arg_int AP_VALUE_TAG, Arg_int MINUS_OP, Arg_int SV_VALUE_TAG, Arg_int label,
              Arg_int LP_VALUE_TAG, Arg_int instruction]) (\<lambda>_.
             io_return (lc_offset c + libpatchsize opts))))))"

fun patch_calls :: "wr_options \<Rightarrow> fe_data \<Rightarrow> fe_translate_data_s \<Rightarrow> INT32 \<Rightarrow> library_call list \<Rightarrow> INT32 \<Rightarrow> INT32 wr" where
  "patch_calls opts fe tr instruction [] pos = io_return pos"
| "patch_calls opts fe tr instruction (c # cs) pos =
     io_bind (patch_call opts fe tr instruction c pos) (\<lambda>pos. patch_calls opts fe tr instruction cs pos)"

definition write_library_calls ::
  "wr_options \<Rightarrow> fe_data \<Rightarrow> fe_translate_data_s \<Rightarrow> bool \<Rightarrow> library_call list \<Rightarrow> INT32 \<Rightarrow> unit wr" where
  "write_library_calls opts fe tr reverse libcalls instruction =
     (if LINKED_OUTPUT_FILE opts then io_return ()
      else io_bind (wr_get (\<lambda>w. ucast (code_size w))) (\<lambda>size.
           io_bind (patch_calls opts fe tr instruction (if reverse then rev libcalls else libcalls) size) (\<lambda>pos.
           adjust_point (size - pos))))"

section \<open>The modules of a configured program\<close>

fun module_address :: "module_t list \<Rightarrow> nat \<Rightarrow> nat list \<Rightarrow> INT32 \<Rightarrow> bool \<times> INT32" where
  "module_address mods a [] address = (False, address)"
| "module_address mods a (b # list) address =
     (if a = b then (True, address - m_size (mods ! b)) else module_address mods a list (address - m_size (mods ! b)))"

definition add_to_module_list ::
  "fe_data \<Rightarrow> module_t list \<Rightarrow> bool \<Rightarrow> nat list \<Rightarrow> lib_node \<Rightarrow> (nat list \<times> INT32) option" where
  "add_to_module_list fe mods allow_fpu_call list lib =
     (case fst (get_procdef fe mods lib False allow_fpu_call) of
        None \<Rightarrow> None
      | Some p \<Rightarrow>
          case p_offset p of
            None \<Rightarrow> None
          | Some offset \<Rightarrow>
              (case module_address mods (p_module p) list 0 of
                 (True, address) \<Rightarrow> Some (list, address + offset)
               | (False, address) \<Rightarrow> Some (list @ [p_module p], address - m_size (mods ! p_module p) + offset)))"

definition write_desclong :: "LONG \<Rightarrow> string" where
  "write_desclong n = (if n <s 0 then ''-'' @ decimal (nat (- sint n)) else decimal (unat n))"

definition map_line :: "string \<Rightarrow> string \<Rightarrow> LONG \<Rightarrow> INT32 \<Rightarrow> INT32 \<Rightarrow> string" where
  "map_line kind filename seek_ptr start sz =
     kind @ '' '' @ filename @ '' ('' @ write_desclong seek_ptr @ '') '' @ write_descnumber start @ '' '' @
     write_descnumber (start + sz - 1) @ '' : -'' @ [CHR 0x0A]"

fun map_modules :: "(INT32 \<Rightarrow> string) \<Rightarrow> module_t list \<Rightarrow> nat list \<Rightarrow> INT32 \<Rightarrow> string" where
  "map_modules lookupfilename mods [] start = []"
| "map_modules lookupfilename mods (a # list) start =
     (let m = mods ! a; start = start - m_size m
      in map_line ''PRE'' (lookupfilename (m_filenum m)) (m_seek_ptr m) start (m_size m) @
         map_modules lookupfilename mods list start)"

definition write_linker_map ::
  "wr_options \<Rightarrow> (INT32 \<Rightarrow> string) \<Rightarrow> string \<Rightarrow> INT32 \<Rightarrow> LONG \<Rightarrow> module_t list \<Rightarrow> nat list \<Rightarrow> unit wr" where
  "write_linker_map opts lookupfilename filename toplevel_size seek_pos mods module_list =
     (let start = sum_list (map (\<lambda>a. m_size (mods ! a)) module_list)
      in put_comment (''LINKER TCOFF ('' @ tool_name opts @ '')'' @ [CHR 0x0A] @
           map_line ''SC'' filename seek_pos start toplevel_size @ map_modules lookupfilename mods module_list start))"

end
