(* ===== verification/OCC_Lines.thy ===== *)
theory OCC_Lines
  imports OCC_Reader
begin

text \<open>
  The lines of a descriptor as the lexer gets them: indentation that was left out of the descriptor
  is put back.
\<close>

abbreviation NL :: char where "NL \<equiv> CHR 0x0A"

section \<open>Searching strings\<close>

lemma strstr_Some: "strstr s needle = Some i \<Longrightarrow> i \<le> length s \<and> take (length needle) (drop i s) = needle"
  by (induction s arbitrary: i) (auto split: if_splits)

lemma strstr_first: "strstr s (c # needle) = Some i \<Longrightarrow> i < length s \<and> s ! i = c"
  using strstr_Some[of s "c # needle" i] by (cases "i < length s") (auto simp: Cons_nth_drop_Suc[symmetric])

lemma strstr_skip: "c \<notin> set s \<Longrightarrow> strstr (s @ t) (c # needle) = map_option (\<lambda>i. length s + i) (strstr t (c # needle))"
  by (induction s; cases "strstr t (c # needle)") auto

lemma strchr_found: "c \<notin> set l \<Longrightarrow> strchr (l @ c # t) c = Some (length l)"
  by (simp add: strchr_def takeWhile_append)

lemma strchr_none: "c \<notin> set l \<Longrightarrow> strchr l c = None"
proof -
  assume "c \<notin> set l"
  then have t: "takeWhile (\<lambda>d. d \<noteq> c) l = l" by (auto simp: takeWhile_eq_all_conv)
  show ?thesis unfolding strchr_def Let_def t by simp
qed

section \<open>One line\<close>

fun read_lines :: "fe_data \<Rightarrow> nat \<Rightarrow> bool \<Rightarrow> nat \<Rightarrow> string list rd" where
  "read_lines fe cap in_stdlib 0 = io_return []"
| "read_lines fe cap in_stdlib (Suc n) =
     io_bind (readdescriptorline fe cap in_stdlib) (\<lambda>l.
       case l of
         None \<Rightarrow> io_return []
       | Some l \<Rightarrow> io_bind (read_lines fe cap in_stdlib n) (\<lambda>ls. io_return (l # ls)))"

definition at_line :: "reader \<Rightarrow> nat \<Rightarrow> string \<Rightarrow> reader \<Rightarrow> bool" where
  "at_line s i text s0 \<longleftrightarrow> s = s0\<lparr>descriptor_indent := i, sub_desc := text\<rparr> \<and> in_descriptor s0 \<and> \<not> library_eof s0"

lemmas rd_defs = io_bind_def io_return_def io_fail_def io_option_def rd_get_def rd_update_def

lemma next_line:
  assumes "at_line s i (l @ NL # rest) s0" "NL \<notin> set l" "l \<noteq> []" "hd l \<noteq> CHR '':''" "i + length l + 2 \<le> cap"
    and "j = (if hd l = CHR '' '' then 0 else i)"
  shows "\<exists>s'. readdescriptorline fe cap in_stdlib s = Some (Inr (Some (replicate j CHR '' '' @ l @ [NL]), s')) \<and>
    at_line s' (next_indent (l @ NL # rest) (length l) j) rest s0"
proof -
  have "first_char (l @ NL # rest) = hd l" using assms(3) by (cases l) (simp_all add: first_char_def)
  then show ?thesis
    using assms strchr_found[OF assms(2), of rest]
    by (auto simp: at_line_def readdescriptorline_def descriptor_line_def rd_defs Let_def)
qed

lemma last_line:
  assumes "at_line s i (CHR '':'' # attrs) s0" "NL \<notin> set attrs" "length attrs + 3 \<le> cap"
    and "note_attributes (extra_attributes (CHR '':'' # attrs)) s = Some s1"
  shows "readdescriptorline fe cap in_stdlib s =
    Some (Inr (Some (CHR '':'' # attrs @ [NL]), s1\<lparr>descriptor_indent := 0, in_descriptor := False\<rparr>))"
proof -
  have "strchr (CHR '':'' # attrs) NL = None" using assms(2) by (intro strchr_none) simp
  then show ?thesis
    using assms(1,3,4) by (simp add: at_line_def readdescriptorline_def descriptor_line_def rd_defs first_char_def Let_def)
qed

lemma read_lines_step:
  assumes "readdescriptorline fe cap in_stdlib s = Some (Inr (Some l, s'))" "read_lines fe cap in_stdlib n s' = Some (Inr (ls, s2))"
  shows "read_lines fe cap in_stdlib (Suc n) s = Some (Inr (l # ls, s2))"
  using assms by (simp add: rd_defs)

section \<open>The indentation of the next line\<close>

lemma no_mobile_header:
  assumes "CHR '')'' \<notin> set l"
  shows "\<not> ends_mobile_header (l @ t) (length l) (CHR '')'' # needle)"
  using strstr_first[of "l @ t" "CHR '')''" needle] assms
  unfolding ends_mobile_header_def
  by (auto simp: nth_append split: option.splits) (metis nth_mem)

lemma next_indent_stays:
  assumes "CHR '')'' \<notin> set l" "i \<noteq> 2"
  shows "next_indent (l @ t) (length l) i = i"
proof -
  have "l \<noteq> [] \<Longrightarrow> (l @ t) ! (length l - 1) \<noteq> CHR '')''" using assms(1) by (metis append_butlast_last_id last_conv_nth last_in_set nth_append diff_less length_greater_0_conv zero_less_one)
  then show ?thesis using assms no_mobile_header by (auto simp: next_indent_def)
qed

lemma next_indent_header: "next_indent ((l @ [CHR '')'']) @ t) (length (l @ [CHR '')''])) 0 = 2"
  by (simp add: next_indent_def nth_append)

lemma mobile_header:
  assumes "CHR '')'' \<notin> set l" "2 < length l" "n = length l + k" "0 < k"
  shows "ends_mobile_header (l @ (CHR '')'' # pat) @ t) n (CHR '')'' # pat)"
proof -
  have "strstr ((CHR '')'' # pat) @ t) (CHR '')'' # pat) = Some 0" by simp
  then have "strstr (l @ (CHR '')'' # pat) @ t) (CHR '')'' # pat) = Some (length l)"
    using strstr_skip[OF assms(1), of "(CHR '')'' # pat) @ t" pat] by simp
  then show ?thesis using assms(2,3,4) by (simp add: ends_mobile_header_def)
qed

lemma next_indent_tail:
  assumes "CHR '')'' \<notin> set l" "2 < length l" "11 < length (l @ tail)"
    and "tail = '') FORK'' @ x \<or> tail = '') SUSPEND'' @ x \<or> tail = '') IMPLEMENTS '' @ x"
  shows "next_indent ((l @ tail) @ t) (length (l @ tail)) 0 = 2"
proof -
  have "ends_mobile_header ((l @ tail) @ t) (length (l @ tail)) '') FORK'' \<or>
      ends_mobile_header ((l @ tail) @ t) (length (l @ tail)) '') SUSPEND'' \<or>
      ends_mobile_header ((l @ tail) @ t) (length (l @ tail)) '') IMPLEMENTS ''"
    using assms(4) mobile_header[OF assms(1,2), of _ "length tail" "'' FORK''" "x @ t"]
      mobile_header[OF assms(1,2), of _ "length tail" "'' SUSPEND''" "x @ t"]
      mobile_header[OF assms(1,2), of _ "length tail" "'' IMPLEMENTS ''" "x @ t"]
    by (elim disjE) simp_all
  then show ?thesis using assms(3) by (auto simp: next_indent_def)
qed

section \<open>The lines of a descriptor\<close>

definition unlines :: "string list \<Rightarrow> string" where
  "unlines ls = concat (map (\<lambda>l. l @ [NL]) ls)"

definition plain_line :: "nat \<Rightarrow> string \<Rightarrow> bool" where
  "plain_line room l \<longleftrightarrow> NL \<notin> set l \<and> CHR '')'' \<notin> set l \<and> l \<noteq> [] \<and> hd l \<noteq> CHR '':'' \<and> length l \<le> room"

definition indented :: "nat \<Rightarrow> string \<Rightarrow> string" where
  "indented i l = replicate i CHR '' '' @ l"

lemma read_lines_append:
  assumes "read_lines fe cap in_stdlib m s = Some (Inr (xs, s1))" "length xs = m" "read_lines fe cap in_stdlib n s1 = Some (Inr (ys, s2))"
  shows "read_lines fe cap in_stdlib (m + n) s = Some (Inr (xs @ ys, s2))"
  using assms
proof (induction m arbitrary: s xs)
  case (Suc m)
  then show ?case
    by (cases xs) (fastforce simp: rd_defs split: option.splits sum.splits prod.splits)+
qed (simp add: rd_defs)

lemma read_block:
  assumes "at_line s i (unlines ls @ rest) s0" "i \<noteq> 2" "i + 2 \<le> cap"
    and "\<And>l. l \<in> set ls \<Longrightarrow> plain_line (cap - i - 2) l \<and> (hd l \<noteq> CHR '' '' \<or> i = 0)"
  shows "\<exists>s'. read_lines fe cap in_stdlib (length ls) s = Some (Inr (map (\<lambda>l. indented i l @ [NL]) ls, s')) \<and> at_line s' i rest s0"
  using assms(1,4)
proof (induction ls arbitrary: s)
  case (Cons l ls)
  have l: "NL \<notin> set l" "l \<noteq> []" "hd l \<noteq> CHR '':''" "i + length l + 2 \<le> cap" "CHR '')'' \<notin> set l"
    and i: "i = (if hd l = CHR '' '' then 0 else i)"
    using Cons.prems(2)[of l] assms(3) by (auto simp: plain_line_def)
  have "at_line s i (l @ NL # (unlines ls @ rest)) s0" using Cons.prems(1) by (simp add: unlines_def)
  from next_line[OF this l(1-4) i] obtain s1 where
      s1: "readdescriptorline fe cap in_stdlib s = Some (Inr (Some (replicate i CHR '' '' @ l @ [NL]), s1))"
      "at_line s1 (next_indent (l @ NL # unlines ls @ rest) (length l) i) (unlines ls @ rest) s0" by blast
  have "at_line s1 i (unlines ls @ rest) s0" using s1(2) next_indent_stays[OF l(5) assms(2)] by simp
  from Cons.IH[OF this] Cons.prems(2) obtain s2 where
      s2: "read_lines fe cap in_stdlib (length ls) s1 = Some (Inr (map (\<lambda>l. indented i l @ [NL]) ls, s2))" "at_line s2 i rest s0"
    by (metis list.set_intros(2))
  show ?case using read_lines_step[OF s1(1) s2(1)] s2(2) by (auto simp: indented_def simp del: read_lines.simps)
qed (simp add: unlines_def rd_defs)

lemma read_line_one:
  "readdescriptorline fe cap in_stdlib s = Some (Inr (Some l, s')) \<Longrightarrow> read_lines fe cap in_stdlib 1 s = Some (Inr ([l], s'))"
  by (simp add: rd_defs)

declare read_lines.simps(2) [simp del]

text \<open>
  A header line that is not the last ends in a comma; the last one, given by its \<open>tail\<close> from its
  closing parenthesis on, must be seen to be so.
\<close>

definition header_tail :: "string \<Rightarrow> string \<Rightarrow> bool" where
  "header_tail l tail \<longleftrightarrow>
     NL \<notin> set tail \<and>
     (tail = '')'' \<or> 2 < length l \<and> 11 < length (l @ tail) \<and>
        (\<exists>x. tail = '') FORK'' @ x \<or> tail = '') SUSPEND'' @ x \<or> tail = '') IMPLEMENTS '' @ x))"

lemma header_tail_indents:
  "header_tail l tail \<Longrightarrow> CHR '')'' \<notin> set l \<Longrightarrow> next_indent ((l @ tail) @ t) (length (l @ tail)) 0 = 2"
  using next_indent_header[of l t] next_indent_tail[of l tail _ t] unfolding header_tail_def by auto

lemma read_header:
  assumes "at_line s 0 (unlines (hs @ [h @ tail]) @ rest) s0" "2 \<le> cap" "header_tail h tail" "h \<noteq> []"
    and "\<And>l. l \<in> set hs \<Longrightarrow> plain_line (cap - 2) l" "plain_line (cap - 2) h" "hd h \<noteq> CHR '' ''"
    and "length (h @ tail) + 2 \<le> cap"
  shows "\<exists>s'. read_lines fe cap in_stdlib (length hs + 1) s = Some (Inr (map (\<lambda>l. l @ [NL]) (hs @ [h @ tail]), s')) \<and>
    at_line s' 2 rest s0"
proof -
  have "at_line s 0 (unlines hs @ (h @ tail) @ NL # rest) s0" using assms(1) by (simp add: unlines_def)
  from read_block[OF this, where cap = cap and fe = fe and in_stdlib = in_stdlib] assms(2,5) obtain s1 where
      1: "read_lines fe cap in_stdlib (length hs) s = Some (Inr (map (\<lambda>l. indented 0 l @ [NL]) hs, s1))"
      "at_line s1 0 ((h @ tail) @ NL # rest) s0" by auto
  have h: "NL \<notin> set (h @ tail)" "h @ tail \<noteq> []" "hd (h @ tail) \<noteq> CHR '':''" "0 + length (h @ tail) + 2 \<le> cap" "CHR '')'' \<notin> set h"
    using assms(3,4,6,8) by (auto simp: plain_line_def header_tail_def)
  have "0 = (if hd (h @ tail) = CHR '' '' then 0 else 0 :: nat)" by simp
  from next_line[OF 1(2) h(1-4) this] obtain s2 where
      2: "readdescriptorline fe cap in_stdlib s1 = Some (Inr (Some (replicate 0 CHR '' '' @ (h @ tail) @ [NL]), s2))"
      "at_line s2 (next_indent ((h @ tail) @ NL # rest) (length (h @ tail)) 0) rest s0" by blast
  have "read_lines fe cap in_stdlib 1 s1 = Some (Inr ([(h @ tail) @ [NL]], s2))" using read_line_one[OF 2(1)] by simp
  from read_lines_append[OF 1(1) _ this] show ?thesis
    using 2(2) header_tail_indents[OF assms(3) h(5)] by (intro exI[of _ s2]) (simp add: indented_def)
qed

definition body_ok :: "nat \<Rightarrow> string \<Rightarrow> string list \<Rightarrow> string \<Rightarrow> bool" where
  "body_ok cap kw cs attrs \<longleftrightarrow>
     (\<forall>l \<in> set (kw # cs). plain_line (cap - 6) l \<and> hd l \<noteq> CHR '' '') \<and> NL \<notin> set attrs \<and> length attrs + 3 \<le> cap \<and> 6 \<le> cap"

lemma read_keyword:
  assumes "at_line s i (kw @ NL # rest) s0" "plain_line (cap - 6) kw" "hd kw \<noteq> CHR '' ''" "6 \<le> cap" "i = 2"
  shows "\<exists>s'. readdescriptorline fe cap in_stdlib s = Some (Inr (Some (indented 2 kw @ [NL]), s')) \<and> at_line s' 4 rest s0"
proof -
  have kw: "NL \<notin> set kw" "kw \<noteq> []" "hd kw \<noteq> CHR '':''" "i + length kw + 2 \<le> cap" "i = (if hd kw = CHR '' '' then 0 else i)"
    using assms(2-5) by (auto simp: plain_line_def)
  have "next_indent (kw @ NL # rest) (length kw) 2 = 4" by (simp add: next_indent_def)
  with next_line[OF assms(1) kw] assms(5) show ?thesis by (auto simp: indented_def)
qed

definition descriptor_lines :: "string list \<Rightarrow> string \<Rightarrow> string list \<Rightarrow> string \<Rightarrow> string list" where
  "descriptor_lines header kw cs attrs =
     map (\<lambda>l. l @ [NL]) (header @ [indented 2 kw] @ map (indented 4) cs @ [CHR '':'' # attrs])"

lemma note_attributes_head:
  assumes "libentries s \<noteq> []"
  shows "\<exists>s'. note_attributes b s = Some s' \<and> libentries s' = set_bits_of b (hd (libentries s)) # tl (libentries s)"
  using assms by (cases "libentries s") (auto simp: note_attributes_def set_bits_of_def)

lemma read_last:
  assumes "at_line s i (CHR '':'' # attrs) s0" "NL \<notin> set attrs" "length attrs + 3 \<le> cap" "libentries s0 \<noteq> []"
  shows "\<exists>s'. read_lines fe cap in_stdlib 1 s = Some (Inr ([CHR '':'' # attrs @ [NL]], s')) \<and> \<not> in_descriptor s' \<and>
    libentries s' = set_bits_of (extra_attributes (CHR '':'' # attrs)) (hd (libentries s0)) # tl (libentries s0)"
proof -
  have e: "libentries s = libentries s0" using assms(1) by (simp add: at_line_def)
  obtain s1 where "note_attributes (extra_attributes (CHR '':'' # attrs)) s = Some s1"
      "libentries s1 = set_bits_of (extra_attributes (CHR '':'' # attrs)) (hd (libentries s0)) # tl (libentries s0)"
    using note_attributes_head[of s] assms(4) e by metis
  then show ?thesis using read_line_one[OF last_line[OF assms(1-3)]] by fastforce
qed

text \<open>The state after the descriptor and the attributes it leaves with the first entry.\<close>

definition descriptor_read :: "reader \<Rightarrow> string \<Rightarrow> reader \<Rightarrow> bool" where
  "descriptor_read s0 attrs s \<longleftrightarrow>
     \<not> in_descriptor s \<and>
     libentries s = set_bits_of (extra_attributes (CHR '':'' # attrs)) (hd (libentries s0)) # tl (libentries s0)"

lemma read_body:
  assumes "at_line s 2 (indented n kw @ NL # unlines (map (indented m) cs) @ CHR '':'' # attrs) s0"
    and "n = 0 \<and> m = 0 \<or> n = 2 \<and> m = 4" "body_ok cap kw cs attrs" "libentries s0 \<noteq> []"
  shows "\<exists>s'. read_lines fe cap in_stdlib (1 + (length cs + 1)) s =
      Some (Inr (map (\<lambda>l. l @ [NL]) (indented 2 kw # map (indented 4) cs @ [CHR '':'' # attrs]), s')) \<and>
    descriptor_read s0 attrs s'"
proof -
  have kw: "plain_line (cap - 6) kw" "hd kw \<noteq> CHR '' ''" and cs: "\<And>l. l \<in> set cs \<Longrightarrow> plain_line (cap - 6) l \<and> hd l \<noteq> CHR '' ''"
    and attrs: "NL \<notin> set attrs" "length attrs + 3 \<le> cap" and cap: "6 \<le> cap"
    using assms(3) by (auto simp: body_ok_def)
  define k where "k = (if n = 0 then 4 else 0 :: nat)"
  have "\<exists>s1. readdescriptorline fe cap in_stdlib s = Some (Inr (Some (indented 2 kw @ [NL]), s1)) \<and>
      at_line s1 k (unlines (map (indented m) cs) @ CHR '':'' # attrs) s0"
  proof (cases "n = 0")
    case True
    then show ?thesis using read_keyword[of s 2 kw, OF _ kw cap] assms(1,2) by (simp add: indented_def k_def)
  next
    case False
    then have n: "n = 2" using assms(2) by simp
    have l: "NL \<notin> set (indented 2 kw)" "indented 2 kw \<noteq> []" "hd (indented 2 kw) \<noteq> CHR '':''" "2 + length (indented 2 kw) + 2 \<le> cap"
        "CHR '')'' \<notin> set (indented 2 kw)" "0 = (if hd (indented 2 kw) = CHR '' '' then 0 else 2 :: nat)"
      using kw cap by (auto simp: plain_line_def indented_def numeral_2_eq_2)
    show ?thesis
      using next_line[OF assms(1)[unfolded n] l(1-4,6), of fe in_stdlib] next_indent_stays[OF l(5), of 0] n
      by (simp add: k_def)
  qed
  then obtain s1 where 1: "readdescriptorline fe cap in_stdlib s = Some (Inr (Some (indented 2 kw @ [NL]), s1))"
      "at_line s1 k (unlines (map (indented m) cs) @ CHR '':'' # attrs) s0" by blast
  have "k \<noteq> 2" "k + 2 \<le> cap" using cap by (auto simp: k_def)
  moreover have "plain_line (cap - k - 2) l \<and> (hd l \<noteq> CHR '' '' \<or> k = 0)" if "l \<in> set (map (indented m) cs)" for l
    using that cs cap assms(2) by (fastforce simp: plain_line_def indented_def k_def numeral_eq_Suc)
  moreover have "map (\<lambda>l. indented k l @ [NL]) (map (indented m) cs) = map (\<lambda>l. indented 4 l @ [NL]) cs"
    using assms(2) by (auto simp: indented_def k_def)
  ultimately obtain s2 where 2: "read_lines fe cap in_stdlib (length cs) s1 = Some (Inr (map (\<lambda>l. indented 4 l @ [NL]) cs, s2))"
      "at_line s2 k (CHR '':'' # attrs) s0"
    using read_block[OF 1(2), where cap = cap and fe = fe and in_stdlib = in_stdlib] by (metis length_map)
  from read_last[OF 2(2) attrs assms(4)] obtain s3 where 3:
      "read_lines fe cap in_stdlib 1 s2 = Some (Inr ([CHR '':'' # attrs @ [NL]], s3))" "descriptor_read s0 attrs s3"
    unfolding descriptor_read_def by blast
  have "read_lines fe cap in_stdlib (length cs + 1) s1 = Some (Inr (map (\<lambda>l. indented 4 l @ [NL]) cs @ [CHR '':'' # attrs @ [NL]], s3))"
    using read_lines_append[OF 2(1) _ 3(1)] by simp
  from read_lines_step[OF 1(1) this] 3(2) show ?thesis by (auto simp: comp_def)
qed

lemma read_descriptor:
  assumes "at_line s 0 (unlines (hs @ [h @ tail, indented n kw] @ map (indented m) cs) @ CHR '':'' # attrs) s0"
    and "n = 0 \<and> m = 0 \<or> n = 2 \<and> m = 4" "header_tail h tail" "hd h \<noteq> CHR '' ''"
    and "\<And>l. l \<in> set (h # hs) \<Longrightarrow> plain_line (cap - 2) l"
    and "length (h @ tail) + 2 \<le> cap" "body_ok cap kw cs attrs" "libentries s0 \<noteq> []"
  shows "\<exists>s'. read_lines fe cap in_stdlib (length hs + 1 + (1 + (length cs + 1))) s =
      Some (Inr (descriptor_lines (hs @ [h @ tail]) kw cs attrs, s')) \<and> descriptor_read s0 attrs s'"
proof -
  have h: "h \<noteq> []" using assms(5)[of h] by (simp add: plain_line_def)
  have cap: "2 \<le> cap" using assms(7) by (auto simp: body_ok_def)
  have "at_line s 0 (unlines (hs @ [h @ tail]) @ (indented n kw @ NL # unlines (map (indented m) cs) @ CHR '':'' # attrs)) s0"
    using assms(1) by (simp add: unlines_def)
  from read_header[OF this cap assms(3) h _ _ assms(4,6), where fe = fe and in_stdlib = in_stdlib] assms(5) obtain s1 where
      1: "read_lines fe cap in_stdlib (length hs + 1) s = Some (Inr (map (\<lambda>l. l @ [NL]) (hs @ [h @ tail]), s1))"
      "at_line s1 2 (indented n kw @ NL # unlines (map (indented m) cs) @ CHR '':'' # attrs) s0" by auto
  from read_body[OF 1(2) assms(2,7,8)] obtain s2 where
      2: "read_lines fe cap in_stdlib (1 + (length cs + 1)) s1 =
        Some (Inr (map (\<lambda>l. l @ [NL]) (indented 2 kw # map (indented 4) cs @ [CHR '':'' # attrs]), s2))" "descriptor_read s0 attrs s2"
    by blast
  show ?thesis using read_lines_append[OF 1(1) _ 2(1)] 2(2) by (auto simp: descriptor_lines_def)
qed

end
