(* ===== verification/OCC_Descriptor_Text.thy ===== *)
theory OCC_Descriptor_Text
  imports OCC_Lines OCC_Descriptor
begin

text \<open>
  The descriptors that the compiler writes are read back by it: the lexer gets them indented,
  whether they were written so or not, and the name of the routine is found in them.
\<close>

section \<open>Words in a descriptor\<close>

definition clean :: "string \<Rightarrow> bool" where
  "clean s \<longleftrightarrow> NL \<notin> set s \<and> CHR '')'' \<notin> set s"

definition starts_word :: "string \<Rightarrow> bool" where
  "starts_word s \<longleftrightarrow> s \<noteq> [] \<and> hd s \<noteq> CHR '':'' \<and> hd s \<noteq> CHR '' ''"

definition good_word :: "string \<Rightarrow> bool" where
  "good_word s \<longleftrightarrow> clean s \<and> starts_word s"

lemma clean_simps [simp]: "clean []" "clean (c # s) \<longleftrightarrow> c \<noteq> NL \<and> c \<noteq> CHR '')'' \<and> clean s" "clean (s @ t) \<longleftrightarrow> clean s \<and> clean t"
  by (auto simp: clean_def)

lemma starts_word_simps [simp]: "starts_word (c # s) \<longleftrightarrow> c \<noteq> CHR '':'' \<and> c \<noteq> CHR '' ''" "starts_word s \<Longrightarrow> starts_word (s @ t)" "\<not> starts_word []"
  by (auto simp: starts_word_def)

lemma digit_chars: "d < 16 \<Longrightarrow> digit_char d \<noteq> NL \<and> digit_char d \<noteq> CHR '')'' \<and> digit_char d \<noteq> CHR '':'' \<and> digit_char d \<noteq> CHR '' ''"
proof -
  have "list_all (\<lambda>d. digit_char d \<noteq> NL \<and> digit_char d \<noteq> CHR '')'' \<and> digit_char d \<noteq> CHR '':'' \<and> digit_char d \<noteq> CHR '' '') [0..<16]"
    by code_simp
  moreover assume "d < 16"
  ultimately show ?thesis by (auto simp: list_all_iff)
qed

lemma decimal_digits: "set (decimal n) \<subseteq> digit_char ` {..<10} \<and> decimal n \<noteq> []"
  by (induction n rule: decimal.induct) (subst (1 2) decimal.simps, auto)

lemma decimal_good [simp]: "clean (decimal n)" "starts_word (decimal n)"
proof -
  have "c \<noteq> NL \<and> c \<noteq> CHR '')'' \<and> c \<noteq> CHR '':'' \<and> c \<noteq> CHR '' ''" if "c \<in> set (decimal n)" for c
  proof -
    have "c \<in> digit_char ` {..<10}" by (rule subsetD[OF conjunct1[OF decimal_digits] that])
    then obtain d where "c = digit_char d" "d < 10" by (elim imageE) simp
    then show ?thesis using digit_chars[of d] by simp
  qed
  then show "clean (decimal n)" "starts_word (decimal n)"
    using decimal_digits[of n] by (auto simp: clean_def starts_word_def)
qed

lemma hex_clean [simp]: "clean (hex_digits k n)"
proof (induction k arbitrary: n)
  case (Suc k)
  have "unat (take_bit 4 n) < 16" using take_bit_nat_less_exp[of 4 "unat n"] by (simp add: unsigned_take_bit_eq)
  then show ?case using Suc digit_chars by simp
qed simp

fun type_names :: "dtype \<Rightarrow> string list" and protocol_names :: "dprotocol \<Rightarrow> string list" where
  "type_names (N_TYPEDECL name h) = [name]"
| "type_names (Mobile_typedecl name h attr) = [name]"
| "type_names (Anon_chantype attr p) = protocol_names p"
| "type_names (N_PROCTYPEDECL name h) = [name]"
| "type_names (S_MOBILE t) = type_names t"
| "type_names (S_ARRAY dim literal t) = (case literal of None \<Rightarrow> [] | Some n \<Rightarrow> [n]) @ type_names t"
| "type_names (S_CHAN p attr) = protocol_names p"
| "type_names (S_PORT p attr) = protocol_names p"
| "type_names _ = []"
| "protocol_names (N_TPROTDEF name h) = [name]"
| "protocol_names (N_SPROTDEF name h) = [name]"
| "protocol_names (S_COLON2 l r) = type_names l @ type_names r"
| "protocol_names (Protocol_type t) = type_names t"

lemma tagstring_good: "good_word (tagstring b)"
  by (cases b) (simp_all add: good_word_def)

lemma type_text_good:
  "list_all good_word (type_names t) \<Longrightarrow> good_word (write_desctype t)"
  "list_all good_word (protocol_names p) \<Longrightarrow> good_word (write_descprotocol p)"
proof (induction t and p rule: write_desctype_write_descprotocol.induct)
  case (11 dim literal t)
  then show ?case by (auto simp: good_word_def write_descnumber_def split: option.splits)
qed (auto simp: good_word_def write_desctypehash_def tagstring_good[unfolded good_word_def])

definition param_ok :: "dparam \<Rightarrow> bool" where
  "param_ok p \<longleftrightarrow> good_word (pm_name p) \<and> list_all good_word (type_names (pm_type p))"

lemma short_name_ok: "param_ok p \<Longrightarrow> param_ok (short_name short_names k p)"
  by (simp add: param_ok_def short_name_def good_word_def)

lemma visible_name_good: "good_word name \<Longrightarrow> good_word (visible_name name)"
proof -
  assume good: "good_word name"
  have "clean (takeWhile (\<lambda>c. c \<noteq> CHR ''$'') name)" using good by (auto simp: good_word_def clean_def dest: set_takeWhileD)
  moreover have "starts_word (takeWhile (\<lambda>c. c \<noteq> CHR ''$'') name @ c # x)" if "c \<noteq> CHR '':''" "c \<noteq> CHR '' ''" for c x
    using good that by (cases name) (auto simp: good_word_def starts_word_def)
  ultimately show ?thesis using good by (simp add: visible_name_def Let_def good_word_def)
qed

lemma direction_clean [simp]: "clean (direction t)"
  by (simp add: direction_def Let_def)

lemma param_text_good:
  assumes "param_ok p"
  shows "good_word (write_descparam old p k short_names)"
proof -
  have "good_word (visible_name (pm_name (short_name short_names k p)))"
    using short_name_ok[OF assms, of short_names k] by (auto simp: param_ok_def intro: visible_name_good)
  moreover have "good_word (write_desctype (pm_type p))" using assms type_text_good(1) by (simp add: param_ok_def)
  ultimately show ?thesis by (auto simp: write_descparam_def good_word_def param_specifier_def)
qed

lemma param_text_shorter: "length (write_descparam old p k short_names) \<le> length (write_descparam None p k short_names)"
  by (simp add: write_descparam_def sametypeparam_def[of None])

section \<open>The lines of the header\<close>

definition header_line :: "nat \<Rightarrow> string \<Rightarrow> bool" where
  "header_line room l \<longleftrightarrow> good_word l \<and> length l \<le> room"

lemma params_lines:
  assumes "header_line room cur" "72 \<le> room"
    and "\<And>p. p \<in> set ps \<Longrightarrow> isnamedformal p \<Longrightarrow> param_ok p"
    and "\<And>p k. p \<in> set ps \<Longrightarrow> isnamedformal p \<Longrightarrow> k \<le> no + length ps \<Longrightarrow> length (write_descparam None p k short_names) \<le> room"
  shows "\<exists>hs h. cur @ write_descparams lastparam no short_names merge_types ps (length cur) = unlines hs @ h \<and>
    (\<forall>l \<in> set hs. header_line (room + 1) l) \<and> header_line room h"
  using assms(1,3,4)
proof (induction ps arbitrary: cur lastparam no)
  case Nil
  then show ?case by (intro exI[of _ "[]"] exI[of _ cur]) (simp add: unlines_def)
next
  case (Cons p ps)
  show ?case
  proof (cases "isnamedformal p")
    case False
    have "\<exists>hs h. cur @ write_descparams lastparam no short_names merge_types ps (length cur) = unlines hs @ h \<and>
        (\<forall>l \<in> set hs. header_line (room + 1) l) \<and> header_line room h"
      by (rule Cons.IH) (use Cons.prems in auto)
    then show ?thesis using False by simp
  next
    case True
    define t where "t = write_descparam (if merge_types then lastparam else None) p (no + 1) short_names"
    have t: "good_word t" "length t \<le> room"
      using param_text_good[of p] Cons.prems(2)[of p] True
        param_text_shorter[of "if merge_types then lastparam else None" p "no + 1" short_names] Cons.prems(3)[of p "no + 1"]
      by (auto simp: t_def)
    have step: "write_descparams lastparam no short_names merge_types (p # ps) (length cur) =
        (if DESC_LINE_LENGTH < length cur + 1 + length t
         then '','' @ [NL] @ t @ write_descparams (Some p) (no + 1) short_names merge_types ps (length t)
         else '','' @ t @ write_descparams (Some p) (no + 1) short_names merge_types ps (length cur + 1 + length t))"
      using True by (simp only: write_descparams.simps Let_def t_def if_True)
    show ?thesis
    proof (cases "DESC_LINE_LENGTH < length cur + 1 + length t")
      case True
      have "\<exists>hs h. t @ write_descparams (Some p) (no + 1) short_names merge_types ps (length t) = unlines hs @ h \<and>
          (\<forall>l \<in> set hs. header_line (room + 1) l) \<and> header_line room h"
        by (rule Cons.IH) (use Cons.prems t in \<open>auto simp: header_line_def\<close>)
      then obtain hs h where h: "t @ write_descparams (Some p) (no + 1) short_names merge_types ps (length t) = unlines hs @ h"
          "\<forall>l \<in> set hs. header_line (room + 1) l" "header_line room h" by blast
      have "header_line (room + 1) (cur @ '','')" using Cons.prems(1) by (simp add: header_line_def good_word_def)
      then show ?thesis unfolding step using h True
        by (intro exI[of _ "(cur @ '','') # hs"] exI[of _ h]) (simp add: unlines_def)
    next
      case False
      have cur: "header_line room (cur @ '','' @ t)"
        using False Cons.prems(1) t assms(2) by (simp add: header_line_def good_word_def DESC_LINE_LENGTH_def)
      have "\<exists>hs h. (cur @ '','' @ t) @ write_descparams (Some p) (no + 1) short_names merge_types ps (length (cur @ '','' @ t)) = unlines hs @ h \<and>
          (\<forall>l \<in> set hs. header_line (room + 1) l) \<and> header_line room h"
        by (rule Cons.IH[OF cur]) (use Cons.prems in auto)
      then show ?thesis unfolding step using False by simp
    qed
  qed
qed

definition start_ok :: "routine \<Rightarrow> string \<Rightarrow> bool" where
  "start_ok rt name \<longleftrightarrow>
     good_word name \<and>
     (case rt_tag rt of
        Routine_proc \<Rightarrow> True
      | Routine_mproc ty h \<Rightarrow> clean ty
      | Routine_function ts \<Rightarrow> ts \<noteq> [] \<and> list_all (\<lambda>t. list_all good_word (type_names t)) ts)"

lemma typelist_good: "ts \<noteq> [] \<Longrightarrow> list_all (\<lambda>t. list_all good_word (type_names t)) ts \<Longrightarrow> good_word (write_desctypelist ts)"
proof (induction ts rule: write_desctypelist.induct)
  case (2 t)
  then show ?case using type_text_good(1)[of t] by simp
next
  case (3 t u ts)
  then have "good_word (write_desctype t)" using type_text_good(1)[of t] by simp
  moreover have "good_word (write_desctypelist (u # ts))" using 3 by simp
  ultimately show ?case by (simp add: good_word_def)
qed simp

lemma header_start_good: "start_ok rt name \<Longrightarrow> good_word (header_start rt name)"
  using typelist_good by (auto simp: start_ok_def header_start_def good_word_def split: routine_tag.splits)

definition routine_ok :: "nat \<Rightarrow> routine \<Rightarrow> string \<Rightarrow> bool \<Rightarrow> bool" where
  "routine_ok room rt name short_names \<longleftrightarrow>
     72 \<le> room \<and> start_ok rt name \<and> length (header_start rt name) \<le> room \<and>
     (\<forall>p \<in> set (rt_params rt). param_ok p \<and>
        (\<forall>k \<in> set [0..<Suc (length (rt_params rt))].
           length (header_start rt name) + length (write_descparam None p k short_names) \<le> room \<and>
           length (pm_name (short_name short_names k p)) < room))"

lemma header_lines:
  assumes "routine_ok room rt name short_names"
  shows "\<exists>hs h. write_descheader rt name short_names merge_types = unlines hs @ h @ header_end rt \<and>
    (\<forall>l \<in> set hs. header_line (room + 1) l) \<and> header_line room h"
proof -
  have start: "good_word (header_start rt name)" "length (header_start rt name) \<le> room" "72 \<le> room"
    using assms header_start_good by (auto simp: routine_ok_def)
  show ?thesis
  proof (cases "dropWhile (\<lambda>p. \<not> isnamedformal p) (rt_params rt)")
    case Nil
    then have "write_descheader rt name short_names merge_types = header_start rt name @ header_end rt"
      by (simp only: write_descheader_def Let_def list.case append_Nil)
    then show ?thesis using start
      by (intro exI[of _ "[] :: string list"] exI[of _ "header_start rt name"]) (simp add: unlines_def header_line_def)
  next
    case (Cons p ps)
    have len: "Suc (length ps) \<le> length (rt_params rt)"
      using Cons length_dropWhile_le[of "\<lambda>p. \<not> isnamedformal p" "rt_params rt"] by simp
    have sub: "set (p # ps) \<subseteq> set (rt_params rt)" unfolding Cons[symmetric] by (auto dest: set_dropWhileD)
    have ok: "param_ok q" "length (header_start rt name) + length (write_descparam None q k short_names) \<le> room"
      if "q \<in> set (p # ps)" "k \<le> length (rt_params rt)" for q k
    proof -
      have "q \<in> set (rt_params rt)" "k \<in> set [0..<Suc (length (rt_params rt))]" using that sub by auto
      then show "param_ok q" "length (header_start rt name) + length (write_descparam None q k short_names) \<le> room"
        using assms unfolding routine_ok_def by blast+
    qed
    have cur: "header_line room (header_start rt name @ write_descparam None p 1 short_names)"
      using start(1) ok(1)[of p 1] ok(2)[of p 1] len param_text_good[of p None 1 short_names]
      by (simp add: header_line_def good_word_def)
    have "\<exists>hs h. (header_start rt name @ write_descparam None p 1 short_names) @
        write_descparams (Some p) 1 short_names merge_types ps (length (header_start rt name @ write_descparam None p 1 short_names)) =
        unlines hs @ h \<and> (\<forall>l \<in> set hs. header_line (room + 1) l) \<and> header_line room h"
    proof (rule params_lines[OF cur start(3)])
      fix q assume "q \<in> set ps"
      then show "param_ok q" using ok(1)[of q 0] by simp
      fix k assume "k \<le> 1 + length ps"
      then show "length (write_descparam None q k short_names) \<le> room" using ok(2)[of q k] len \<open>q \<in> set ps\<close> by simp
    qed
    then show ?thesis using Cons by (fastforce simp: write_descheader_def Let_def)
  qed
qed

text \<open>The last line of the header, which the reader must see to be the last.\<close>

definition last_header_line :: "routine \<Rightarrow> string \<Rightarrow> bool \<Rightarrow> bool \<Rightarrow> string" where
  "last_header_line rt name short_names merge_types =
     rev (takeWhile (\<lambda>c. c \<noteq> NL) (rev (butlast (write_descheader rt name short_names merge_types))))"

definition end_seen :: "routine \<Rightarrow> string \<Rightarrow> bool \<Rightarrow> bool \<Rightarrow> bool" where
  "end_seen rt name short_names merge_types \<longleftrightarrow>
     header_end rt = '')'' @ [NL] \<or>
     (let l = last_header_line rt name short_names merge_types
      in 11 < length l \<and> 2 < length (takeWhile (\<lambda>c. c \<noteq> CHR '')'') l))"

lemma last_of_unlines: "NL \<notin> set l \<Longrightarrow> rev (takeWhile (\<lambda>c. c \<noteq> NL) (rev (unlines hs @ l))) = l"
proof -
  assume l: "NL \<notin> set l"
  then have *: "takeWhile (\<lambda>c. c \<noteq> NL) (rev l @ t) = rev l @ takeWhile (\<lambda>c. c \<noteq> NL) t" for t
    by (intro takeWhile_append2) auto
  have "takeWhile (\<lambda>c. c \<noteq> NL) (rev (unlines hs)) = []"
    by (cases hs rule: rev_cases) (simp_all add: unlines_def)
  then show ?thesis by (simp add: *)
qed

lemma header_end_tail:
  assumes "start_ok rt name"
  shows "\<exists>tail. header_end rt = tail @ [NL] \<and> NL \<notin> set tail \<and> hd tail = CHR '')'' \<and> tail \<noteq> [] \<and>
    (tail = '')'' \<or> (\<exists>x. tail = '') FORK'' @ x \<or> tail = '') SUSPEND'' @ x \<or> tail = '') IMPLEMENTS '' @ x))"
proof -
  have "NL \<notin> set (write_desctypehash h)" for h using hex_clean[of 8 h] by (auto simp: write_desctypehash_def clean_def)
  then show ?thesis
    using assms by (auto simp: header_end_def start_ok_def clean_def split: routine_tag.splits)
qed

lemma header_tail_seen:
  assumes "write_descheader rt name short_names merge_types = unlines hs @ h @ tail @ [NL]" "header_end rt = tail @ [NL]"
    and "start_ok rt name" "end_seen rt name short_names merge_types" "clean h"
  shows "header_tail h tail"
proof -
  obtain tail' where "header_end rt = tail' @ [NL]" and t: "NL \<notin> set tail'" "hd tail' = CHR '')''" "tail' \<noteq> []"
      "tail' = '')'' \<or> (\<exists>x. tail' = '') FORK'' @ x \<or> tail' = '') SUSPEND'' @ x \<or> tail' = '') IMPLEMENTS '' @ x)"
    using header_end_tail[OF assms(3)] by metis
  then have tail': "tail' = tail" using assms(2) by simp
  have l: "last_header_line rt name short_names merge_types = h @ tail"
    using last_of_unlines[of "h @ tail" hs] assms(1,5) t(1) tail' by (simp add: last_header_line_def clean_def butlast_append)
  have "takeWhile (\<lambda>c. c \<noteq> CHR '')'') (h @ tail) = h"
    using assms(5) t(2,3) tail' by (cases tail) (auto simp: clean_def takeWhile_append)
  then show ?thesis using assms(2,4) t(1,4) tail' l by (auto simp: header_tail_def end_seen_def Let_def)
qed

section \<open>The body\<close>

definition usage_lines :: "dparam \<Rightarrow> string list" where
  "usage_lines p =
     (if pm_tag p = N_PARAM \<and> is_channel (pm_type p)
      then (if pm_inputs p then [pm_name p @ ''?''] else []) @ (if pm_outputs p then [pm_name p @ ''!''] else [])
      else [])"

lemma paramusage_lines:
  "write_paramusage ps spaces = unlines (map (indented (if spaces then 4 else 0)) (concat (map usage_lines ps)))"
  by (induction ps) (auto simp: write_paramusage_def param_usage_def usage_lines_def unlines_def indented_def numeral_eq_Suc)

lemma renamed_from:
  assumes "p \<in> set (renamed_params sh no ps)" "pm_tag p \<noteq> Hidden_param"
  shows "\<exists>q \<in> set ps. \<exists>k. no < k \<and> k \<le> no + length ps \<and> p = short_name sh k q"
  using assms(1)
proof (induction ps arbitrary: no)
  case (Cons q ps)
  consider "isnamedformal q" "p = short_name sh (no + 1) q" | no' where "p \<in> set (renamed_params sh no' ps)" "no \<le> no'" "no' \<le> no + 1"
    using Cons.prems assms(2) by (cases "isnamedformal q") (auto simp: isnamedformal_def)
  then show ?case
  proof cases
    case 1
    then show ?thesis by (intro bexI[of _ q] exI[of _ "no + 1"]) simp_all
  next
    case (2 no')
    then obtain r k where "r \<in> set ps" "no' < k" "k \<le> no' + length ps" "p = short_name sh k r" using Cons.IH by blast
    then show ?thesis using 2(2,3) by (intro bexI[of _ r] exI[of _ k]) simp_all
  qed
qed simp

lemma usage_lines_plain:
  assumes "routine_ok room rt name sh" "room + 8 \<le> cap" "l \<in> set (concat (map usage_lines (renamed_params sh 0 (rt_params rt))))"
  shows "plain_line (cap - 6) l \<and> hd l \<noteq> CHR '' ''"
proof -
  obtain p where p: "p \<in> set (renamed_params sh 0 (rt_params rt))" "l \<in> set (usage_lines p)" "pm_tag p \<noteq> Hidden_param"
    using assms(3) by (auto simp: usage_lines_def split: if_splits)
  then obtain q k where q: "q \<in> set (rt_params rt)" "k \<le> length (rt_params rt)" "p = short_name sh k q"
    using renamed_from by fastforce
  have "good_word (pm_name p)" "length (pm_name p) < room"
    using assms(1) q short_name_ok[of q sh k] by (fastforce simp: routine_ok_def param_ok_def)+
  then show ?thesis using p(2) assms(2)
    by (auto simp: usage_lines_def plain_line_def good_word_def clean_def starts_word_def split: if_splits)
qed

definition nested_bits :: "routine \<Rightarrow> BIT32" where
  "nested_bits rt =
     (if rt_nested_timer rt then LIBENTRY_BIT_NESTED_TIMER else 0) OR
     (if rt_nested_place rt then LIBENTRY_BIT_NESTED_PLACE else 0) OR
     (if rt_nested_port rt then LIBENTRY_BIT_NESTED_PORT else 0)"

abbreviation routine_attrs :: "routine \<Rightarrow> string" where
  "routine_attrs rt \<equiv> write_desc_attrs True [(rt_nested_timer rt, ''TIMER''), (rt_nested_place rt, ''PLACE''), (rt_nested_port rt, ''PORT'')]"

lemma attrs_plain: "NL \<notin> set (routine_attrs rt)" "length (routine_attrs rt) \<le> 18"
  by auto

lemma attrs_read: "extra_attributes (CHR '':'' # routine_attrs rt) = nested_bits rt"
  by (cases "rt_nested_timer rt"; cases "rt_nested_place rt"; cases "rt_nested_port rt")
    (simp_all add: extra_attributes_def nested_bits_def)

lemma concat_lines: "concat (map (\<lambda>l. l @ [NL]) ls) = unlines ls" by (simp add: unlines_def)

text \<open>C9: However a descriptor was written, with or without its indentation, the lexer gets it indented,
  line by line, and the attributes at its end are noted with the first entry. It is enough
  that the last line of its header can be seen to be the last: that a line ends in a
  parenthesis, or has more than 11 characters, 3 of them before the parenthesis.\<close>

theorem descriptor_is_indented_again:
  assumes "routine_ok room rt name short_names" "room + length (header_end rt) + 8 \<le> cap" "end_seen rt name short_names merge_types"
    and "at_line s 0 (create_descriptor_string rt (Some name) short_names merge_types spaces) s0" "libentries s0 \<noteq> []"
  shows "\<exists>n ls s'. read_lines fe cap in_stdlib n s = Some (Inr (ls, s')) \<and>
    concat ls = create_descriptor_string rt (Some name) short_names merge_types True @ [NL] \<and> \<not> in_descriptor s' \<and>
    libentries s' = set_bits_of (nested_bits rt) (hd (libentries s0)) # tl (libentries s0)"
proof -
  have room: "72 \<le> room" and start: "start_ok rt name" using assms(1) by (auto simp: routine_ok_def)
  obtain hs h where hs: "write_descheader rt name short_names merge_types = unlines hs @ h @ header_end rt"
      "\<forall>l \<in> set hs. header_line (room + 1) l" "header_line room h"
    using header_lines[OF assms(1)] by blast
  obtain tail where tail: "header_end rt = tail @ [NL]" using header_end_tail[OF start] by blast
  have seen: "header_tail h tail"
    using hs start assms(3) tail by (intro header_tail_seen) (auto simp: header_line_def good_word_def)
  define kw where "kw = (if rt_nested_pripar rt then ''PRI PAR'' else ''SEQ'')"
  define cs where "cs = concat (map usage_lines (renamed_params short_names 0 (rt_params rt)))"
  have written: "create_descriptor_string rt (Some name) short_names merge_types b =
      unlines (hs @ [h @ tail, indented (if b then 2 else 0) kw] @ map (indented (if b then 4 else 0)) cs) @ CHR '':'' # routine_attrs rt" for b
    by (simp add: create_descriptor_string_def hs(1) tail paramusage_lines cs_def kw_def unlines_def indented_def numeral_2_eq_2)
  have plain: "plain_line (cap - 2) l \<and> hd l \<noteq> CHR '' ''" if "l \<in> set (h # hs)" for l
    using that hs(2,3) assms(2) by (auto simp: header_line_def plain_line_def good_word_def clean_def starts_word_def)
  have "\<forall>l \<in> set (kw # cs). plain_line (cap - 6) l \<and> hd l \<noteq> CHR '' ''"
    using usage_lines_plain[OF assms(1), of cap] assms(2) room by (auto simp: cs_def kw_def plain_line_def)
  then have body: "body_ok cap kw cs (routine_attrs rt)" using attrs_plain[of rt] assms(2) room by (simp add: body_ok_def)
  have len: "length (h @ tail) + 2 \<le> cap" using hs(3) tail assms(2) by (simp add: header_line_def)
  define n m where "n = (if spaces then 2 else 0 :: nat)" and "m = (if spaces then 4 else 0 :: nat)"
  have nm: "n = 0 \<and> m = 0 \<or> n = 2 \<and> m = 4" by (simp add: n_def m_def)
  have here: "at_line s 0 (unlines (hs @ [h @ tail, indented n kw] @ map (indented m) cs) @ CHR '':'' # routine_attrs rt) s0"
    using assms(4) unfolding written n_def m_def .
  have "hd h \<noteq> CHR '' ''" "\<And>l. l \<in> set (h # hs) \<Longrightarrow> plain_line (cap - 2) l" using plain by auto
  from read_descriptor[OF here nm seen this len body assms(5)] obtain s' where
      "read_lines fe cap in_stdlib (length hs + 1 + (1 + (length cs + 1))) s =
        Some (Inr (descriptor_lines (hs @ [h @ tail]) kw cs (routine_attrs rt), s'))" "descriptor_read s0 (routine_attrs rt) s'"
    by blast
  moreover have "concat (descriptor_lines (hs @ [h @ tail]) kw cs (routine_attrs rt)) =
      create_descriptor_string rt (Some name) short_names merge_types True @ [NL]"
    unfolding written descriptor_lines_def concat_lines by (simp add: unlines_def)
  ultimately show ?thesis unfolding descriptor_read_def attrs_read by blast
qed

definition sample_param :: "string \<Rightarrow> dtype \<Rightarrow> dparam" where
  "sample_param name t = \<lparr>pm_tag = N_PARAM, pm_name = name, pm_type = t, pm_attr = 0, pm_inputs = True, pm_outputs = False\<rparr>"

definition sample_routine :: "bool \<Rightarrow> dparam list \<Rightarrow> routine" where
  "sample_routine forks ps =
     \<lparr>rt_tag = Routine_proc, rt_name = ''server'', rt_params = ps, rt_forks = forks, rt_suspends = False,
      rt_nested_pripar = False, rt_nested_timer = True, rt_nested_place = False, rt_nested_port = False\<rparr>"

definition reader_at :: "string \<Rightarrow> reader" where
  "reader_at d = (init_obj_reader 0 [])\<lparr>in_descriptor := True, sub_desc := d,
     libentries := [\<lparr>l_name = ''server'', l_procdefs = [], l_bits = 0, l_hash = 0\<rparr>]\<rparr>"

definition chan_type :: "string \<Rightarrow> dtype" where
  "chan_type protocol = S_CHAN (N_SPROTDEF protocol 0x12345678) TypeAttr_marked_in"

definition two_channels :: routine where
  "two_channels = sample_routine True [sample_param ''requests'' (chan_type ''REQUEST''), sample_param ''more.requests'' (chan_type ''REQUEST'')]"

lemma reader_at_line: "at_line (reader_at d) 0 d (reader_at d)"
  by (simp add: at_line_def reader_at_def init_obj_reader_def)

theorem descriptor_is_indented_again_witness:
  "\<exists>n ls s'. read_lines \<lparr>fe_lang = 1, ptype = 0, pattr = 0, fe_suppress_compat = False, fe_read_all_libs = False\<rparr> 255 False n
      (reader_at (create_descriptor_string two_channels (Some ''server'') False False False)) = Some (Inr (ls, s')) \<and>
    concat ls = create_descriptor_string two_channels (Some ''server'') False False True @ [NL]"
proof -
  have 1: "routine_ok 120 two_channels ''server'' False" by code_simp
  have 2: "120 + length (header_end two_channels) + 8 \<le> (255 :: nat)" by code_simp
  have 3: "end_seen two_channels ''server'' False False" by code_simp
  have 4: "libentries (reader_at d) \<noteq> []" for d by (simp add: reader_at_def)
  show ?thesis using descriptor_is_indented_again[OF 1 2 3 reader_at_line 4] by blast
qed

definition int_chan :: dtype where
  "int_chan = S_CHAN (Protocol_type (Basic S_INT)) TypeAttr_marked_in"

definition long_header :: routine where
  "long_header = sample_routine True
     [sample_param ''requests'' int_chan, sample_param ''cancelled.requests.in'' int_chan, sample_param ''n'' (Basic S_INT)]"


end
