(* ===== verification/OCC_Naming.thy ===== *)
theory OCC_Naming
  imports OCC_Descriptor_Text
begin

text \<open>
  The names of routines: they are found again in the descriptors that are written for them, and
  the names that \<open>#PRAGMA TRANSLATE\<close> pairs are translated back and forth.
\<close>

section \<open>The name in a descriptor\<close>

lemma cstring_append: "CHR 0x00 \<notin> set s \<Longrightarrow> cstring (s @ t) = s @ cstring t"
  by (induction s) (auto simp: cstring_def)

lemma cstring_whole: "CHR 0x00 \<notin> set s \<Longrightarrow> cstring s = s"
  using cstring_append[of s "[]"] by (simp add: cstring_def)

definition before_name :: "routine \<Rightarrow> string" where
  "before_name rt =
     (case rt_tag rt of
        Routine_proc \<Rightarrow> ''PROC ''
      | Routine_mproc _ _ \<Rightarrow> ''MOBILE PROC ''
      | Routine_function ts \<Rightarrow> write_desctypelist ts @ '' FUNCTION '')"

lemma descriptor_text:
  "\<exists>rest. create_descriptor_string rt (Some name) short_names merge_types spaces = before_name rt @ name @ ''('' @ rest"
  by (auto simp: create_descriptor_string_def write_descheader_def header_start_def before_name_def Let_def split: routine_tag.splits)

definition name_ok :: "string \<Rightarrow> bool" where
  "name_ok name \<longleftrightarrow> name \<noteq> [] \<and> CHR '' '' \<notin> set name \<and> CHR ''('' \<notin> set name \<and> CHR 0x00 \<notin> set name"

lemma name_at:
  assumes "name_ok name"
  shows "takeWhile (\<lambda>c. c = CHR '' '') (name @ ''('' @ t) = []"
    "takeWhile (\<lambda>c. c \<noteq> CHR '' '' \<and> c \<noteq> CHR ''('') (name @ ''('' @ t) = name"
proof -
  show "takeWhile (\<lambda>c. c = CHR '' '') (name @ ''('' @ t) = []" using assms by (cases name) (auto simp: name_ok_def)
  have "\<forall>c \<in> set name. c \<noteq> CHR '' '' \<and> c \<noteq> CHR ''(''" using assms by (auto simp: name_ok_def)
  then show "takeWhile (\<lambda>c. c \<noteq> CHR '' '' \<and> c \<noteq> CHR ''('') (name @ ''('' @ t) = name"
    by (simp add: takeWhile_append2)
qed

lemma desc_name_found:
  assumes "name_ok name" "cstring desc = pre @ name @ ''('' @ t"
    and "(if strstr (cstring desc) ''PROC '' = Some 0 then Some 5
          else case strstr (cstring desc) '' FUNCTION '' of
                 Some i \<Rightarrow> Some (i + 10)
               | None \<Rightarrow> if strstr (cstring desc) ''MOBILE PROC '' = Some 0 then Some 12 else None) = Some (length pre)"
  shows "desc_name desc = Some (name, length pre)"
proof -
  define X where "X = name @ ''('' @ t"
  have X: "takeWhile (\<lambda>c. c = CHR '' '') X = []" "takeWhile (\<lambda>c. c \<noteq> CHR '' '' \<and> c \<noteq> CHR ''('') X = name" "name \<noteq> X"
    unfolding X_def using name_at[OF assms(1), of t] by simp_all
  show ?thesis
    unfolding desc_name_def Let_def assms(3) option.case unfolding assms(2) X_def[symmetric] using X by simp
qed

lemma space_after_word:
  assumes "take 5 (r @ CHR '' '' # x) = ''PROC ''" "CHR '' '' \<notin> set r"
  shows "r = ''PROC''"
proof -
  have nth: "(r @ CHR '' '' # x) ! i = ''PROC '' ! i" if "i < 5" for i
    using nth_take[OF that, of "r @ CHR '' '' # x"] unfolding assms(1) by simp
  have "\<not> 4 < length r"
  proof
    assume "4 < length r"
    then have "r ! 4 = CHR '' ''" using nth[of 4] by (simp add: nth_append)
    then show False using nth_mem[OF \<open>4 < length r\<close>] assms(2) by metis
  qed
  moreover have "\<not> length r < 4"
  proof
    assume "length r < 4"
    then consider "length r = 0" | "length r = 1" | "length r = 2" | "length r = 3" by linarith
    then show False using nth[of "length r"] by cases (simp_all add: nth_append)
  qed
  ultimately have "length r = 4" by simp
  then have "r = take 4 (take 5 (r @ CHR '' '' # x))" by (simp add: min_absorb1)
  then show ?thesis unfolding assms(1) by simp
qed

text \<open>C10: The name of a routine is found in the descriptor written for it, with the position it has there.
  Of the types of its results it is assumed that no space is in them and that they do not read PROC, and of a mobile process
  that nothing in its header looks like a function.\<close>

theorem name_of_written_descriptor:
  assumes "name_ok name"
    and "case rt_tag rt of
           Routine_proc \<Rightarrow> True
         | Routine_mproc _ _ \<Rightarrow> strstr (cstring (create_descriptor_string rt (Some name) short_names merge_types spaces)) '' FUNCTION '' = None
         | Routine_function ts \<Rightarrow> CHR '' '' \<notin> set (write_desctypelist ts) \<and> CHR 0x00 \<notin> set (write_desctypelist ts) \<and>
             write_desctypelist ts \<noteq> ''PROC''"
  shows "desc_name (create_descriptor_string rt (Some name) short_names merge_types spaces) = Some (name, length (before_name rt))"
proof -
  let ?desc = "create_descriptor_string rt (Some name) short_names merge_types spaces"
  obtain rest where rest: "?desc = before_name rt @ name @ ''('' @ rest" using descriptor_text by blast
  have nul: "CHR 0x00 \<notin> set (before_name rt @ name @ ''('')"
    using assms by (auto simp: name_ok_def before_name_def split: routine_tag.splits)
  have c: "cstring ?desc = before_name rt @ name @ ''('' @ cstring rest"
    using cstring_append[OF nul, of rest] rest by simp
  show ?thesis
  proof (rule desc_name_found[OF assms(1) c])
    show "(if strstr (cstring ?desc) ''PROC '' = Some 0 then Some 5
          else case strstr (cstring ?desc) '' FUNCTION '' of
                 Some i \<Rightarrow> Some (i + 10)
               | None \<Rightarrow> if strstr (cstring ?desc) ''MOBILE PROC '' = Some 0 then Some 12 else None) = Some (length (before_name rt))"
    proof (cases "rt_tag rt")
      case Routine_proc
      then show ?thesis by (simp add: c before_name_def)
    next
      case (Routine_mproc ty h)
      then have none: "strstr (cstring ?desc) '' FUNCTION '' = None" using assms(2) by simp
      have "strstr (cstring ?desc) ''PROC '' \<noteq> Some 0" "strstr (cstring ?desc) ''MOBILE PROC '' = Some 0"
        using Routine_mproc by (auto simp: c before_name_def)
      then show ?thesis using none Routine_mproc by (simp add: before_name_def)
    next
      case (Routine_function ts)
      define r where "r = write_desctypelist ts"
      have r: "CHR '' '' \<notin> set r" using assms(2) Routine_function by (simp add: r_def)
      have whole: "cstring ?desc = r @ '' FUNCTION '' @ name @ ''('' @ cstring rest"
        using c Routine_function by (simp add: before_name_def r_def)
      have "strstr (cstring ?desc) ''PROC '' \<noteq> Some 0"
      proof
        assume found: "strstr (cstring ?desc) ''PROC '' = Some 0"
        then have "take 5 (r @ CHR '' '' # ''FUNCTION '' @ name @ ''('' @ cstring rest) = ''PROC ''"
          using strstr_Some[OF found] unfolding whole by (simp add: numeral_eq_Suc del: take_append)
        then have "r = ''PROC''" using r by (rule space_after_word)
        then show False using assms(2) Routine_function by (simp add: r_def)
      qed
      moreover have "strstr (cstring ?desc) '' FUNCTION '' = Some (length r)"
        unfolding whole using strstr_skip[OF r, of "'' FUNCTION '' @ name @ ''('' @ cstring rest" "''FUNCTION ''"] by simp
      ultimately show ?thesis using Routine_function by (simp add: before_name_def r_def)
    qed
  qed
qed

theorem name_of_written_descriptor_witness:
  "desc_name (create_descriptor_string (two_channels\<lparr>rt_tag := Routine_function [Basic S_INT, Basic S_BOOL], rt_forks := False\<rparr>)
     (Some ''max'') False False False) = Some (''max'', 18)"
proof -
  let ?rt = "two_channels\<lparr>rt_tag := Routine_function [Basic S_INT, Basic S_BOOL], rt_forks := False\<rparr>"
  have "desc_name (create_descriptor_string ?rt (Some ''max'') False False False) = Some (''max'', length (before_name ?rt))"
    by (rule name_of_written_descriptor) (simp_all add: name_ok_def)
  then show ?thesis by (simp add: before_name_def)
qed

text \<open>With merged parameter types, channels of different protocols are declared as channels of the
  first of them: the descriptor does not tell them apart.\<close>

theorem merged_protocols_are_confused:
  "create_descriptor_string (sample_routine False [sample_param ''a'' (chan_type ''REQUEST''), sample_param ''b'' (chan_type ''ANSWER'')])
     None False True False =
   create_descriptor_string (sample_routine False [sample_param ''a'' (chan_type ''REQUEST''), sample_param ''b'' (chan_type ''REQUEST'')])
     None False True False"
  by code_simp

section \<open>Translated names\<close>

definition paired :: "fe_translate_data_s \<Rightarrow> bool" where
  "paired tr \<longleftrightarrow>
     trans_externals tr = map (\<lambda>(i, e). (e, i)) (trans_internals tr) \<and>
     distinct (map fst (trans_internals tr)) \<and> distinct (map snd (trans_internals tr))"

lemma search_translations_map: "search_translations ts name = map_option (\<lambda>n. (name, n)) (map_of ts name)"
  by (induction ts) (auto simp: search_translations_def)

lemma lookup_translations_map: "lookup_translations ts name = (case map_of ts name of None \<Rightarrow> name | Some n \<Rightarrow> n)"
  by (simp add: lookup_translations_def search_translations_map split: option.splits)

lemma setup_keeps_paired:
  assumes "paired tr" "setup_translation in_name ex_name tr = Inr tr'"
  shows "paired tr'"
  using assms
  by (auto simp: setup_translation_def paired_def search_translations_map map_of_eq_None_iff image_image case_prod_beta
      split: option.splits if_splits)

fun setup_translations :: "(string \<times> string) list \<Rightarrow> fe_translate_data_s \<Rightarrow> fe_translate_data_s" where
  "setup_translations [] tr = tr"
| "setup_translations ((i, e) # ps) tr =
     setup_translations ps (case setup_translation i e tr of Inl w \<Rightarrow> tr | Inr tr' \<Rightarrow> tr')"

lemma setup_translations_paired: "paired tr \<Longrightarrow> paired (setup_translations ps tr)"
proof (induction ps tr rule: setup_translations.induct)
  case (2 i e ps tr)
  then show ?case using setup_keeps_paired[of tr i e] by (cases "setup_translation i e tr") auto
qed simp

text \<open>C11: However pairs of names are set up, refused or accepted, a paired name is translated to its
  external name and back, and the descriptor of the external name becomes one of the
  internal name.\<close>

theorem translation_round_trip:
  assumes "tr = setup_translations ps init_translate" "(in_name, ex_name) \<in> set (trans_internals tr)"
    and "name_ok ex_name" "CHR 0x00 \<notin> set (pre @ rest @ in_name)"
  shows "translate_from_internal tr in_name = ex_name \<and>
    translate_descriptor tr ex_name (length pre) (pre @ ex_name @ rest) (length (pre @ ex_name @ rest)) =
      Some (in_name, pre @ in_name @ rest)"
proof -
  have p: "paired tr" using assms(1) setup_translations_paired[of init_translate ps] by (simp add: paired_def init_translate_def)
  have int: "map_of (trans_internals tr) in_name = Some ex_name" using p assms(2) by (simp add: paired_def map_of_is_SomeI)
  have "distinct (map fst (trans_externals tr))" "(ex_name, in_name) \<in> set (trans_externals tr)"
    using p assms(2) by (simp add: paired_def comp_def case_prod_beta) (use p assms(2) in \<open>force simp: paired_def\<close>)
  then have ext: "map_of (trans_externals tr) ex_name = Some in_name" by (rule map_of_is_SomeI)
  have c: "cstring (pre @ ex_name @ rest) = pre @ ex_name @ rest" "cstring in_name = in_name"
    using assms(3,4) by (auto intro!: cstring_whole simp: name_ok_def)
  have "translate_from_internal tr in_name = ex_name" by (simp add: translate_from_internal_def lookup_translations_map int)
  moreover have "translate_descriptor tr ex_name (length pre) (pre @ ex_name @ rest) (length (pre @ ex_name @ rest)) =
      Some (in_name, pre @ in_name @ rest)"
    unfolding translate_descriptor_def c(1) by (simp add: lookup_translations_map ext Let_def c(2))
  ultimately show ?thesis by simp
qed

theorem translation_round_trip_witness:
  "translate_from_internal (setup_translations [(''put'', ''C.put''), (''put'', ''B.put'')] init_translate) ''put'' = ''C.put'' \<and>
   translate_descriptor (setup_translations [(''put'', ''C.put''), (''put'', ''B.put'')] init_translate) ''C.put'' 5
     ''PROC C.put()'' 12 = Some (''put'', ''PROC put()'')"
proof -
  have "(''put'', ''C.put'') \<in> set (trans_internals (setup_translations [(''put'', ''C.put''), (''put'', ''B.put'')] init_translate))"
    by code_simp
  from translation_round_trip[OF refl this, of "''PROC ''" "''()''"] show ?thesis
    by (simp add: name_ok_def eval_nat_numeral del: setup_translations.simps)
qed

end
