(* ===== verification/OCC_ReadBack.thy ===== *)
theory OCC_ReadBack
  imports OCC_Writer OCC_Naming TCOFF_Records
begin

text \<open>
  The compiler reads the descriptors that it has written. Numbers are read up to 2 ^ 32 only.
\<close>

section \<open>Reading\<close>

abbreviation below_2_32 :: "LONG \<Rightarrow> bool" where "below_2_32 l \<equiv> l \<le>s 0xFFFFFFFF"

lemma occ21_getl: "\<lbrakk>tcoff_putl l = Some bs; below_2_32 l; remaining (infile s) = bs @ r\<rbrakk> \<Longrightarrow>
    getl_from_tcoff s = Some (Inr (l, s\<lparr>infile := skip (length bs) (infile s)\<rparr>))"
  using occ21_reads_below by (simp add: getl_from_tcoff_def io_return_def)

lemma occ21_throw:
  assumes "tcoff_putl (of_nat (length b)) = Some n" "below_2_32 (of_nat (length b))" "remaining (infile s) = n @ b @ r" "inside (infile s)"
  shows "throw_record_from_tcoff s = Some (Inr ((), s\<lparr>infile := skip (length n + length b) (infile s)\<rparr>))"
proof -
  have fits: "fpos (infile s) + length n + length b \<le> length (content (infile s))" "length (content (infile s)) < 2 ^ 63"
    using arg_cong[OF assms(3), of length] assms(4) by (auto simp: remaining_def inside_def)
  then have s: "sint (of_nat (length b) :: LONG) = int (length b)" by (intro sint_of_nat) simp
  show ?thesis
    using occ21_getl[OF assms(1-3)] s fits
    by (simp add: throw_record_from_tcoff_def io_bind_def throw_bytes_from_tcoff_def fseek_cur_def io_return_def Let_def skip_def nat_add_distrib add.assoc)
qed

interpretation occ21: record_reader infile "\<lambda>f s. s\<lparr>infile := f\<rparr>" getl_from_tcoff throw_record_from_tcoff below_2_32
  by unfold_locales (auto intro: occ21_getl occ21_throw)

lemma read_string_reads: "remaining f = bs @ r \<Longrightarrow> read_string (length bs) str f = (Some (str @ bs), skip (length bs) f)"
proof (induction bs arbitrary: f str)
  case (Cons b bs)
  have "remaining (skip 1 f) = bs @ r" using Cons.prems by (simp add: remaining_skip)
  from Cons.IH[OF this] show ?case using fgetc_Cons[of f b "bs @ r"] Cons.prems by simp
qed simp

lemma char_octet: "char_of (unat (of_char c :: OCTET)) = c"
proof -
  have "unat (of_nat (of_char c) :: OCTET) = of_char c" by (simp only: unsigned_of_nat) (simp add: take_bit_eq_mod)
  then show ?thesis by (simp add: of_nat_of_char)
qed

lemma chars_octets [simp]: "chars (octets s) = s"
  by (simp add: chars_def octets_def comp_def char_octet)

lemma length_octets [simp]: "length (octets s) = length s" by (simp add: octets_def)

lemma getbytes_reads:
  assumes "remaining (infile s) = octets str @ r" "length str < 2 ^ 31" "len = of_nat (length str)"
  shows "getbytes_from_tcoff len s = Some (Inr (str, s\<lparr>infile := skip (length str) (infile s)\<rparr>))"
proof -
  have u: "unat len = length str" using assms(2,3) by (simp only: unsigned_of_nat) (simp add: take_bit_nat_eq_self)
  have "sint len = int (length str)" unfolding assms(3) using assms(2) by (simp only: signed_of_nat) (simp add: signed_take_bit_int_eq_self)
  then have "\<not> len <s 0" by (simp add: word_sless_alt)
  then show ?thesis using read_string_reads[OF assms(1), of "[]"] u by (simp add: getbytes_from_tcoff_def io_return_def)
qed

section \<open>Sizes\<close>

lemma ucast_of_nat_small: "ucast (of_nat n :: LONG) = (of_nat n :: INT32)"
  by transfer (simp add: take_bit_of_nat flip: of_nat_take_bit)

lemma occ21_sizel_same: "occ21_sizel l = tcoff_sizel l"
  unfolding occ21_sizel_def tcoff_sizel_def Let_def
  by (auto simp: word_sle_eq word_sless_alt split: option.splits)


lemma putl_short: "tcoff_putl l = Some bs \<Longrightarrow> length bs \<le> 10"
  using putl_some[of l] by auto

lemma occ21_size_of: "tcoff_putl l = Some bs \<Longrightarrow> occ21_sizel l = Some (of_nat (length bs))"
  using putl_length by (simp add: occ21_sizel_same)

lemma sizes_of_written:
  "\<lbrakk>tcoff_putl ws = Some a; tcoff_putl vs = Some b; tcoff_putl ms = Some c\<rbrakk> \<Longrightarrow>
     sizes_of ws vs ms = Some (of_nat (length a + length b + length c))"
  using occ21_size_of[of ws] occ21_size_of[of vs] occ21_size_of[of ms] by (simp add: sizes_of_def ucast_of_nat_small)

section \<open>Descriptors\<close>

lemma put_descriptor_bytes:
  assumes "put_descriptor i str ws vs ms w = Some (Inr (u, w'))"
  obtains t rl a b c d e f where
    "tcoff_putl DESCRIPTOR_TAG = Some t" "tcoff_putl i = Some a" "tcoff_putl (scast (language_name w)) = Some b"
    "tcoff_putl ws = Some d" "tcoff_putl vs = Some e" "tcoff_putl ms = Some f"
    "tcoff_putl (of_nat (length d + length e + length f + length (cstring str))) = Some c"
    "tcoff_putl (of_nat (length (a @ b @ c @ d @ e @ f @ octets (cstring str)))) = Some rl"
    "objfile w' = objfile w @ t @ rl @ a @ b @ c @ d @ e @ f @ octets (cstring str)"
proof -
  from assms obtain t rl a b c d e f where
    p: "tcoff_putl DESCRIPTOR_TAG = Some t" "tcoff_putl i = Some a" "tcoff_putl (scast (language_name w)) = Some b"
    "tcoff_putl ws = Some d" "tcoff_putl vs = Some e" "tcoff_putl ms = Some f"
    using putl_some by metis
  note z = p(2-6)[THEN occ21_size_of]
  obtain c where c: "tcoff_putl (of_nat (length d + length e + length f + length (cstring str))) = Some c" using putl_some by metis
  obtain rl where rl: "tcoff_putl (of_nat (length (a @ b @ c @ d @ e @ f @ octets (cstring str)))) = Some rl" using putl_some by metis
  have "objfile w' = objfile w @ t @ rl @ a @ b @ c @ d @ e @ f @ octets (cstring str)"
    using assms p z c occ21_size_of[OF c] rl
    by (auto simp: put_descriptor_def Let_def wr_get_def putl_def put_octets_def wr_update_def add.assoc)
  then show thesis using that p c rl by blast
qed

lemma put_descriptor_some: "\<exists>w'. put_descriptor i str ws vs ms w = Some (Inr ((), w'))"
proof -
  have z: "\<exists>n. occ21_sizel l = Some n" for l using putl_some[of l] by (auto simp: occ21_sizel_same)
  have p: "\<exists>bs. tcoff_putl l = Some bs" for l using putl_some[of l] by auto
  obtain a b c where "occ21_sizel ws = Some a" "occ21_sizel vs = Some b" "occ21_sizel ms = Some c" using z by blast
  moreover obtain d e f where "occ21_sizel i = Some d" "occ21_sizel (scast (language_name w)) = Some e"
    "occ21_sizel (a + b + c + of_nat (length (cstring str))) = Some f" using z by blast
  moreover note p[of DESCRIPTOR_TAG] p[of "d + e + f + (a + b + c + of_nat (length (cstring str)))"] p[of i]
    p[of "scast (language_name w)"] p[of "a + b + c + of_nat (length (cstring str))"] p[of ws] p[of vs] p[of ms]
  ultimately show ?thesis
    by (auto simp: put_descriptor_def Let_def wr_get_def putl_def put_octets_def wr_update_def)
qed

lemma short_readable: "n < 2 ^ 31 \<Longrightarrow> below_2_32 (of_nat n)"
  using sint_of_nat[of n] by (simp add: word_sle_eq)

lemma getl_at:
  assumes "tcoff_putl l = Some bs" "below_2_32 l" "drop n (remaining f) = bs @ r"
  shows "io_bind getl_from_tcoff k (s\<lparr>infile := skip n f\<rparr>) = k l (s\<lparr>infile := skip (n + length bs) f\<rparr>)"
  using occ21.getl_then[OF assms(1,2), of "s\<lparr>infile := skip n f\<rparr>" r k] assms(3) by (simp add: remaining_skip)

lemma getbytes_at:
  assumes "drop n (remaining f) = octets str @ r" "length str < 2 ^ 31"
  shows "io_bind (getbytes_from_tcoff (of_nat (length str))) k (s\<lparr>infile := skip n f\<rparr>) = k str (s\<lparr>infile := skip (n + length str) f\<rparr>)"
  using getbytes_reads[of "s\<lparr>infile := skip n f\<rparr>" str r, OF _ assms(2) refl] assms(1) by (simp add: remaining_skip io_bind_def)

text \<open>A descriptor that the compiler writes with the workspace, vector space and mobile space of an entry point is
  read back by the compiler: the sizes and the text are those written, and reading goes on exactly behind
  the record.\<close>

theorem descriptor_record_round_trip:
  assumes "put_descriptor i str ws vs ms w = Some (Inr (u, w'))" "language_name w = LANG_OCCAM"
    and "below_2_32 i" "below_2_32 ws" "below_2_32 vs" "below_2_32 ms" "ws \<noteq> - 1" "length (cstring str) < 2 ^ 30"
    and "remaining (infile s) = drop (length (objfile w)) (objfile w') @ r"
  shows "\<exists>s'. getl_from_tcoff s = Some (Inr (DESCRIPTOR_TAG, s')) \<and>
    rd_descriptor_in_module fe in_stdlib s' =
      io_bind (io_bind (descriptor_symbol False (cstring str)) (\<lambda>(name, k).
          enter_descriptor fe (current_module_seekpos s) False (module_instr s) (module_attr s) in_stdlib ws vs ms name k
            (cstring str) (length (cstring str)))) found
        (s\<lparr>infile := skip (length (objfile w') - length (objfile w)) (infile s)\<rparr>)"
proof -
  let ?str = "cstring str"
  obtain t rl a b c d e f where
    p: "tcoff_putl DESCRIPTOR_TAG = Some t" "tcoff_putl i = Some a" "tcoff_putl (scast (language_name w)) = Some b"
    "tcoff_putl ws = Some d" "tcoff_putl vs = Some e" "tcoff_putl ms = Some f"
    "tcoff_putl (of_nat (length d + length e + length f + length ?str)) = Some c"
    "tcoff_putl (of_nat (length (a @ b @ c @ d @ e @ f @ octets ?str))) = Some rl"
    "objfile w' = objfile w @ t @ rl @ a @ b @ c @ d @ e @ f @ octets ?str"
    by (rule put_descriptor_bytes[OF assms(1)])
  have lang: "tcoff_putl LANG_OCCAM = Some b" using p(3) assms(2) by simp
  have len: "below_2_32 (of_nat (length (a @ b @ c @ d @ e @ f @ octets ?str)))" "below_2_32 (of_nat (length d + length e + length f + length ?str))"
    using assms(8) p(2-7)[THEN putl_short] by (intro short_readable; simp)+
  have at: "remaining (infile s) = t @ rl @ a @ b @ c @ d @ e @ f @ octets ?str @ r" using assms(9) p(9) by simp
  have all: "length (objfile w') - length (objfile w) = length t + length rl + length a + length b + length c + length d + length e + length f + length ?str"
    by (simp add: p(9))
  have tag: "getl_from_tcoff s = Some (Inr (DESCRIPTOR_TAG, s\<lparr>infile := skip (length t) (infile s)\<rparr>))"
    using occ21_getl[OF p(1) _ at] by simp
  have "sizes_of ws vs ms = Some (of_nat (length d + length e + length f))" using p(4-6) sizes_of_written by blast
  then have left: "ucast (of_nat (length d + length e + length f + length ?str) :: LONG) - (of_nat (length d + length e + length f) :: INT32) = of_nat (length ?str)"
    "sizes_of ws vs ms = Some (of_nat (length d + length e + length f))"
    by (simp_all only: ucast_of_nat_small) simp_all
  have "rd_descriptor_in_module fe in_stdlib (s\<lparr>infile := skip (length t) (infile s)\<rparr>) =
     io_bind (process_descstring fe (current_module_seekpos s) False (module_instr s) (module_attr s) in_stdlib) found
       (s\<lparr>infile := skip (length t + length rl + length a + length b) (infile s)\<rparr>)"
    unfolding rd_descriptor_in_module_def
    using at by (simp add: getl_at[OF p(8) len(1)] getl_at[OF p(2) assms(3)] getl_at[OF lang] rd_get_def io_bind_def[of "rd_get _"] io_return_def)
  moreover have "process_descstring fe (current_module_seekpos s) False (module_instr s) (module_attr s) in_stdlib
      (s\<lparr>infile := skip (length t + length rl + length a + length b) (infile s)\<rparr>) =
      io_bind (descriptor_symbol False ?str) (\<lambda>(name, k).
        enter_descriptor fe (current_module_seekpos s) False (module_instr s) (module_attr s) in_stdlib ws vs ms name k ?str (length ?str))
        (s\<lparr>infile := skip (length (objfile w') - length (objfile w)) (infile s)\<rparr>)"
    unfolding process_descstring_def all
    using at assms(7,8) left
    by (simp add: getl_at[OF p(7) len(2)] getl_at[OF p(4) assms(4)] getl_at[OF p(5) assms(5)] getl_at[OF p(6) assms(6)]
        io_bind_def[of "io_option _"] io_option_def io_return_def getbytes_at[of _ _ _ r])
  ultimately show ?thesis using tag by (simp add: io_bind_def)
qed

section \<open>Entry points\<close>

lemma cstring_cstring [simp]: "cstring (cstring s) = cstring s"
  unfolding cstring_def takeWhile_takeWhile by simp

lemma desc_name_cstring: "desc_name (cstring s) = desc_name s"
  by (simp add: desc_name_def)

lemma below_scast [simp]: "below_2_32 (scast (x :: INT32))"
proof -
  have x: "- (2 ^ 31) \<le> sint x" "sint x < 2 ^ 31" using sint_ge[of x] sint_lt[of x] by simp_all
  then have "signed_take_bit 63 (sint x) = sint x" by (intro signed_take_bit_int_eq_self) auto
  then show ?thesis using x by (simp add: word_sle_eq signed_scast_eq)
qed

lemma ucast_scast [simp]: "ucast (scast x :: LONG) = (x :: INT32)"
  by (intro bit_word_eqI) (simp add: bit_unsigned_iff bit_signed_iff)

lemma scast_minus: "scast (x :: INT32) = (- 1 :: LONG) \<Longrightarrow> x = - 1"
proof -
  assume "scast x = (- 1 :: LONG)"
  then have "(ucast (scast x :: LONG) :: INT32) = ucast (- 1 :: LONG)" by (rule arg_cong)
  moreover have "(ucast (- 1 :: LONG) :: INT32) = - 1" by (rule bit_word_eqI) (simp add: bit_unsigned_iff)
  ultimately show ?thesis by simp
qed

lemma occam_name_ok: "is_occam_syntax name \<Longrightarrow> name_ok name"
  by (auto simp: is_occam_syntax_def name_ok_def isalpha_def isdigit_def list_all_iff split: list.splits)

lemma occam_name_whole: "is_occam_syntax name \<Longrightarrow> cstring name = name"
  using occam_name_ok[of name] by (intro cstring_whole) (simp add: name_ok_def)

lemma not_translated [simp]: "translate_descriptor init_translate name i descriptor len = Some (name, descriptor)"
  by (simp add: translate_descriptor_def init_translate_def lookup_translations_def search_translations_def)

lemma new_libentry:
  assumes "fe_lang fe = FE_LANG_OCCAM" "compatible_call fe instr attr" "search_libentries (libentries s) name = None" "ws \<noteq> ORIGIN_WS"
  shows "\<exists>s' e a. process_externalname fe name seek_val ws vs ms instr attr hash False s = (False, s') \<and>
    search_libentries (libentries s') name = Some e \<and>
    l_procdefs e = [\<lparr>p_module = a, p_ws = ws, p_vs = vs, p_ms = ms, p_offset = None\<rparr>]"
  using assms
  by (auto simp: process_externalname_def libentry_of_def module_of_def Let_def add_procdef_def must_send_def save_libentry_def
      search_libentries_def LINKED_INPUT_FILE_def configuring_lang_def FE_LANG_OCCAM_def FE_LANG_CONFIG2_def FE_LANG_CONFIG3_def
      set_bits_of_def has_bit_def LIBENTRY_BIT_DESC_SENT_def LIBENTRY_BIT_COMPATIBLE_def split: option.split)

lemma single_sizes:
  assumes "fe_lang fe = FE_LANG_OCCAM" "l_procdefs e = [p]"
  shows "getlibwsandvsandms fe mods \<lparr>nd_name = name, nd_function = f, nd_real_results = rs, nd_external = e\<rparr> b = (p_ws p, p_vs p, p_ms p)"
  using assms
  by (simp add: getlibwsandvsandms_def get_procdef_def lookup_procdef_def configuring_lang_def FE_LANG_OCCAM_def fpu_attempt_def t450_attempt_def)


definition sample_writer :: writer where
  "sample_writer =
     \<lparr>objfile = [], commentchain = [], reversed_commentchain = False, written_comment = False, refno = 0, exported_origin_id = 0,
      local_text = 0, code_size = 0, seek_position_of_startmodule = 0, text_name = [], language_name = LANG_OCCAM, wr_modules = []\<rparr>"

definition sample_fe :: fe_data where
  "sample_fe = \<lparr>fe_lang = FE_LANG_OCCAM, ptype = ARCH_T, pattr = 0, fe_suppress_compat = False, fe_read_all_libs = False\<rparr>"

definition sample_options :: wr_options where
  "sample_options =
     \<lparr>object_file_wrt_flags = 0, configuring = False, processortype = 0, processorattr = 0, sourcefilename = ''a.occ'', sourcehash = 0,
      chanaspointer = True, target_bigendian = False, hast9alphaprobs = False, info_line = [], tool_name = ''oc'', wordshift = 2,
      libpatchsize = 6\<rparr>"

definition sample_entry_point :: entry_point where
  "sample_entry_point = \<lparr>ep_routine = two_channels, ep_datasize = 12, ep_vsusage = 400, ep_msusage = 0\<rparr>"

definition sample_reader :: "OCTET list \<Rightarrow> reader" where
  "sample_reader bs = (init_obj_reader 0 ''a.tco'')\<lparr>infile := fopen bs\<rparr>"

lemma sample_reader_fields [simp]:
  "infile (sample_reader bs) = fopen bs" "current_module_seekpos (sample_reader bs) = 0" "module_instr (sample_reader bs) = 0"
  "module_attr (sample_reader bs) = 0" "fe_translates (sample_reader bs) = init_translate" "libentries (sample_reader bs) = []"
  by (simp_all add: sample_reader_def init_obj_reader_def)

lemma sample_writer_fields [simp]: "objfile sample_writer = []" "language_name sample_writer = LANG_OCCAM"
  by (simp_all add: sample_writer_def)

theorem descriptor_record_round_trip_witness:
  "\<exists>w' s'. put_descriptor 4 ''PROC p()'' 10 (- 7) 300 sample_writer = Some (Inr ((), w')) \<and>
     getl_from_tcoff (sample_reader (objfile w')) = Some (Inr (DESCRIPTOR_TAG, s')) \<and>
     rd_descriptor_in_module sample_fe False s' =
       io_bind (enter_descriptor sample_fe 0 False 0 0 False 10 (- 7) 300 ''p'' 5 ''PROC p()'' (length ''PROC p()'')) found
         ((sample_reader (objfile w'))\<lparr>infile := skip (length (objfile w')) (fopen (objfile w'))\<rparr>)"
proof -
  obtain w' where w': "put_descriptor 4 ''PROC p()'' 10 (- 7) 300 sample_writer = Some (Inr ((), w'))" using put_descriptor_some by blast
  have c: "cstring ''PROC p()'' = ''PROC p()''" "desc_name ''PROC p()'' = Some (''p'', 5)" by code_simp+
  have "io_bind (descriptor_symbol False ''PROC p()'') k s = k (''p'', 5) s" for k :: "string \<times> nat \<Rightarrow> string option rd" and s
    using c(2) by (simp add: descriptor_symbol_def io_bind_def io_return_def)
  then show ?thesis
    using descriptor_record_round_trip[OF w', of "sample_reader (objfile w')" "[]" sample_fe False] w' c(1)
    by (simp add: word_sle_eq io_bind_def[of "io_bind _ _"] io_bind_def[of "enter_descriptor _ _ _ _ _ _ _ _ _ _ _ _ _"])
qed


end
