(* ===== verification/OCC_Library_Index.thy ===== *)
theory OCC_Library_Index
  imports OCC_ReadBack Librarian_Output
begin

text \<open>
  The librarian and the compiler together: the compiler reads the entries of the index that the
  librarian writes, with the positions of the modules and the descriptors that were in the objects.
\<close>

section \<open>Positions\<close>

lemma low_byte_shift32:
  "push_bit (8 * i) (ucast (ucast (l AND 0xFF) :: OCTET)) OR push_bit (8 * Suc i) (drop_bit 8 l) = push_bit (8 * i) (l :: ULONG)"
proof (rule bit_word_eqI)
  fix n assume "n < LENGTH(64)"
  moreover have "(l AND 0xFF) = take_bit 8 l" by (simp add: take_bit_eq_mask mask_eq_exp_minus_1)
  moreover have "n - 8 * i < 8 \<and> n < 8 + 8 * i \<or> 8 + 8 * i \<le> n \<and> 8 + (n - (8 + 8 * i)) = n - 8 * i" if "8 * i \<le> n" using that by linarith
  ultimately show "bit (push_bit (8 * i) (ucast (ucast (l AND 0xFF) :: OCTET)) OR push_bit (8 * Suc i) (drop_bit 8 l)) n =
    bit (push_bit (8 * i) l) n"
    by (auto simp: bit_or_iff bit_push_bit_iff bit_unsigned_iff bit_take_bit_iff bit_drop_bit_eq)
qed

lemma getul_loop_reads:
  assumes "remaining (infile s) = putul_bytes k l @ r" "unat l < 256 ^ k"
  shows "getul_loop k i res s = Some (Inr (res OR push_bit (8 * i) l, s\<lparr>infile := skip k (infile s)\<rparr>))"
  using assms
proof (induction k arbitrary: i l res s)
  case 0
  then show ?case by (simp add: unat_eq_zero io_return_def)
next
  case (Suc k)
  have f: "fgetc (infile s) = (Some (ucast (l AND 0xFF)), skip 1 (infile s))" using fgetc_Cons Suc.prems(1) by simp
  have "unat (drop_bit 8 l) = unat l div 256" by (simp only: unat_drop_bit_eq) (simp add: drop_bit_eq_div)
  then have "unat (drop_bit 8 l) < 256 ^ k" using Suc.prems(2) by (simp add: div_less_iff_less_mult mult.commute)
  moreover have "remaining (skip 1 (infile s)) = putul_bytes k (drop_bit 8 l) @ r" using Suc.prems(1) by (simp add: remaining_skip)
  ultimately show ?case
    using Suc.IH[of "s\<lparr>infile := skip 1 (infile s)\<rparr>" "drop_bit 8 l" "Suc i" "res OR push_bit (8 * i) (ucast (ucast (l AND 0xFF) :: OCTET))"]
      low_byte_shift32[of i l] f
    by (simp add: or.assoc)
qed

lemma getul_at:
  assumes "drop n (remaining f) = tcoff_putul l @ r" "unat l < 2 ^ 32"
  shows "io_bind getul_from_tcoff k (s\<lparr>infile := skip n f\<rparr>) = k l (s\<lparr>infile := skip (n + 4) f\<rparr>)"
  using getul_loop_reads[of "s\<lparr>infile := skip n f\<rparr>" 4 l r 0 0] assms
  by (simp add: remaining_skip io_bind_def getul_from_tcoff_def tcoff_putul_def)

lemma throw_at:
  assumes "tcoff_putl (of_nat (length b)) = Some l" "below_2_32 (of_nat (length b))" "drop n (remaining f) = l @ b @ r" "inside f" "n \<le> length (remaining f)"
  shows "io_bind throw_record_from_tcoff k (s\<lparr>infile := skip n f\<rparr>) = k () (s\<lparr>infile := skip (n + length l + length b) f\<rparr>)"
  using occ21.throw_then[OF assms(1,2), of "s\<lparr>infile := skip n f\<rparr>" r k] assms(3-5) inside_skip[OF assms(4,5)]
  by (simp add: remaining_skip add.assoc)

section \<open>Index entries\<close>

lemma fwrite_whole:
  assumes "fwrite (bs @ [0]) n = Some out" "n = of_nat (length bs)" "length bs < 2 ^ 63"
  shows "out = bs"
proof -
  have "unat n = length bs" unfolding assms(2) using assms(3) by (simp only: unsigned_of_nat) (simp add: take_bit_nat_eq_self)
  then show ?thesis using assms(1) by (simp add: fwrite_def split: if_splits)
qed

definition descriptor_octets :: "LONG \<Rightarrow> LONG \<Rightarrow> LONG \<Rightarrow> string \<Rightarrow> OCTET list option" where
  "descriptor_octets ws vs ms str = concat_options [tcoff_putl ws, tcoff_putl vs, tcoff_putl ms, Some (octets str)]"

lemma position_kept:
  assumes "unat l < 2 ^ 31"
  shows "scast (ucast l :: INT32) = (l :: ULONG)"
proof -
  have "ucast l = (of_nat (unat l) :: INT32)" using ucast_of_nat_small[of "unat l"] by simp
  moreover have "sint (of_nat n :: INT32) = int n" if "n < 2 ^ 31" for n
    using that by (simp only: signed_of_nat) (simp add: signed_take_bit_int_eq_self)
  from this[OF assms] have "sint (of_nat (unat l) :: INT32) = int (unat l)" .
  ultimately show ?thesis by (simp add: scast_eq)
qed

lemma symbol_in_index:
  "io_bind (descriptor_symbol True str) k s = io_bind throw_record_from_tcoff (\<lambda>_. io_bind (descriptor_symbol False str) k) s"
  by (simp add: descriptor_symbol_def io_bind_def io_return_def split: option.split sum.split)

text \<open>C8: The compiler reads an entry of a library's index as the librarian wrote it: the descriptor is entered for the position in
  the library that the librarian computed for the module, with the module's processor type and
  attributes, and reading goes on exactly behind the entry.\<close>

theorem index_entry_is_read:
  assumes "write_entry isize e = Some bs" "entry_ok e" "ix_lang e = LANG_OCCAM"
    and "descriptor_octets ws vs ms str = Some (ix_desc e)" "ix_desclen e = of_nat (length (ix_desc e))" "ix_strlen e = of_nat (length (ix_string e))"
    and "list_all below_2_32 [ix_trans_func e, ix_err_mode e, ws, vs, ms]" "ws \<noteq> - 1" "length (ix_desc e) < 2 ^ 29" "length (ix_string e) < 2 ^ 29" "unat (ix_pos e + isize) < 2 ^ 31"
    and "remaining (infile s) = bs @ r" "inside (infile s)"
  shows "\<exists>s'. getl_from_tcoff s = Some (Inr (INDEX_ENTRY_TAG, s')) \<and>
    rd_index_entry fe in_stdlib s' =
      io_bind (io_bind (descriptor_symbol False str) (\<lambda>(name, k).
          enter_descriptor fe (ix_pos e + isize) True (ucast (ix_trans_func e)) (ucast (ix_err_mode e)) in_stdlib ws vs ms name k
            str (length str))) found
        (s\<lparr>file_is_a_library := True, infile := skip (length bs) (infile s)\<rparr>)"
proof -
  obtain a b c d f g h i j where w: "tcoff_putl INDEX_ENTRY_TAG = Some a" "tcoff_putl (ix_rec_len e) = Some b"
    "tcoff_putl (ix_trans_func e) = Some c" "tcoff_putl (ix_err_mode e) = Some d" "tcoff_putl (ix_lang e) = Some f"
    "tcoff_putl (ix_desclen e) = Some g" "fwrite (ix_desc e @ [0]) (ix_desclen e) = Some h"
    "tcoff_putl (ix_strlen e) = Some i" "fwrite (ix_string e @ [0]) (ix_strlen e) = Some j"
    and bs: "bs = a @ b @ tcoff_putul (ix_pos e + isize) @ c @ d @ f @ g @ h @ i @ j"
    using assms(1) unfolding write_entry_def concat_options_Cons by auto
  note short = w(3-6,8)[THEN putl_short]
  have h: "h = ix_desc e" using fwrite_whole[OF w(7) assms(5)] assms(9) by simp
  have j: "j = ix_string e" using fwrite_whole[OF w(9) assms(6)] assms(10) by simp
  have lens: "ix_rec_len e = of_nat (4 + length c + length d + length f + length g + length h + length i + length j)"
    using assms(2,5,6) h j w(3-6,8)[THEN putl_length] by (auto simp: entry_ok_def tcoff_sizes_Cons simp del: tcoff_sizes.simps(2))
  obtain o1 o2 o3 where o: "tcoff_putl ws = Some o1" "tcoff_putl vs = Some o2" "tcoff_putl ms = Some o3" "ix_desc e = o1 @ o2 @ o3 @ octets str"
    using assms(4) unfolding descriptor_octets_def concat_options_Cons by auto
  have readable: "below_2_32 (ix_rec_len e)" "below_2_32 (ix_desclen e)" "below_2_32 (of_nat (length j))" "length str < 2 ^ 31"
    unfolding lens assms(5) using assms(9,10) short h j o(4) by (intro short_readable; simp)+ (use assms(9) o(4) in simp)
  have at: "remaining (infile s) = a @ b @ tcoff_putul (ix_pos e + isize) @ c @ d @ f @ g @ o1 @ o2 @ o3 @ octets str @ i @ j @ r"
    using assms(12) bs h o(4) by simp
  have fits: "length (remaining (infile s)) = length a + length b + 4 + length c + length d + length f + length g + length h + length i + length j + length r"
    unfolding at by (simp add: h o(4) putul_length)
  define S where "S = s\<lparr>file_is_a_library := True\<rparr>"
  define F where "F = infile s"
  have to_S: "s\<lparr>infile := x, file_is_a_library := True\<rparr> = S\<lparr>infile := x\<rparr>" for x by (simp add: S_def)
  have all: "length bs = length a + length b + 4 + length c + length d + length f + length g + length o1 + length o2 + length o3 + length str + length i + length j"
    by (simp add: bs h o(4) putul_length)
  have tag: "getl_from_tcoff s = Some (Inr (INDEX_ENTRY_TAG, s\<lparr>infile := skip (length a) F\<rparr>))"
    using occ21_getl[OF w(1) _ at] by (simp add: F_def)
  note at = at[folded F_def]
  have "sizes_of ws vs ms = Some (of_nat (length o1 + length o2 + length o3))" using o(1-3) sizes_of_written by blast
  moreover have "ucast (ix_desclen e) = (of_nat (length o1 + length o2 + length o3 + length str) :: INT32)"
    unfolding assms(5) o(4) by (simp only: ucast_of_nat_small) simp
  ultimately have left: "sizes_of ws vs ms = Some (of_nat (length o1 + length o2 + length o3))"
    "ucast (ix_desclen e) - (of_nat (length o1 + length o2 + length o3) :: INT32) = of_nat (length str)" by simp_all
  have "rd_index_entry fe in_stdlib (s\<lparr>infile := skip (length a) F\<rparr>) =
      io_bind (process_descstring fe (ix_pos e + isize) True (ucast (ix_trans_func e)) (ucast (ix_err_mode e)) in_stdlib) found
       (S\<lparr>infile := skip (length a + length b + 4 + length c + length d + length f) F\<rparr>)"
    unfolding rd_index_entry_def io_bind_def[of "rd_update _"] rd_update_def io_return_def option.case sum.case prod.case to_S
    using at assms(3,7,11) position_kept[OF assms(11)]
    by (simp add: getl_at[OF w(2) readable(1)] getl_at[OF w(3)] getl_at[OF w(4)] getl_at[OF w(5)] getul_at putul_length)
  moreover have "process_descstring fe (ix_pos e + isize) True (ucast (ix_trans_func e)) (ucast (ix_err_mode e)) in_stdlib
      (S\<lparr>infile := skip (length a + length b + 4 + length c + length d + length f) F\<rparr>) =
      io_bind (descriptor_symbol False str) (\<lambda>(name, k).
          enter_descriptor fe (ix_pos e + isize) True (ucast (ix_trans_func e)) (ucast (ix_err_mode e)) in_stdlib ws vs ms name k
            str (length str)) (S\<lparr>infile := skip (length bs) F\<rparr>)"
  proof -
    have "io_bind throw_record_from_tcoff k (S\<lparr>infile := skip (length a + length b + 4 + length c + length d + length f + length g + length o1 + length o2 + length o3 + length str) F\<rparr>) =
        k () (S\<lparr>infile := skip (length bs) F\<rparr>)" for k :: "unit \<Rightarrow> string option rd"
      unfolding all using at fits assms(6,13) readable(3) w(8) j
      by (subst throw_at[where l = i and b = j and r = r]) (simp_all add: putul_length F_def h o(4))
    moreover have "io_bind (getbytes_from_tcoff (of_nat (length str))) k (S\<lparr>infile := skip (length a + length b + 4 + length c + length d + length f + length g + length o1 + length o2 + length o3) F\<rparr>) =
        k str (S\<lparr>infile := skip (length a + length b + 4 + length c + length d + length f + length g + length o1 + length o2 + length o3 + length str) F\<rparr>)"
      for k :: "string \<Rightarrow> string option rd"
      using at readable(4) by (intro getbytes_at[where r = "i @ j @ r"]) (simp_all add: putul_length)
    ultimately show ?thesis
      unfolding process_descstring_def
      using at assms(7,8) left
      by (simp add: symbol_in_index getl_at[OF w(6) readable(2)] getl_at[OF o(1)] getl_at[OF o(2)] getl_at[OF o(3)] putul_length
        io_bind_def[of "io_option _"] io_option_def io_return_def)
  qed
  ultimately show ?thesis using tag by (simp add: io_bind_def S_def F_def)
qed

definition sample_index_entry :: s_index where
  "sample_index_entry =
     \<lparr>ix_rec_len = 21, ix_pos = 20, ix_trans_func = 7, ix_err_mode = 5, ix_lang = LANG_OCCAM, ix_desclen = 11,
      ix_desc = [10, 20, 0] @ octets ''PROC p()'', ix_strlen = 1, ix_is_origin = False, ix_string = octets ''p'', ix_fname = [],
      ix_total_size = 23, ix_id = 0, ix_defined = True\<rparr>"

theorem index_entry_is_read_witness:
  "\<exists>bs s'. write_entry 300 sample_index_entry = Some bs \<and>
     getl_from_tcoff (sample_reader bs) = Some (Inr (INDEX_ENTRY_TAG, s')) \<and>
     rd_index_entry sample_fe False s' =
       io_bind (io_bind (descriptor_symbol False ''PROC p()'') (\<lambda>(name, k).
          enter_descriptor sample_fe 320 True 7 5 False 10 20 0 name k ''PROC p()'' (length ''PROC p()''))) found
        ((sample_reader bs)\<lparr>file_is_a_library := True, infile := skip (length bs) (fopen bs)\<rparr>)"
proof -
  have "(case write_entry 300 sample_index_entry of None \<Rightarrow> False | Some bs \<Rightarrow> length bs \<le> 30)" by code_simp
  then obtain bs where 1: "write_entry 300 sample_index_entry = Some bs" "length bs \<le> 30" by (auto split: option.splits)
  have "tcoff_sizes [7, 5, 3, 11, 1] = Some 5" "entry_size 21 = Some 23" by code_simp+
  then have 2: "entry_ok sample_index_entry" by (simp add: entry_ok_def sample_index_entry_def del: tcoff_sizes.simps)
  have 4: "descriptor_octets 10 20 0 ''PROC p()'' = Some (ix_desc sample_index_entry)" by code_simp
  have 5: "ix_desclen sample_index_entry = of_nat (length (ix_desc sample_index_entry))"
    "ix_strlen sample_index_entry = of_nat (length (ix_string sample_index_entry))" by code_simp+
  have 7: "list_all below_2_32 [ix_trans_func sample_index_entry, ix_err_mode sample_index_entry, 10, 20, 0]" by code_simp
  have 8: "ix_lang sample_index_entry = LANG_OCCAM" "ix_trans_func sample_index_entry = 7" "ix_err_mode sample_index_entry = 5"
    "ix_pos sample_index_entry = 20" "length (ix_desc sample_index_entry) \<le> 20" "length (ix_string sample_index_entry) \<le> 20"
    by (simp_all add: sample_index_entry_def)
  have 9: "remaining (infile (sample_reader bs)) = bs @ []" "inside (infile (sample_reader bs))"
    using 1(2) by (simp, simp add: inside_def fopen_def)
  have 10: "(10 :: LONG) \<noteq> - 1" "length (ix_desc sample_index_entry) < 2 ^ 29" "length (ix_string sample_index_entry) < 2 ^ 29"
    "unat (ix_pos sample_index_entry + 300) < 2 ^ 31"
    using 8(4-6) by simp_all
  show ?thesis
    using index_entry_is_read[OF 1(1) 2 8(1) 4 5 7 10 9, of sample_fe False] 1(1) 8 by simp
qed

end
