(* ===== verification/OCC_Reachable.thy ===== *)
theory OCC_Reachable
  imports OCC_Reader
begin

text \<open>
  The states that the reader of descriptors can get into, whatever files it reads: the addresses it
  keeps are those of modules, an entry has one name and a module one position, and a program that is
  compiled, not configured, has at most one definition of each name.
\<close>

section \<open>What an operation keeps\<close>

definition keeps :: "('s \<Rightarrow> bool) \<Rightarrow> ('a, 's, 'e) run \<Rightarrow> bool" where
  "keeps P m \<longleftrightarrow> (\<forall>s x s'. P s \<longrightarrow> m s = Some (Inr (x, s')) \<longrightarrow> P s')"

named_theorems keeps_intros

lemma keepsI: "(\<And>s x s'. P s \<Longrightarrow> m s = Some (Inr (x, s')) \<Longrightarrow> P s') \<Longrightarrow> keeps P m" by (auto simp: keeps_def)
lemma keepsD: "keeps P m \<Longrightarrow> m s = Some (Inr (x, s')) \<Longrightarrow> P s \<Longrightarrow> P s'" by (auto simp: keeps_def)

lemma keeps_return [keeps_intros]: "keeps P (io_return x)" by (auto simp: keeps_def)
lemma keeps_fail [keeps_intros]: "keeps P (io_fail e)" by (auto simp: keeps_def)
lemma keeps_option [keeps_intros]: "keeps P (io_option r)" by (auto simp: keeps_def)
lemma keeps_get [keeps_intros]: "keeps P (rd_get f)" by (auto simp: keeps_def rd_get_def)
lemma keeps_undefined [keeps_intros]: "keeps P (\<lambda>s. None)" by (auto simp: keeps_def)

lemma keeps_update [keeps_intros]: "(\<And>s. P s \<Longrightarrow> P (f s)) \<Longrightarrow> keeps P (rd_update f)" by (auto simp: keeps_def rd_update_def)

lemma keeps_bind [keeps_intros]: "keeps P m \<Longrightarrow> (\<And>x. keeps P (k x)) \<Longrightarrow> keeps P (io_bind m k)"
proof (rule keepsI)
  fix s y s' assume m: "keeps P m" "\<And>x. keeps P (k x)" and s: "P s" "io_bind m k s = Some (Inr (y, s'))"
  then obtain x g where g: "m s = Some (Inr (x, g))" "k x g = Some (Inr (y, s'))" by auto
  show "P s'" by (rule keepsD[OF m(2) g(2) keepsD[OF m(1) g(1) s(1)]])
qed

lemma keeps_if [keeps_intros]: "\<lbrakk>b \<Longrightarrow> keeps P m; \<not> b \<Longrightarrow> keeps P n\<rbrakk> \<Longrightarrow> keeps P (if b then m else n)" by simp
lemma keeps_if_state [keeps_intros]: "\<lbrakk>keeps P m; keeps P n\<rbrakk> \<Longrightarrow> keeps P (\<lambda>s. if b s then m s else n s)"
  by (rule keepsI) (auto dest: keepsD split: if_splits)

section \<open>Well-formed readers\<close>

definition entry_in :: "module_t list \<Rightarrow> libentry_t \<Rightarrow> bool" where
  "entry_in mods e \<longleftrightarrow> (\<forall>p \<in> set (l_procdefs e). p_module p < length mods)"

definition compiling :: "fe_data \<Rightarrow> bool" where
  "compiling fe \<longleftrightarrow> \<not> configuring_lang fe \<and> \<not> LINKED_INPUT_FILE fe"

definition entry_single :: "fe_data \<Rightarrow> libentry_t \<Rightarrow> bool" where
  "entry_single fe e \<longleftrightarrow>
     (compiling fe \<longrightarrow> length (l_procdefs e) = (if has_bit LIBENTRY_BIT_COMPATIBLE (l_bits e) then 1 else 0))"

definition reader_ok :: "fe_data \<Rightarrow> reader \<Rightarrow> bool" where
  "reader_ok fe s \<longleftrightarrow>
     distinct (map l_name (libentries s)) \<and>
     (\<forall>e \<in> set (libentries s) \<union> set (globalnames (fe_translates s)). entry_in (modules s) e \<and> entry_single fe e) \<and>
     (\<forall>a \<in> set (localmodules s). a < length (modules s)) \<and>
     distinct (map (\<lambda>a. m_seek_ptr (modules s ! a)) (localmodules s)) \<and>
     (\<forall>a. current_module s = Some a \<longrightarrow> a < length (modules s))"

lemma reader_ok_updates [simp]:
  "reader_ok fe (infile_update f1 s) = reader_ok fe s"
  "reader_ok fe (currentfilenum_update f2 s) = reader_ok fe s"
  "reader_ok fe (libfilename_update f3 s) = reader_ok fe s"
  "reader_ok fe (libwname_update f4 s) = reader_ok fe s"
  "reader_ok fe (current_module_seekpos_update f5 s) = reader_ok fe s"
  "reader_ok fe (module_instr_update f6 s) = reader_ok fe s"
  "reader_ok fe (module_attr_update f6 s) = reader_ok fe s"
  "reader_ok fe (in_descriptor_update f7 s) = reader_ok fe s"
  "reader_ok fe (descriptor_indent_update f8 s) = reader_ok fe s"
  "reader_ok fe (sub_desc_update f9 s) = reader_ok fe s"
  "reader_ok fe (reading_module_update f7 s) = reader_ok fe s"
  "reader_ok fe (module_level_update f10 s) = reader_ok fe s"
  "reader_ok fe (library_eof_update f7 s) = reader_ok fe s"
  "reader_ok fe (current_symbol_value_update f10 s) = reader_ok fe s"
  "reader_ok fe (current_module_size_update f10 s) = reader_ok fe s"
  "reader_ok fe (file_is_a_library_update f7 s) = reader_ok fe s"
  "reader_ok fe (in_linked_text_section_update f7 s) = reader_ok fe s"
  "reader_ok fe (already_read_a_text_segment_update f7 s) = reader_ok fe s"
  "reader_ok fe (messages_update f11 s) = reader_ok fe s"
  by (simp_all add: reader_ok_def)

lemma throwaway_ok [simp]: "reader_ok fe (s\<lparr>fe_translates := throwawayname name tr\<rparr>) = reader_ok fe (s\<lparr>fe_translates := tr\<rparr>)"
  by (simp add: reader_ok_def throwawayname_def)

section \<open>Entering a name\<close>

lemma search_libentries_Some: "search_libentries es name = Some e \<Longrightarrow> e \<in> set es \<and> l_name e = name"
  by (auto simp: search_libentries_def find_Some_iff)

lemma search_libentries_None: "search_libentries es name = None \<longleftrightarrow> name \<notin> l_name ` set es"
  by (auto simp: search_libentries_def find_None_iff)

lemma update_libentry_names: "l_name e = name \<Longrightarrow> map l_name (update_libentry name (\<lambda>_. e) es) = map l_name es"
  by (induction es) auto

lemma update_libentry_set: "x \<in> set (update_libentry name (\<lambda>_. e) es) \<Longrightarrow> x = e \<or> x \<in> set es"
  by (induction es) (auto split: if_splits)

lemma save_ok:
  assumes "reader_ok fe s" "entry_in (modules s) e" "entry_single fe e"
  shows "reader_ok fe (save_libentry e s)"
  using assms update_libentry_names[OF refl, of e "libentries s"] update_libentry_set[of _ "l_name e" e "libentries s"]
  by (auto simp: reader_ok_def save_libentry_def)

lemma libentry_of_ok:
  assumes "reader_ok fe s" "libentry_of name hash s = (e, s')"
  shows "reader_ok fe s'" "e \<in> set (libentries s')" "modules s' = modules s"
proof -
  have "reader_ok fe s' \<and> e \<in> set (libentries s') \<and> modules s' = modules s"
  proof (cases "search_libentries (libentries s) name")
    case None
    let ?e = "\<lparr>l_name = name, l_procdefs = [], l_bits = 0, l_hash = hash\<rparr>"
    have "entry_in (modules s) ?e" "entry_single fe ?e" by (simp_all add: entry_in_def entry_single_def has_bit_def)
    moreover have "name \<notin> l_name ` set (libentries s)" using None by (simp add: search_libentries_None)
    ultimately show ?thesis using None assms by (auto simp: libentry_of_def Let_def reader_ok_def)
  next
    case (Some x)
    then show ?thesis using assms search_libentries_Some[OF Some] by (auto simp: libentry_of_def issue_def split: if_splits)
  qed
  then show "reader_ok fe s'" "e \<in> set (libentries s')" "modules s' = modules s" by simp_all
qed

lemma entry_in_more: "entry_in mods e \<Longrightarrow> length mods \<le> length mods' \<Longrightarrow> entry_in mods' e"
  by (force simp: entry_in_def)

lemma module_of_ok:
  assumes "reader_ok fe s" "module_of seek_val instr attr s = (a, s')"
  shows "reader_ok fe s'" "a < length (modules s')" "length (modules s) \<le> length (modules s')"
proof -
  have "reader_ok fe s' \<and> a < length (modules s') \<and> length (modules s) \<le> length (modules s')"
  proof (cases "search_modulechain (modules s) (localmodules s) seek_val")
    case None
    then have new: "\<forall>b \<in> set (localmodules s). m_seek_ptr (modules s ! b) \<noteq> seek_val" by (auto simp: search_modulechain_def find_None_iff)
    have old: "(modules s @ ms) ! b = modules s ! b" if "b \<in> set (localmodules s)" for b ms
      using assms(1) that by (simp add: reader_ok_def nth_append)
    have map: "map (\<lambda>b. m_seek_ptr ((modules s @ ms) ! b)) (localmodules s) = map (\<lambda>b. m_seek_ptr (modules s ! b)) (localmodules s)" for ms
      using old by simp
    let ?m = "\<lparr>m_name = ''?'', m_seek_ptr = seek_val, m_id_val = ORIGIN_NOT_FOUND, m_filenum = currentfilenum s, m_instr = instr, m_attr = attr, m_size = 0\<rparr>"
    have s': "a = length (modules s)" "s' = s\<lparr>modules := modules s @ [?m], localmodules := a # localmodules s\<rparr>"
      using assms(2) None by (auto simp: module_of_def Let_def)
    have "entry_in (modules s @ [?m]) e" if "entry_in (modules s) e" for e using entry_in_more[OF that] by simp
    moreover have "distinct (map (\<lambda>b. m_seek_ptr ((modules s @ [?m]) ! b)) (a # localmodules s))"
    proof -
      have "distinct (map (\<lambda>b. m_seek_ptr ((modules s @ [?m]) ! b)) (localmodules s))" using assms(1) unfolding map by (simp add: reader_ok_def)
      moreover have "m_seek_ptr ((modules s @ [?m]) ! b) \<noteq> seek_val" if "b \<in> set (localmodules s)" for b using new old that by simp
      ultimately show ?thesis by (fastforce simp: s'(1))
    qed
    ultimately show ?thesis using assms(1) by (auto simp: s' reader_ok_def less_SucI)
  next
    case (Some b)
    then have "b \<in> set (localmodules s)" by (auto simp: search_modulechain_def find_Some_iff)
    then show ?thesis using Some assms by (auto simp: module_of_def reader_ok_def)
  qed
  then show "reader_ok fe s'" "a < length (modules s')" "length (modules s) \<le> length (modules s')" by simp_all
qed

lemma update_module_ok:
  assumes "reader_ok fe s" "\<And>m. m_seek_ptr (f m) = m_seek_ptr m"
  shows "reader_ok fe (update_module a f s)"
proof -
  have "m_seek_ptr ((modules s)[a := f (modules s ! a)] ! b) = m_seek_ptr (modules s ! b)" for b
    using assms(2) by (cases "a < length (modules s)") (auto simp: nth_list_update list_update_beyond)
  then show ?thesis using assms(1) by (auto simp: reader_ok_def update_module_def entry_in_def)
qed

lemma entry_in_modules: "entry_in mods e \<longleftrightarrow> (\<forall>a \<in> set (map p_module (l_procdefs e)). a < length mods)"
  by (simp add: entry_in_def)

lemma set_offset_modules: "map p_module (set_offset mods seek_val v ps) = map p_module ps"
  by (induction ps) auto

lemma compatible_bit [simp]:
  "has_bit LIBENTRY_BIT_COMPATIBLE (w OR LIBENTRY_BIT_COMPATIBLE)"
  "has_bit LIBENTRY_BIT_COMPATIBLE (w OR LIBENTRY_BIT_DESC_SENT) = has_bit LIBENTRY_BIT_COMPATIBLE w"
  "has_bit LIBENTRY_BIT_COMPATIBLE (w OR LIBENTRY_BIT_NESTED_TIMER) = has_bit LIBENTRY_BIT_COMPATIBLE w"
  "has_bit LIBENTRY_BIT_COMPATIBLE (w OR LIBENTRY_BIT_NESTED_PLACE) = has_bit LIBENTRY_BIT_COMPATIBLE w"
  "has_bit LIBENTRY_BIT_COMPATIBLE (w OR LIBENTRY_BIT_NESTED_PORT) = has_bit LIBENTRY_BIT_COMPATIBLE w"
  unfolding has_bit_def bit.conj_disj_distrib2
  by (simp_all add: LIBENTRY_BIT_COMPATIBLE_def LIBENTRY_BIT_DESC_SENT_def LIBENTRY_BIT_NESTED_TIMER_def
      LIBENTRY_BIT_NESTED_PLACE_def LIBENTRY_BIT_NESTED_PORT_def or_eq_0_iff)

lemma process_externalname_ok:
  assumes "reader_ok fe s" "process_externalname fe name seek_val ws vs ms instr attr hash in_libindex s = (b, s')"
  shows "reader_ok fe s'"
proof -
  define comp where "comp = compatible_call fe instr attr"
  obtain e s1 where 1: "libentry_of name hash s = (e, s1)" by fastforce
  obtain a s2 where 2: "module_of seek_val instr attr s1 = (a, s2)" by fastforce
  note ok1 = libentry_of_ok[OF assms(1) 1]
  note ok2 = module_of_ok[OF ok1(1) 2]
  define s3 where "s3 = (if ws = ORIGIN_WS then update_module a (\<lambda>m. m\<lparr>m_name := name, m_id_val := ORIGIN_FOUND\<rparr>) s2 else s2)"
  have ok3: "reader_ok fe s3" "length (modules s3) = length (modules s2)"
    using update_module_ok[OF ok2(1), of "\<lambda>m. m\<lparr>m_name := name, m_id_val := ORIGIN_FOUND\<rparr>" a] ok2(1)
    by (simp_all add: s3_def update_module_def)
  define s4 where "s4 = (if LINKED_INPUT_FILE fe then s3\<lparr>current_module := Some a\<rparr> else s3)"
  have ok4: "reader_ok fe s4" "length (modules s4) = length (modules s2)"
    using ok3 ok2(2) by (simp_all add: s4_def reader_ok_def)
  define e1 where "e1 = (if comp then set_bits_of LIBENTRY_BIT_COMPATIBLE e else e)"
  have e: "entry_in (modules s1) e" "entry_single fe e" using ok1 by (simp_all add: reader_ok_def)
  then have e1: "entry_in (modules s4) e1" using entry_in_more[OF e(1), of "modules s4"] ok2(3) ok4(2)
    by (simp add: e1_def set_bits_of_def entry_in_def)
  have linked: ?thesis if l: "LINKED_INPUT_FILE fe"
      "s' = save_libentry (e1\<lparr>l_procdefs := set_offset (modules s4) seek_val (current_symbol_value s4) (l_procdefs e1)\<rparr>) s4"
  proof -
    have "entry_in (modules s4) (e1\<lparr>l_procdefs := set_offset (modules s4) seek_val (current_symbol_value s4) (l_procdefs e1)\<rparr>)"
      using e1 by (simp add: entry_in_modules set_offset_modules del: set_map)
    then show ?thesis using l save_ok[OF ok4(1)] by (simp add: entry_single_def compiling_def)
  qed
  define e2 where "e2 = add_procdef fe comp a ws vs ms s4 e1"
  have "entry_in (modules s4) e2" using e1 ok2(2) ok4(2) by (simp add: e2_def add_procdef_def entry_in_def)
  moreover have "entry_single fe e2"
    using e(2) by (auto simp: e2_def e1_def add_procdef_def entry_single_def compiling_def set_bits_of_def)
  ultimately have "reader_ok fe (save_libentry e2 s4)" "reader_ok fe (save_libentry (set_bits_of LIBENTRY_BIT_DESC_SENT e2) s4)"
    using save_ok[OF ok4(1)] by (simp_all add: set_bits_of_def entry_in_def entry_single_def)
  moreover have "process_externalname fe name seek_val ws vs ms instr attr hash in_libindex s =
      (if LINKED_INPUT_FILE fe \<and> file_is_a_library s4 \<and> \<not> in_libindex
       then (True, save_libentry (e1\<lparr>l_procdefs := set_offset (modules s4) seek_val (current_symbol_value s4) (l_procdefs e1)\<rparr>) s4)
       else if must_send fe comp ws e2 then (False, save_libentry (set_bits_of LIBENTRY_BIT_DESC_SENT e2) s4) else (True, save_libentry e2 s4))"
    by (simp only: process_externalname_def Let_def 1 2 prod.case comp_def s3_def s4_def e1_def e2_def)
  ultimately show ?thesis using assms(2) linked by (auto split: if_splits)
qed

section \<open>Reading\<close>

lemma keeps_get_upd: "(\<And>s. P s \<Longrightarrow> P (f s)) \<Longrightarrow> keeps P (\<lambda>s. io_return x (f s))" by (auto simp: keeps_def)

abbreviation "kept fe \<equiv> keeps (reader_ok fe)"

named_theorems kept_operations

lemma getl_kept [kept_operations]: "kept fe getl_from_tcoff"
  by (rule keepsI) (auto simp: getl_from_tcoff_def split: option.splits prod.splits if_splits)

lemma getul_loop_kept: "kept fe (getul_loop k i l)"
proof (rule keepsI)
  show "getul_loop k i l s = Some (Inr (x, s')) \<Longrightarrow> reader_ok fe s \<Longrightarrow> reader_ok fe s'" for s x s'
    by (induction k i l s rule: getul_loop.induct) (auto split: prod.splits option.splits)
qed

lemma getul_kept [kept_operations]: "kept fe getul_from_tcoff"
  by (simp add: getul_from_tcoff_def getul_loop_kept)

lemma getbytes_kept [kept_operations]: "kept fe (getbytes_from_tcoff n)"
  by (rule keepsI) (auto simp: getbytes_from_tcoff_def split: option.splits prod.splits if_splits)

lemma throw_bytes_kept [kept_operations]: "kept fe (throw_bytes_from_tcoff n)"
  by (rule keepsI) (auto simp: throw_bytes_from_tcoff_def split: prod.splits bool.splits)

lemma throw_record_kept [kept_operations]: "kept fe throw_record_from_tcoff"
  unfolding throw_record_from_tcoff_def by (intro keeps_intros kept_operations)

lemma origin_name_kept [kept_operations]: "kept fe (origin_name str)"
  by (rule keepsI) (auto simp: origin_name_def split: option.splits if_splits)

lemma descriptor_symbol_kept [kept_operations]: "kept fe (descriptor_symbol in_libindex d)"
  unfolding descriptor_symbol_def by (auto intro!: keeps_intros kept_operations split: option.split)

lemma enter_descriptor_kept [kept_operations]: "kept fe (enter_descriptor fe seek in_libindex instr attr std ws vs ms name i d len)"
  by (rule keepsI)
    (auto simp: enter_descriptor_def issue_def Let_def dest: process_externalname_ok[rotated] split: option.splits if_splits prod.splits)

lemma process_descstring_kept [kept_operations]: "kept fe (process_descstring fe seek in_libindex instr attr std)"
  unfolding process_descstring_def by (auto intro!: keeps_intros kept_operations)

lemma found_kept [kept_operations]: "kept fe (found d)"
  unfolding found_def by (auto intro!: keeps_intros split: option.split)

lemma throw_record_result_kept [kept_operations]: "kept fe throw_record"
  unfolding throw_record_def by (intro keeps_intros kept_operations)

lemma enter_origin_ok: "reader_ok fe s \<Longrightarrow> reader_ok fe (enter_origin fe name s)"
  unfolding enter_origin_def by (rule process_externalname_ok[OF _ surjective_pairing])

lemma end_module_ok:
  "reader_ok fe s \<Longrightarrow> reader_ok fe (case current_module s of Some a \<Rightarrow> if b then update_module a (\<lambda>m. m\<lparr>m_size := n\<rparr>) s else s | None \<Rightarrow> s)"
  using update_module_ok[of fe s "\<lambda>m. m\<lparr>m_size := n\<rparr>"] by (auto split: option.split)

lemma no_module_ok [simp]: "reader_ok fe s \<Longrightarrow> reader_ok fe (s\<lparr>current_module := None\<rparr>)"
  by (simp add: reader_ok_def)

lemma records_kept [kept_operations]:
  "kept fe rd_index_start" "kept fe (rd_index_entry fe std)" "kept fe rd_start_module" "kept fe (rd_symbol_in_module fe)"
  "kept fe (rd_descriptor_in_module fe std)" "kept fe (rd_end_module fe)" "kept fe (rd_index_end fe)" "kept fe (rd_define_symbol fe)"
  "kept fe (rd_load_text fe)" "kept fe (rd_section fe)"
  subgoal unfolding rd_index_start_def by (auto intro!: keeps_intros kept_operations)
  subgoal unfolding rd_index_entry_def by (auto intro!: keeps_intros kept_operations)
  subgoal unfolding rd_start_module_def by (auto intro!: keeps_intros kept_operations)
  subgoal unfolding rd_symbol_in_module_def Let_def by (auto intro!: keeps_intros kept_operations enter_origin_ok)
  subgoal unfolding rd_descriptor_in_module_def by (auto intro!: keeps_intros kept_operations)
  subgoal unfolding rd_end_module_def by (auto intro!: keeps_intros kept_operations end_module_ok)
  subgoal unfolding rd_index_end_def by (auto intro!: keeps_intros kept_operations)
  subgoal unfolding rd_define_symbol_def by (auto intro!: keeps_intros kept_operations)
  subgoal unfolding rd_load_text_def by (auto intro!: keeps_intros kept_operations)
  subgoal unfolding rd_section_def by (auto intro!: keeps_intros kept_operations)
  done

lemma read_record_kept [kept_operations]: "kept fe (read_tcoff_record fe std x)"
  unfolding read_tcoff_record_def by (auto intro!: keeps_intros kept_operations)

lemma getl_or_end_kept [kept_operations]: "kept fe getl_or_end"
  by (rule keepsI) (auto simp: getl_or_end_def split: option.splits prod.splits)

lemma find_descriptor_kept [kept_operations]: "kept fe (find_descriptor fe std)"
proof (rule keepsI)
  fix s d s' assume ok: "reader_ok fe s" and r: "find_descriptor fe std s = Some (Inr (d, s'))"
  have "\<forall>d s'. r = Inr (d, s') \<longrightarrow> reader_ok fe s \<longrightarrow> reader_ok fe s'" if "find_descriptor fe std s = Some r" for r
    using that
  proof (induction rule: find_descriptor.raw_induct[rotated, consumes 1])
    case (1 find fe std s r)
    show ?case
    proof (intro allI impI)
      fix d s' assume r: "r = Inr (d, s')" and ok: "reader_ok fe s"
      obtain n s1 where 1: "getl_or_end s = Some (Inr (n, s1))"
        "(if \<not> snd n then io_return None s1
          else io_bind (read_tcoff_record fe std (ucast (fst n))) (\<lambda>r s. case r of Next \<Rightarrow> find fe std s
            | Skip \<Rightarrow> io_bind throw_record_from_tcoff (\<lambda>_ s. find fe std s) s
            | Found d \<Rightarrow> io_return (Some d) s | Stop_reading \<Rightarrow> io_return None s) s1) = Some (Inr (d, s'))"
        using "1.hyps" r by (auto simp: io_bind_Inr)
      have s1: "reader_ok fe s1" by (rule keepsD[OF getl_or_end_kept 1(1) ok])
      have IH: "reader_ok fe t \<Longrightarrow> find fe std t = Some (Inr (d, s')) \<Longrightarrow> reader_ok fe s'" for t using "1.IH" by blast
      show "reader_ok fe s'"
      proof (cases "snd n")
        case True
        then obtain x s2 where 2: "read_tcoff_record fe std (ucast (fst n)) s1 = Some (Inr (x, s2))"
          "(case x of Next \<Rightarrow> find fe std s2 | Skip \<Rightarrow> io_bind throw_record_from_tcoff (\<lambda>_ s. find fe std s) s2
            | Found d \<Rightarrow> io_return (Some d) s2 | Stop_reading \<Rightarrow> io_return None s2) = Some (Inr (d, s'))"
          using 1(2) by auto
        have s2: "reader_ok fe s2" by (rule keepsD[OF read_record_kept 2(1) s1])
        show ?thesis using 2(2) s2 IH keepsD[OF throw_record_kept _ s2] by (cases x) auto
      qed (use 1(2) s1 in simp)
    qed
  qed
  then show "reader_ok fe s'" using r ok by blast
qed

lemma next_descriptor_kept [kept_operations]: "kept fe (next_descriptor fe std)"
  unfolding next_descriptor_def by (auto intro!: keeps_intros kept_operations split: option.split)

lemma note_attributes_ok:
  assumes "reader_ok fe s" "note_attributes (extra_attributes sub) s = Some s'"
  shows "reader_ok fe s'"
proof (cases "extra_attributes sub = 0")
  case False
  then obtain e es where e: "libentries s = e # es" "s' = s\<lparr>libentries := set_bits_of (extra_attributes sub) e # es\<rparr>"
    using assms(2) by (auto simp: note_attributes_def split: list.splits)
  have "has_bit LIBENTRY_BIT_COMPATIBLE (l_bits e OR extra_attributes sub) = has_bit LIBENTRY_BIT_COMPATIBLE (l_bits e)"
    by (auto simp: extra_attributes_def simp flip: or.assoc)
  then show ?thesis using assms(1) e by (auto simp: reader_ok_def set_bits_of_def entry_in_def entry_single_def)
qed (use assms in \<open>simp add: note_attributes_def\<close>)

lemma descriptor_line_kept [kept_operations]: "kept fe (descriptor_line cap)"
  by (rule keepsI) (auto simp: descriptor_line_def Let_def dest: note_attributes_ok split: if_splits option.splits)

lemma readdescriptorline_kept [kept_operations]: "kept fe (readdescriptorline fe cap std)"
  unfolding readdescriptorline_def by (auto intro!: keeps_intros kept_operations)

lemma open_descfile_kept [kept_operations]: "kept fe (open_descfile fe bs)"
  unfolding open_descfile_def by (auto intro!: keeps_intros kept_operations)

lemma patch_entries_ok: "reader_ok fe s \<Longrightarrow> reader_ok fe (snd (patch_entries names s))"
proof (induction names arbitrary: s)
  case (Cons name names)
  have "reader_ok fe (snd (patch_entry name s))"
  proof (cases "search_libentries (libentries s) name")
    case (Some e)
    then have "entry_in (modules s) e" "entry_single fe e" using Cons.prems search_libentries_Some[OF Some] by (auto simp: reader_ok_def)
    then have "entry_in (modules s) (e\<lparr>l_procdefs := rev (l_procdefs e)\<rparr>)" "entry_single fe (e\<lparr>l_procdefs := rev (l_procdefs e)\<rparr>)"
      by (auto simp: entry_in_def entry_single_def)
    then show ?thesis using Some save_ok[OF Cons.prems] by (simp add: patch_entry_def Let_def)
  qed (use Cons.prems in \<open>simp add: patch_entry_def issue_def\<close>)
  from Cons.IH[OF this] show ?case by (simp add: case_prod_beta Let_def)
qed simp

lemma patchdescriptors_ok:
  assumes "reader_ok fe s"
  shows "reader_ok fe (snd (patchdescriptors fe name eps s))"
  using patch_entries_ok[OF assms, of eps]
  by (auto simp: patchdescriptors_def case_prod_beta Let_def issue_def reader_ok_def rememberallnames_def)

section \<open>Reachable states\<close>

inductive reachable :: "fe_data \<Rightarrow> reader \<Rightarrow> bool" for fe where
  start: "reachable fe (init_obj_reader filenum filename)"
| opened: "reachable fe s \<Longrightarrow> open_descfile fe bs (s\<lparr>currentfilenum := n, libfilename := name\<rparr>) = Some (Inr ((), s')) \<Longrightarrow> reachable fe s'"
| line: "reachable fe s \<Longrightarrow> readdescriptorline fe cap in_stdlib s = Some (Inr (l, s')) \<Longrightarrow> reachable fe s'"
| patched: "reachable fe s \<Longrightarrow> reachable fe (snd (patchdescriptors fe name eps s))"


definition one_procedure :: "OCTET list" where
  "one_procedure = [1, 0, 2, 4, 0, 0, 3, 0, 26, 20, 0, 3, 17, 10, 20, 0] @ octets (''PROC p()'' @ [CHR 0x0A] @ ''SEQ'' @ [CHR 0x0A] @ '':'') @ [3, 0]"

definition one_fe :: fe_data where
  "one_fe = \<lparr>fe_lang = FE_LANG_OCCAM, ptype = ARCH_T, pattr = 0, fe_suppress_compat = False, fe_read_all_libs = False\<rparr>"

definition line_and_entry :: "(lex_error + string option \<times> reader) option \<Rightarrow> bool" where
  "line_and_entry r \<longleftrightarrow> (case r of Some (Inr (Some l, s)) \<Rightarrow> length (libentries s) = 1 | _ \<Rightarrow> False)"


end
