(* ===== verification/OCC_Endless.thy ===== *)
theory OCC_Endless
  imports OCC_ReadBack
begin

text \<open>
  A record with a negative length: the reader of descriptors goes back in the file.
\<close>

definition skipped_tags :: "LONG set" where
  "skipped_tags = {l. (ucast l :: INT32) \<notin> {LIB_INDEX_START_TAG, INDEX_ENTRY_TAG, START_MODULE_TAG, SYMBOL_TAG, DESCRIPTOR_TAG,
     END_MODULE_TAG, LIB_INDEX_END_TAG, DEFINE_SYMBOL_TAG, LOAD_TEXT_TAG, SECTION_TAG}}"

lemma skipped_record: "tag \<in> skipped_tags \<Longrightarrow> read_tcoff_record fe std (ucast tag) s = Some (Inr (Skip, s))"
  by (simp add: skipped_tags_def read_tcoff_record_def io_bind_def rd_get_def io_return_def)

lemma goes_back:
  assumes "tcoff_putl tag = Some t" "below_2_32 tag" "tcoff_putl (- of_nat (length t + length l)) = Some l"
    "remaining (infile s) = t @ l @ r" "inside (infile s)"
  shows "\<exists>s1. getl_or_end s = Some (Inr ((tag, True), s1)) \<and> throw_record_from_tcoff s1 = Some (Inr ((), s))"
proof -
  let ?s = "s\<lparr>infile := skip (length t) (infile s)\<rparr>"
  let ?n = "length t + length l"
  have n: "?n \<le> 20" using assms(1,3)[THEN putl_short] by simp
  have g: "getl_or_end s = Some (Inr ((tag, True), ?s))"
    using occ21_reads_below[OF assms(1,2,4)] by (simp add: getl_or_end_def io_return_def)
  have "(- of_nat ?n :: LONG) = word_of_int (- int ?n)" by simp
  then have neg: "sint (- of_nat ?n :: LONG) = - int ?n"
    using n by (simp only: signed_of_int) (simp add: signed_take_bit_int_eq_self)
  then have "below_2_32 (- of_nat ?n)" by (simp add: word_sle_eq)
  moreover have "remaining (infile ?s) = l @ r" using assms(4) by (simp add: remaining_skip)
  ultimately have "getl_from_tcoff ?s = Some (Inr (- of_nat ?n, s\<lparr>infile := skip ?n (infile s)\<rparr>))"
    using occ21_getl[OF assms(3), of ?s r] by simp
  moreover have "fseek_cur (- of_nat ?n) (skip ?n (infile s)) = (True, infile s)"
    using assms(5) neg by (simp add: fseek_cur_def inside_def)
  ultimately have "throw_record_from_tcoff ?s = Some (Inr ((), s))"
    by (simp add: throw_record_from_tcoff_def throw_bytes_from_tcoff_def io_bind_def io_return_def)
  then show ?thesis using g by blast
qed

text \<open>C16: A record whose length is negative and leads back to its own start is skipped again and again: the compiler does not end.\<close>

theorem record_read_for_ever:
  assumes "tcoff_putl tag = Some t" "below_2_32 tag" "tag \<in> skipped_tags" "tcoff_putl (- of_nat (length t + length l)) = Some l"
    and "remaining (infile s) = t @ l @ r" "inside (infile s)"
  shows "find_descriptor fe in_stdlib s = None"
proof (rule ccontr)
  assume "find_descriptor fe in_stdlib s \<noteq> None"
  then obtain x where "find_descriptor fe in_stdlib s = Some x" by auto
  then show False
    using assms(3,5,6)
  proof (induction rule: find_descriptor.raw_induct[rotated, consumes 1])
    case (1 find fe std s x)
    obtain s1 where "getl_or_end s = Some (Inr ((tag, True), s1))" "throw_record_from_tcoff s1 = Some (Inr ((), s))"
      using goes_back[OF assms(1,2,4) "1.prems"(2,3)] by blast
    then have "find fe std s = Some x"
      using "1.hyps" skipped_record[OF "1.prems"(1)] by (simp add: io_bind_def)
    then show ?case using "1.IH" "1.prems" by blast
  qed
qed

theorem record_read_for_ever_witness: "find_descriptor sample_fe False (sample_reader [100, 255, 2]) = None"
proof -
  have "tcoff_putl 100 = Some [100]" "tcoff_putl (- of_nat (length [100 :: OCTET] + length [255, 2 :: OCTET])) = Some [255, 2]" by code_simp+
  from record_read_for_ever[OF this(1) _ _ this(2), of "sample_reader [100, 255, 2]" "[]"] show ?thesis
    by (simp add: skipped_tags_def inside_def word_sle_eq) (simp add: fopen_def)
qed

end
