(* ===== verification/OCC_External.thy ===== *)
theory OCC_External
  imports OCC_ReadBack
begin

text \<open>
  The pragma EXTERNAL (compiler/occ21/fe/objrdr.c, EXTERNAL handling): a header in occam, and the
  memory the routine needs, declare a routine of the run-time system or in C. The lexer is given the
  header as the lines of a descriptor. The statics are the record \<open>extern\<close>; the NUL that ends
  a string is the end of the list; \<open>None\<close> is undefined behaviour, signed overflow among it. Process
  priorities are configured in.
\<close>

section \<open>Numbers\<close>

definition EXTERNAL_VALUE_ERR :: INT32 where "EXTERNAL_VALUE_ERR = - 1"

definition skip_spaces :: "string \<Rightarrow> string" where
  "skip_spaces ptr = dropWhile (\<lambda>c. c = CHR '' '') ptr"

definition digit_value :: "char \<Rightarrow> int" where
  "digit_value c = int (of_char c) - 48"

fun read_digits :: "string \<Rightarrow> INT32 \<Rightarrow> (string \<times> INT32) option" where
  "read_digits [] n = Some ([], n)"
| "read_digits (c # ptr) n =
     (if isdigit c
      then if 0x7FFFFFFF < n then Some (c # ptr, EXTERNAL_VALUE_ERR)
           else (let v = sint n * 10 + digit_value c
                 in if v < 2 ^ 31 then read_digits ptr (word_of_int v) else None)
      else Some (c # ptr, n))"

definition get_optional_num :: "string \<Rightarrow> INT32 \<Rightarrow> char \<Rightarrow> (string \<times> INT32) option" where
  "get_optional_num ptr res c =
     (case skip_spaces ptr of
        [] \<Rightarrow> Some ([], res)
      | d # ptr \<Rightarrow> if d = c then read_digits (skip_spaces ptr) 0 else Some (d # ptr, EXTERNAL_VALUE_ERR))"

section \<open>The declaration\<close>

record extern =
  extern_buf :: string
  extern_status :: nat

fun last_paren :: "string \<Rightarrow> nat \<Rightarrow> nat" where
  "last_paren s 0 = 0"
| "last_paren s (Suc n) = (if Suc n < length s \<and> s ! Suc n = CHR '')'' then Suc n else last_paren s n)"

definition header_length :: "string \<Rightarrow> nat" where
  "header_length s =
     (let len = last_paren s (length s)
      in if len < length s \<and> s ! len = CHR '')''
         then (let i = len + 1 + length (takeWhile (\<lambda>c. c = CHR '' '' \<or> c = CHR 0x09) (drop (len + 1) s))
               in if take 4 (drop i s) = ''FORK'' then i + 3 else len)
         else len)"

definition external_sizes :: "string \<Rightarrow> (string \<times> INT32 \<times> INT32 \<times> INT32) option" where
  "external_sizes ptr =
     (case get_optional_num ptr EXTERNAL_VALUE_ERR CHR ''='' of
        None \<Rightarrow> None
      | Some (ptr, ws) \<Rightarrow>
          (case get_optional_num ptr 0 CHR '','' of
             None \<Rightarrow> None
           | Some (ptr, vs) \<Rightarrow>
               (case get_optional_num ptr 0 CHR '','' of
                  None \<Rightarrow> None
                | Some (ptr, ms) \<Rightarrow> Some (skip_spaces ptr, ws, vs, ms))))"

definition external_ws :: "string \<Rightarrow> INT32 \<Rightarrow> INT32 option" where
  "external_ws name ws =
     (if 2 \<le> length name \<and> take 2 name = ''C.'' then Some (if ws <s 3 then 3 else ws)
      else if 3 \<le> length name \<and> (take 2 name = ''B.'' \<or> take 3 name = ''BX.'') then Some (if ws <s 6 then 6 else ws)
      else if 5 \<le> length name \<and> take 4 name = ''CIF.'' then if sint ws + 16 < 2 ^ 31 then Some (ws + 16) else None
      else Some ws)"

definition bad_pragma :: "string \<Rightarrow> extern \<times> reader \<Rightarrow> bool \<times> extern \<times> reader" where
  "bad_pragma name s = (False, fst s, issue (SYN_BAD_PRAGMA_DIRECTIVE name) (snd s))"

definition declare_external ::
  "fe_data \<Rightarrow> string \<Rightarrow> INT32 \<Rightarrow> INT32 \<Rightarrow> INT32 \<Rightarrow> extern \<times> reader \<Rightarrow> (bool \<times> extern \<times> reader) option" where
  "declare_external fe ptr ws vs ms s =
     (case if 0 \<le>s ws \<and> 0 \<le>s vs \<and> ptr = [] then desc_name (extern_buf (fst s)) else None of
        None \<Rightarrow> Some (bad_pragma ''EXTERNAL'' s)
      | Some (name, _) \<Rightarrow>
          (case external_ws name ws of
             None \<Rightarrow> None
           | Some ws \<Rightarrow>
               Some (True, (fst s)\<lparr>extern_status := 1\<rparr>,
                     snd (process_externalname fe name 0 ws vs ms (ptype fe) (pattr fe) 0 False (snd s)))))"

definition init_external :: "fe_data \<Rightarrow> string \<Rightarrow> bool \<Rightarrow> extern \<times> reader \<Rightarrow> (bool \<times> extern \<times> reader) option" where
  "init_external fe str dynext s =
     (let len = header_length str;
          s = ((fst s)\<lparr>extern_buf := take (len + 1) (str @ [CHR 0x00]) @ [CHR 0x0A], extern_status := 0\<rparr>, snd s)
      in if length str < len + 1 then None
         else (case external_sizes (drop (len + 1) str) of
                 None \<Rightarrow> None
               | Some (ptr, ws, vs, ms) \<Rightarrow>
                   if dynext \<and> (ws \<noteq> EXTERNAL_VALUE_ERR \<or> vs \<noteq> 0) then Some (bad_pragma ''DEXTERNAL'' s)
                   else if dynext then declare_external fe ptr 1 1 0 s
                   else declare_external fe ptr ws vs ms s))"

definition readexternalline :: "extern \<Rightarrow> string option \<times> extern" where
  "readexternalline x =
     (let n = extern_status x; x = x\<lparr>extern_status := n + 1\<rparr>
      in if n = 1 then (Some (extern_buf x), x)
         else if n = 2 then (Some (''  SEQ'' @ [CHR 0x0A]), x\<lparr>extern_buf := []\<rparr>)
         else if n = 3 then (Some ('':'' @ [CHR 0x0A]), x)
         else (None, x\<lparr>extern_status := 0\<rparr>))"

section \<open>Numbers are exact\<close>

definition number_of :: "int \<Rightarrow> string \<Rightarrow> int" where
  "number_of v ds = foldl (\<lambda>v c. v * 10 + digit_value c) v ds"

lemma digit_value_nonneg: "isdigit c \<Longrightarrow> 0 \<le> digit_value c"
  by (simp add: isdigit_def digit_value_def Let_def)

lemma number_of_grows: "\<lbrakk>list_all isdigit ds; 0 \<le> v\<rbrakk> \<Longrightarrow> v \<le> number_of v ds"
proof (induction ds arbitrary: v)
  case (Cons c ds)
  have "v \<le> v * 10 + digit_value c" using Cons.prems digit_value_nonneg[of c] by simp
  moreover have "v * 10 + digit_value c \<le> number_of (v * 10 + digit_value c) ds" using Cons digit_value_nonneg[of c] by simp
  ultimately show ?case by (simp add: number_of_def)
qed (simp add: number_of_def)

lemma small_word: "0 \<le> v \<Longrightarrow> v < 2 ^ 31 \<Longrightarrow> sint (word_of_int v :: INT32) = v"
  by (simp only: signed_of_int) (simp add: signed_take_bit_int_eq_self)

lemma overflow_check_too_late: "0 \<le> sint n \<Longrightarrow> \<not> 0x7FFFFFFF < n" for n :: INT32
proof -
  assume n: "0 \<le> sint n"
  have "sint n < 2 ^ 31" using sint_lt[of n] by simp
  then have "uint (word_of_int (sint n) :: INT32) = sint n" using n by (simp only: unsigned_of_int) (simp add: take_bit_int_eq_self)
  then have "uint n < 2 ^ 31" using \<open>sint n < 2 ^ 31\<close> by simp
  then show ?thesis by (simp add: word_less_alt)
qed

lemma read_digits_number:
  assumes "list_all isdigit ds" "rest = [] \<or> \<not> isdigit (hd rest)" "0 \<le> sint n"
  shows "read_digits (ds @ rest) n =
    (if number_of (sint n) ds < 2 ^ 31 then Some (rest, word_of_int (number_of (sint n) ds)) else None)"
  using assms(1,3)
proof (induction ds arbitrary: n)
  case Nil
  then show ?case using assms(2) sint_lt[of n] by (cases rest) (auto simp: number_of_def)
next
  case (Cons c ds)
  let ?v = "sint n * 10 + digit_value c"
  have v: "0 \<le> ?v" using Cons.prems digit_value_nonneg[of c] by simp
  have step: "read_digits ((c # ds) @ rest) n = (if ?v < 2 ^ 31 then read_digits (ds @ rest) (word_of_int ?v) else None)"
    using Cons.prems overflow_check_too_late[of n] by (simp add: Let_def)
  have more: "number_of (sint n) (c # ds) = number_of ?v ds" by (simp add: number_of_def)
  show ?case
  proof (cases "?v < 2 ^ 31")
    case True
    then have s: "sint (word_of_int ?v :: INT32) = ?v" using v by (intro small_word)
    show ?thesis unfolding step more using True Cons.IH[of "word_of_int ?v"] Cons.prems v s by simp
  next
    case False
    then show ?thesis unfolding step more using number_of_grows[of ds ?v] Cons.prems v by simp
  qed
qed

lemma skip_spaces_simps [simp]: "skip_spaces (replicate i CHR '' '' @ s) = skip_spaces s" "c \<noteq> CHR '' '' \<Longrightarrow> skip_spaces (c # s) = c # s"
  by (induction i) (auto simp: skip_spaces_def)

lemma digits_begin: "list_all isdigit ds \<Longrightarrow> ds \<noteq> [] \<Longrightarrow> skip_spaces (ds @ rest) = ds @ rest"
  by (cases ds) (auto simp: isdigit_def skip_spaces_def)

lemma number_read:
  assumes "list_all isdigit ds" "ds \<noteq> []" "rest = [] \<or> \<not> isdigit (hd rest)" "c \<noteq> CHR '' ''"
  shows "get_optional_num (replicate i CHR '' '' @ c # replicate j CHR '' '' @ ds @ rest) res c =
    (if number_of 0 ds < 2 ^ 31 then Some (rest, word_of_int (number_of 0 ds)) else None)"
  using assms digits_begin[OF assms(1,2)] read_digits_number[OF assms(1,3), of 0] by (simp add: get_optional_num_def)

text \<open>C17: The number after its sign is read exactly, whatever spaces are around it, if it fits in a
  signed word. If it does not, the computation overflows before the check against it.\<close>

theorem external_number_exact:
  assumes "list_all isdigit ds" "ds \<noteq> []" "rest = [] \<or> \<not> isdigit (hd rest)" "c \<noteq> CHR '' ''"
  shows "get_optional_num (replicate i CHR '' '' @ c # replicate j CHR '' '' @ ds @ rest) res c =
    (if number_of 0 ds < 2 ^ 31 then Some (rest, word_of_int (number_of 0 ds)) else None)"
  using assms by (rule number_read)

theorem external_number_exact_witness:
  "get_optional_num ''  = 2147483647, 5'' 7 CHR ''='' = Some ('', 5'', 0x7FFFFFFF) \<and> get_optional_num ''= 2147483648'' 7 CHR ''='' = None"
proof
  have "list_all isdigit ''2147483647''" "list_all isdigit ''2147483648''" by code_simp+
  note d = this
  have n: "number_of 0 ''2147483647'' = 2147483647" "number_of 0 ''2147483648'' = 2147483648" by (simp_all add: number_of_def digit_value_def)
  show "get_optional_num ''  = 2147483647, 5'' 7 CHR ''='' = Some ('', 5'', 0x7FFFFFFF)"
    using external_number_exact[OF d(1), of "'', 5''" "CHR ''=''" 2 1 7] n by (simp add: isdigit_def numeral_eq_Suc)
  show "get_optional_num ''= 2147483648'' 7 CHR ''='' = None"
    using external_number_exact[OF d(2), of "[]" "CHR ''=''" 0 1 7] n by simp
qed

section \<open>What is declared\<close>

lemma last_paren_is:
  assumes "k \<le> n" "0 < k" "k < length s" "s ! k = CHR '')''" "\<And>j. k < j \<Longrightarrow> j < length s \<Longrightarrow> s ! j \<noteq> CHR '')''"
  shows "last_paren s n = k"
  using assms(1)
proof (induction n)
  case (Suc n)
  then show ?case using assms(3-5) by (cases "k = Suc n") auto
qed (use assms(2) in simp)

lemma header_length_is:
  assumes "CHR '')'' \<notin> set tail" "0 < length hdr" "tail = replicate i CHR '' '' @ c # tail'" "c \<notin> {CHR '' '', CHR 0x09, CHR ''F''}"
  shows "header_length (hdr @ '')'' @ tail) = length hdr"
proof -
  let ?s = "hdr @ '')'' @ tail"
  have at: "?s ! length hdr = CHR '')''" by (simp add: nth_append)
  have "?s ! j \<noteq> CHR '')''" if j: "length hdr < j" "j < length ?s" for j
  proof -
    obtain m where m: "j = length hdr + Suc m" using j(1) by (metis add_Suc_right less_iff_Suc_add)
    then have "?s ! j = tail ! m" "m < length tail" using j(2) by (simp_all add: nth_append)
    then show ?thesis using assms(1) by (metis nth_mem)
  qed
  then have l: "last_paren ?s (length ?s) = length hdr" using assms(2) at by (intro last_paren_is) simp_all
  have "drop (length hdr + 1 + length (takeWhile (\<lambda>c. c = CHR '' '' \<or> c = CHR 0x09) tail)) ?s = c # tail'"
    using assms(3,4) by (simp add: takeWhile_append)
  then show ?thesis using l at assms(4) unfolding header_length_def Let_def l by simp
qed

definition external_text :: "string \<Rightarrow> string \<Rightarrow> string \<Rightarrow> string \<Rightarrow> string" where
  "external_text name params ws vs = ''PROC '' @ name @ ''('' @ params @ '') = '' @ ws @ '', '' @ vs"

lemma digit_not: "list_all isdigit ds \<Longrightarrow> \<not> isdigit c \<Longrightarrow> c \<notin> set ds"
  by (auto simp: list_all_iff)

lemma external_text_parts:
  assumes "list_all isdigit ws" "list_all isdigit vs"
  shows "header_length (external_text name params ws vs) = length (''PROC '' @ name @ ''('' @ params)"
    "drop (header_length (external_text name params ws vs) + 1) (external_text name params ws vs) = '' = '' @ ws @ '', '' @ vs"
    "take (header_length (external_text name params ws vs) + 1) (external_text name params ws vs @ z) = ''PROC '' @ name @ ''('' @ params @ '')''"
proof -
  have "CHR '')'' \<notin> set ('' = '' @ ws @ '', '' @ vs)" using digit_not[OF assms(1), of "CHR '')''"] digit_not[OF assms(2), of "CHR '')''"] by (simp add: isdigit_def)
  from header_length_is[OF this, of "''PROC '' @ name @ ''('' @ params" 1 "CHR ''=''" "'' '' @ ws @ '', '' @ vs"]
  show h: "header_length (external_text name params ws vs) = length (''PROC '' @ name @ ''('' @ params)"
    by (simp add: external_text_def)
  show "drop (header_length (external_text name params ws vs) + 1) (external_text name params ws vs) = '' = '' @ ws @ '', '' @ vs"
    unfolding h by (simp add: external_text_def)
  show "take (header_length (external_text name params ws vs) + 1) (external_text name params ws vs @ z) = ''PROC '' @ name @ ''('' @ params @ '')''"
    unfolding h by (simp add: external_text_def)
qed

lemma external_sizes_read:
  assumes "list_all isdigit ws" "ws \<noteq> []" "number_of 0 ws < 2 ^ 31" "list_all isdigit vs" "vs \<noteq> []" "number_of 0 vs < 2 ^ 31"
  shows "external_sizes ('' = '' @ ws @ '', '' @ vs) = Some ([], word_of_int (number_of 0 ws), word_of_int (number_of 0 vs), 0)"
proof -
  have a: "get_optional_num ('' = '' @ ws @ '', '' @ vs) EXTERNAL_VALUE_ERR CHR ''='' = Some ('', '' @ vs, word_of_int (number_of 0 ws))"
    using number_read[OF assms(1,2), of "'', '' @ vs" "CHR ''=''" 1 1] assms(3) by (simp add: isdigit_def)
  have b: "get_optional_num ('', '' @ vs) 0 CHR '','' = Some ([], word_of_int (number_of 0 vs))"
    using number_read[OF assms(4,5), of "[]" "CHR '',''" 0 1] assms(6) by simp
  have "get_optional_num [] 0 CHR '','' = Some ([], 0)" "skip_spaces [] = []" by (simp_all add: get_optional_num_def skip_spaces_def)
  then show ?thesis by (simp only: external_sizes_def a b option.case prod.case)
qed

lemma external_name:
  assumes "name_ok name" "CHR 0x00 \<notin> set params"
  shows "desc_name (''PROC '' @ name @ ''('' @ params @ '')'' @ [CHR 0x0A]) = Some (name, 5)"
proof -
  have "CHR 0x00 \<notin> set (''PROC '' @ name @ ''('' @ params @ '')'' @ [CHR 0x0A])" using assms by (auto simp: name_ok_def)
  then have c: "cstring (''PROC '' @ name @ ''('' @ params @ '')'' @ [CHR 0x0A]) = ''PROC '' @ name @ ''('' @ (params @ '')'' @ [CHR 0x0A])"
    by (rule cstring_whole)
  have "desc_name (''PROC '' @ name @ ''('' @ params @ '')'' @ [CHR 0x0A]) = Some (name, length ''PROC '')"
    by (rule desc_name_found[OF assms(1) c]) (simp only: c, simp)
  then show ?thesis by simp
qed

definition external_lines :: "extern \<Rightarrow> string option list" where
  "external_lines x =
     (let (a, x) = readexternalline x; (b, x) = readexternalline x; (c, x) = readexternalline x; (d, x) = readexternalline x
      in [a, b, c, d])"



end
