(* ===== verification/Spec2Isabelle.thy ===== *)
theory Spec2Isabelle
  imports TVM_Interpreter TVM_Stream TVM_Execution TVM_Alternation TVM_MobileWords
    Librarian_Output OCC_Names OCC_Library_Index OCC_Reachable OCC_Endless OCC_External
begin

text \<open>
  Parts of three programs of Razor: the Transterpreter virtual machine library (src/tvm/libtvm/),
  the interpreter that runs transputer byte code compiled from occam-pi; the librarian of the
  compiler tools (src/bin/ilibr/), which combines object files into libraries; and what the occam
  compiler (src/compiler/occ21/) has to do with object files and libraries.

  \<^bold>\<open>The program.\<close> An execution context (transputer.h) has the registers of a transputer: an
  evaluation stack A, B, C, an operand register, instruction and workspace pointers, and the
  heads of a run queue and a timer queue of processes. A process is the address of its
  workspace; the words just below it hold its saved state, among them the link of the queue it
  is in. \<open>tvm_dispatch\<close> (interpreter.c) fetches bytes and calls instruction functions through
  three jump tables; an instruction returns a code that is zero to go on. Instructions block and
  wake processes through scheduler.c. Channels, barriers and semaphores are words of memory
  that hold waiting processes; mobile data lives on the C heap with a type word below it. An
  embedding program supplies foreign functions, external channels, the clock and the heap. The
  loader (tencode.c) decodes the byte code files.

  The librarian (ilibr.c) reads object files in the TCOFF format (tcoff_io.c), collects the
  exported symbols that their modules define, and writes an index of them, with the position of
  each module, before the copied files.

  The compiler writes an object file (be/objwrt.c) with a descriptor for each entry point: its
  header in occam, how it uses its channels, and the memory it needs (fe/objlib.c). A program that
  uses the file, or a library it is in, gets the descriptors back (fe/objrdr.c): they are entered
  with their modules, one definition for each kind of processor, and given line by line to the
  lexer as if they were source. A name is one node of a table (fe/strpool.c) and is compared by its
  address; a pragma gives a routine another name outside (fe/objtrans.c).

  \<^bold>\<open>Configuration.\<close> One build is modelled: 32-bit words (TVM_WORD_LENGTH 4) on a 32-bit
  little-endian host, the native memory interface, TVM_OCCAM_PI and TVM_DYNAMIC_OCCAM_PI with
  malloc, external channel bundles, TVM_EMULATE_T4, the internal mem.c, jump-table dispatch, no
  type shadow, no RMoX, no profiling. Signed arithmetic wraps, as the machine assumes. Where
  TVM_HAVE_TWOWORD selects between two bodies both are modelled, the one without it under the
  suffix \<open>_narrow\<close>; a shift by the word size in it (\<open>divlu\<close> with a normalised divisor), which C
  leaves undefined, is masked by zero in the expression. The function pointers of a context are
  those that \<open>_tvm_install_scheduler\<close> installs.

  \<^bold>\<open>The model.\<close> A function of the C code on \<open>ECTX ectx\<close> is a function on the record \<open>mach\<close>, which
  extends the record \<open>ectx\<close> of one context with what all share (memory, clock, the other
  contexts, the heap). It returns an option: \<open>None\<close> where the C code has undefined behaviour
  (null function or structure pointer, integer division trap) or does not end, else the C
  return code with the new state. Errors are the code \<open>ECTX_ERROR\<close> with a flag, as in C. Loops
  with a bound are recursive functions; those that may not end are \<open>partial_function\<close>s, so that
  each theorem that gives \<open>Some\<close> says that the loop ends. No fuel is used.

  \<^bold>\<open>Theories.\<close>
    \<^item> \<open>TVM_Prelude\<close>, \<open>TVM_Memory\<close>: machine words, memory access (tvm_types.h, tvm_mem_intf.h,
      mem.c, mem_bigendian.c); locale \<open>word_store\<close>, provided by both byte orders. Block copy and
      fill are shown to have their byte-wise effect.
    \<^item> \<open>TVM_Machine\<close>: the state and the macros of instructions.h.
    \<^item> \<open>TVM_Scheduler\<close>, \<open>TVM_TimerQueue\<close>: scheduler.c; the linked run and timer queues represent
      lists (\<open>run_queue\<close>, \<open>timer_queue\<close>), enqueueing, dispatch, insertion, removal and expiry
      refine the list operations; locale \<open>fifo_queue\<close>.
    \<^item> \<open>TVM_Primary\<close>, \<open>TVM_Arith\<close>, \<open>TVM_FloatSupport\<close>: instructions on the evaluation stack and
      memory (ins_pri.c, ins_sec.c, ins_t800.c, ins_t9000.c, ins_pi.c, ins_float.c).
    \<^item> \<open>TVM_LongArith\<close>, \<open>TVM_LongDivision\<close>: exactness of the arithmetic, overflow detection and
      agreement of the two builds, with Knuth's long division.
    \<^item> \<open>TVM_Process\<close>, \<open>TVM_Semaphore\<close>, \<open>TVM_Barrier\<close>, \<open>TVM_Channel\<close>, \<open>TVM_Alt\<close>: processes and
      synchronisation (ins_sec.c, ins_pi.c, ins_timer.c, ins_barrier.c, ins_chan.c, ins_alt.c).
    \<^item> \<open>TVM_Frame\<close>, \<open>TVM_Rendezvous\<close>, \<open>TVM_Synchronise\<close>, \<open>TVM_Alternation\<close>: what channel
      communication, semaphores, barriers and alternation do to the machine, over frame lemmas
      for words written apart from each other. The locale \<open>data_movement\<close> states what the copying
      of a message owes to the rendezvous; input, output and the swap of mobile pointers provide
      it. A waiting process is described by the words of its workspace and by the list that a
      queue represents, so the queue operations are used through their refinement lemmas.
    \<^item> \<open>TVM_Env\<close>: what the embedding supplies, as a record of parameters.
    \<^item> \<open>TVM_MobileTypes\<close>, \<open>TVM_Mobile\<close>, \<open>TVM_MobileIO\<close>: mobile types (mobile_types.h,
      ins_mobile.c, ins_proc.c).
    \<^item> \<open>TVM_MobileWords\<close>: the type words give back what is packed into them.
    \<^item> \<open>TVM_Dispatch\<close>, \<open>TVM_Execution\<close>: the jump tables and the fetch loop, the encoding of
      instructions and operands in bytes, and the loops of \<open>tvm_run\<close> and \<open>tvm_run_count\<close>. The tables list what make-dispatch.py
      generates from the opcode comments of the sources.
    \<^item> \<open>TVM_Interpreter\<close>: contexts from outside, memory layout, installation, running and
      disconnecting of top-level processes (interpreter.c).
    \<^item> \<open>TVM_TEncode\<close>, \<open>TVM_Stream\<close>: the loader (tencode.c, tvm_tbc.h) and the walk over the
      elements of a stream.
    \<^item> \<open>TCOFF_IO\<close>, \<open>TCOFF_Numbers\<close>: numbers, strings and records of object files, with the number
      reader of the compiler's copy of the library; what is written is read back, and has the size
      computed for it.
    \<^item> \<open>Librarian\<close>, \<open>Librarian_Files\<close>, \<open>Librarian_Index\<close>, \<open>Librarian_Order\<close>, \<open>Librarian_Output\<close>: ilibr.c.
      Reading only moves on in a file; the total and the entries of the index fit together
      (\<open>index_inv\<close>); the positions in the index of a library are those of modules; the index is
      sorted by a linear order; a library as input is passed over exactly. The files are whole
      object files (\<open>whole_objects\<close>) in these theorems; what happens otherwise is shown on examples.

    \<^item> \<open>TCOFF_Records\<close>: records are passed over exactly, for any reader that gives what the locale
      \<open>record_reader\<close> asks for; the librarian (\<open>ilibr\<close>) and the compiler (\<open>occ21\<close>) both do.
    \<^item> \<open>OCC_Names\<close>: strpool.c, and that a name has one node. \<open>OCC_Library\<close>: libraries in store, the choice
      of a definition for the processor, translated names (objlib.c, objlib.h, objtrans.c).
      \<open>OCC_Reader\<close>: objrdr.c. \<open>OCC_Descriptor\<close>: descriptors are generated (objlib.c). \<open>OCC_Writer\<close>: objwrt.c.
    \<^item> \<open>OCC_Lines\<close>, \<open>OCC_Descriptor_Text\<close>: the lines of a descriptor that the lexer gets, and that they
      are indented as they have to be. \<open>OCC_Naming\<close>: the name in a descriptor, names translated there
      and back. \<open>OCC_ReadBack\<close>: the compiler reads what it writes. \<open>OCC_Library_Index\<close>: the compiler reads
      what the librarian writes.
    \<^item> \<open>OCC_Reachable\<close>: the states of the reader that can be reached are well-formed, by rule induction over
      its operations. \<open>OCC_Endless\<close>: the record that is read for ever. \<open>OCC_External\<close>: the pragma EXTERNAL.

  \<^bold>\<open>Hosts.\<close> The virtual machine is that of a 32-bit host as above; the librarian and the compiler
  are those of a 64-bit host, where a \<open>long\<close> has 64 bits.

  \<^bold>\<open>Not modelled.\<close> The T8 floating point unit (the rest of ins_float.c) computes with host
  floats; mem_avr.c, mem_array.c, the vendored allocator tlsf.c, ins_rmox.c, the type shadow and
  profiling are configured out. Of the librarian, option and command file parsing and messages
  are left out. Of the compiler, what is not named above is left out: parser, checker and code
  generator; the routines of a descriptor are data, with the hashes of their types and the use of
  their channels as fields, because the code that computes these is not modelled, and so are the
  options. The wrappers that embed the library, the
  tranx86 translator, the CCSP kernel, the tools and the occam libraries are other programs of
  the repository.
\<close>

end
